(* ===== verification/Prelude.thy ===== *)
theory Prelude
  imports Main "HOL-Library.Char_ord" "HOL-Library.List_Lexorder"
begin

text \<open>
  What the components share: Go's byte strings and the few functions of package
  \<^verbatim>\<open>strings\<close> the service calls, Go maps that are ranged over, and the lemma collections
  that carry the proofs.

  A Go string is a list of bytes, and so is Isabelle's \<^typ>\<open>string\<close>: a
  \<^typ>\<open>char\<close> is eight bits.  A Go map that the code iterates over is an association
  list; the order of the list stands for the iteration order, which Go leaves unspecified.
\<close>

named_theorems run_simps \<open>equations that run a step of the model\<close>
named_theorems event_simps \<open>how an operation extends the trace\<close>
named_theorems law_intros \<open>contracts of the interfaces\<close>


section \<open>Byte strings\<close>

type_synonym bytes = string

abbreviation byte_val :: "char \<Rightarrow> nat" where
  "byte_val c \<equiv> of_char c"

lemma byte_val_less [simp]: "byte_val c < 256"
  using of_char_mod_256 [of c, where 'a = nat] by (metis mod_less_divisor zero_less_numeral)

text \<open>\<^verbatim>\<open>strings.HasPrefix\<close>\<close>

definition has_prefix :: "string \<Rightarrow> string \<Rightarrow> bool" where
  "has_prefix s p \<longleftrightarrow> take (length p) s = p"

lemma has_prefix_append [simp]: "has_prefix (p @ s) p"
  by (simp add: has_prefix_def)

lemma has_prefix_iff: "has_prefix s p \<longleftrightarrow> (\<exists>r. s = p @ r)"
  unfolding has_prefix_def by (metis append_eq_conv_conj append_take_drop_id)

text \<open>
  \<^verbatim>\<open>strings.Split\<close> at a one-byte separator: never the empty list, and
  \<^verbatim>\<open>Split("", sep)\<close> is the list of one empty string.
\<close>

fun split_at :: "char \<Rightarrow> string \<Rightarrow> string list" where
  "split_at c [] = [[]]"
| "split_at c (x # xs) =
     (if x = c then [] # split_at c xs
      else (case split_at c xs of [] \<Rightarrow> [[x]] | w # ws \<Rightarrow> (x # w) # ws))"

text \<open>The inverse, \<^verbatim>\<open>strings.Join\<close> with the same separator.\<close>

fun join_with :: "char \<Rightarrow> string list \<Rightarrow> string" where
  "join_with c [] = []"
| "join_with c [w] = w"
| "join_with c (w # v # ws) = w @ c # join_with c (v # ws)"

lemma split_at_nonempty [simp]: "split_at c s \<noteq> []"
  by (induction s) (auto split: list.splits)

lemma split_at_no_sep: "c \<notin> set w \<Longrightarrow> split_at c w = [w]"
  by (induction w) auto

lemma split_at_append_sep:
  "c \<notin> set w \<Longrightarrow> split_at c (w @ c # s) = w # split_at c s"
  by (induction w) auto

lemma split_at_join:
  "ws \<noteq> [] \<Longrightarrow> (\<And>w. w \<in> set ws \<Longrightarrow> c \<notin> set w) \<Longrightarrow> split_at c (join_with c ws) = ws"
  by (induction c ws rule: join_with.induct) (auto simp: split_at_no_sep split_at_append_sep)

text \<open>
  \<^verbatim>\<open>strings.LastIndex\<close> of a one-byte substring: the index of the last occurrence,
  or \<open>-1\<close>.
\<close>

fun last_index :: "char \<Rightarrow> string \<Rightarrow> int" where
  "last_index c [] = -1"
| "last_index c (x # xs) =
     (let i = last_index c xs in
      if 0 \<le> i then i + 1 else if x = c then 0 else -1)"

lemma last_index_ge: "-1 \<le> last_index c s"
  by (induction s) (auto simp: Let_def)

lemma last_index_lt: "last_index c s < int (length s)"
  by (induction s) (auto simp: Let_def)

lemma last_index_neg: "\<not> 0 \<le> last_index c s \<Longrightarrow> last_index c s = -1"
  using last_index_ge [of c s] by linarith

lemma last_index_none: "last_index c s = -1 \<longleftrightarrow> c \<notin> set s"
proof (induction s)
  case Nil
  show ?case by simp
next
  case (Cons x xs)
  then show ?case using last_index_neg [of c xs] by (auto simp: Let_def)
qed

lemma last_index_at:
  "c \<notin> set v \<Longrightarrow> last_index c (u @ c # v) = int (length u)"
  by (induction u) (auto simp: Let_def dest: last_index_none [THEN iffD2])

lemma last_index_split:
  assumes "0 \<le> last_index c s"
  shows "\<exists>u v. s = u @ c # v \<and> c \<notin> set v \<and> last_index c s = int (length u)"
  using assms
proof (induction s)
  case Nil
  then show ?case by simp
next
  case (Cons x xs)
  show ?case
  proof (cases "0 \<le> last_index c xs")
    case True
    then obtain u v where "xs = u @ c # v" "c \<notin> set v" "last_index c xs = int (length u)"
      using Cons.IH by blast
    then show ?thesis by (rule_tac x = "x # u" in exI, rule_tac x = v in exI) simp
  next
    case False
    then have none: "last_index c xs = -1" by (rule last_index_neg)
    with Cons.prems have "x = c" by (auto simp: Let_def split: if_splits)
    with none show ?thesis
      using last_index_none [of c xs]
      by (rule_tac x = "[]" in exI, rule_tac x = xs in exI) (simp add: Let_def)
  qed
qed


text \<open>Decimal numerals, as \<^verbatim>\<open>strconv.Itoa\<close> and \<^verbatim>\<open>%d\<close> print them.\<close>

fun nat_string :: "nat \<Rightarrow> string" where
  "nat_string n = (if n < 10 then [char_of (48 + n)] else nat_string (n div 10) @ [char_of (48 + n mod 10)])"

declare nat_string.simps [simp del]

definition int_string :: "int \<Rightarrow> string" where
  "int_string i = (if i < 0 then CHR ''-'' # nat_string (nat (- i)) else nat_string (nat i))"

section \<open>Maps that are iterated over\<close>

type_synonym 'v str_map = "(string \<times> 'v) list"

text \<open>A map literal or parameter is well formed when no key occurs twice.\<close>

definition map_wf :: "('k \<times> 'v) list \<Rightarrow> bool" where
  "map_wf m \<longleftrightarrow> distinct (map fst m)"

lemma map_wf_Nil [simp]: "map_wf []"
  by (simp add: map_wf_def)

lemma map_wf_Cons [simp]: "map_wf ((k, v) # m) \<longleftrightarrow> k \<notin> fst ` set m \<and> map_wf m"
  by (simp add: map_wf_def)

text \<open>Assignment \<^verbatim>\<open>m[k] = v\<close> and \<^verbatim>\<open>delete(m, k)\<close>.\<close>

fun map_put :: "'k \<Rightarrow> 'v \<Rightarrow> ('k \<times> 'v) list \<Rightarrow> ('k \<times> 'v) list" where
  "map_put k v [] = [(k, v)]"
| "map_put k v ((k', v') # m) = (if k = k' then (k, v) # m else (k', v') # map_put k v m)"

definition map_del :: "'k \<Rightarrow> ('k \<times> 'v) list \<Rightarrow> ('k \<times> 'v) list" where
  "map_del k m = filter (\<lambda>(k', v). k' \<noteq> k) m"

lemma map_of_put [simp]: "map_of (map_put k v m) = (map_of m)(k \<mapsto> v)"
  by (induction k v m rule: map_put.induct) (auto simp: fun_eq_iff)

lemma map_of_del [simp]: "map_of (map_del k m) = (map_of m)(k := None)"
  unfolding map_del_def by (induction m) (auto simp: fun_eq_iff)

lemma keys_put [simp]: "fst ` set (map_put k v m) = insert k (fst ` set m)"
  by (induction k v m rule: map_put.induct) auto

lemma keys_del [simp]: "fst ` set (map_del k m) = fst ` set m - {k}"
  unfolding map_del_def by force

lemma map_wf_put [simp]: "map_wf m \<Longrightarrow> map_wf (map_put k v m)"
  by (induction k v m rule: map_put.induct) (auto simp: map_wf_def)

lemma map_wf_del [simp]: "map_wf m \<Longrightarrow> map_wf (map_del k m)"
  by (simp add: map_wf_def map_del_def distinct_map_filter)

lemma map_of_None_keys: "map_of m k = None \<longleftrightarrow> k \<notin> fst ` set m"
  by (rule map_of_eq_None_iff)

lemma map_of_in: "map_wf m \<Longrightarrow> (k, v) \<in> set m \<longleftrightarrow> map_of m k = Some v"
  unfolding map_wf_def by auto

lemma keys_put_same: "map_of m k = Some v \<Longrightarrow> fst ` set (map_put k w m) = fst ` set m"
  using map_of_None_keys [of m k] by auto

text \<open>Membership of a key as the comma-ok lookup \<^verbatim>\<open>_, ok := m[k]\<close>.\<close>

definition map_has :: "('k \<times> 'v) list \<Rightarrow> 'k \<Rightarrow> bool" where
  "map_has m k \<longleftrightarrow> map_of m k \<noteq> None"

lemma map_has_iff: "map_has m k \<longleftrightarrow> k \<in> fst ` set m"
  by (simp add: map_has_def map_of_None_keys)


section \<open>Sums\<close>

lemma sum_not_Inl: "(\<nexists>e. r = Inl e) \<longleftrightarrow> (\<exists>x. r = Inr x)"
  by (cases r) auto

lemma find_first_split:
  "find P xs = Some x \<Longrightarrow> \<exists>us vs. xs = us @ x # vs \<and> P x \<and> (\<forall>u\<in>set us. \<not> P u)"
proof (induction xs)
  case Nil
  then show ?case by simp
next
  case (Cons y ys)
  show ?case
  proof (cases "P y")
    case True
    with Cons.prems show ?thesis by (rule_tac x = "[]" in exI, rule_tac x = ys in exI) auto
  next
    case False
    with Cons obtain us vs where "ys = us @ x # vs" "P x" "\<forall>u\<in>set us. \<not> P u" by auto
    with False show ?thesis by (rule_tac x = "y # us" in exI, rule_tac x = vs in exI) auto
  qed
qed

end
