(* ===== verification/Base64.thy ===== *)
theory Base64
  imports Prelude
begin

text \<open>
  \<^verbatim>\<open>encoding/base64.StdEncoding\<close>, which \<^verbatim>\<open>encoding/json\<close> uses for the \<^verbatim>\<open>[]byte\<close> field
  of an idempotency record: the encoder, the decoder (which skips carriage returns and line
  feeds and insists on the padding) and their round trip.
\<close>

definition b64_table :: string where
  "b64_table = ''ABCDEFGHIJKLMNOPQRSTUVWXYZabcdefghijklmnopqrstuvwxyz0123456789+/''"

abbreviation b64_pad :: char where "b64_pad \<equiv> CHR 0x3D"

definition b64_char :: "nat \<Rightarrow> char" where
  "b64_char n = b64_table ! n"

definition b64_val :: "char \<Rightarrow> nat option" where
  "b64_val c = map_of (zip b64_table [0..<64]) c"

text \<open>Three bytes are four groups of six bits.\<close>

definition sextets :: "nat \<Rightarrow> nat list" where
  "sextets v = [v div 262144, v div 4096 mod 64, v div 64 mod 64, v mod 64]"

definition quantum :: "nat \<Rightarrow> nat \<Rightarrow> nat \<Rightarrow> nat" where
  "quantum x y z = (x * 256 + y) * 256 + z"

fun b64_encode :: "bytes \<Rightarrow> string" where
  "b64_encode [] = []"
| "b64_encode [x] = map b64_char (take 2 (sextets (quantum (byte_val x) 0 0))) @ [b64_pad, b64_pad]"
| "b64_encode [x, y] =
     map b64_char (take 3 (sextets (quantum (byte_val x) (byte_val y) 0))) @ [b64_pad]"
| "b64_encode (x # y # z # rest) =
     map b64_char (sextets (quantum (byte_val x) (byte_val y) (byte_val z))) @ b64_encode rest"

definition unsextets :: "nat \<Rightarrow> nat \<Rightarrow> nat \<Rightarrow> nat \<Rightarrow> bytes" where
  "unsextets a b c d =
     (let v = ((a * 64 + b) * 64 + c) * 64 + d
      in [char_of (v div 65536), char_of (v div 256 mod 256), char_of (v mod 256)])"

fun b64_quads :: "string \<Rightarrow> bytes option" where
  "b64_quads [] = Some []"
| "b64_quads (a # b # c # d # rest) =
     (case (b64_val a, b64_val b, b64_val c, b64_val d) of
        (Some a', Some b', Some c', Some d') \<Rightarrow>
          map_option (\<lambda>bs. unsextets a' b' c' d' @ bs) (b64_quads rest)
      | (Some a', Some b', Some c', None) \<Rightarrow>
          if d = b64_pad \<and> rest = [] then Some (take 2 (unsextets a' b' c' 0)) else None
      | (Some a', Some b', None, None) \<Rightarrow>
          if c = b64_pad \<and> d = b64_pad \<and> rest = [] then Some (take 1 (unsextets a' b' 0 0)) else None
      | _ \<Rightarrow> None)"
| "b64_quads _ = None"

definition b64_decode :: "string \<Rightarrow> bytes option" where
  "b64_decode s = b64_quads (filter (\<lambda>c. c \<noteq> CHR 0x0A \<and> c \<noteq> CHR 0x0D) s)"

lemma b64_table_facts:
  "length b64_table = 64" "distinct b64_table" "b64_pad \<notin> set b64_table"
  "CHR 0x0A \<notin> set b64_table" "CHR 0x0D \<notin> set b64_table"
  by (simp_all add: b64_table_def)

lemma b64_val_char [simp]: "n < 64 \<Longrightarrow> b64_val (b64_char n) = Some n"
  unfolding b64_val_def b64_char_def
  using map_of_zip_nth [of b64_table "[0..<64]" n] b64_table_facts by simp

lemma b64_val_pad [simp]: "b64_val b64_pad = None"
  using b64_table_facts by (auto simp: b64_val_def map_of_eq_None_iff dest: set_zip_leftD)

lemma b64_char_in_table: "n < 64 \<Longrightarrow> b64_char n \<in> set b64_table"
  unfolding b64_char_def using b64_table_facts by simp

lemma radix_less: "x < m \<Longrightarrow> y < k \<Longrightarrow> x * k + y < m * (k::nat)"
proof -
  assume "x < m" "y < k"
  then have "Suc x * k \<le> m * k" by (intro mult_le_mono1) simp
  with \<open>y < k\<close> show ?thesis by simp
qed

lemma radix_div: "y < k \<Longrightarrow> (x * k + y) div k = (x::nat)"
  by simp

lemma radix_mod: "y < k \<Longrightarrow> (x * k + y) mod k = (y::nat)"
  by simp

lemma quantum_less:
  "x < m \<Longrightarrow> y < 256 \<Longrightarrow> z < 256 \<Longrightarrow> quantum x y z < m * 256 * 256"
  unfolding quantum_def by (intro radix_less)

lemma quantum_bound:
  "x < 256 \<Longrightarrow> y < 256 \<Longrightarrow> z < 256 \<Longrightarrow> quantum x y z < 16777216"
  using quantum_less [of x 256 y z] by simp

lemma div_65536: "(v::nat) div 65536 = v div 256 div 256"
  by (simp flip: div_mult2_eq)

lemma quantum_parts:
  "y < 256 \<Longrightarrow> z < 256 \<Longrightarrow> quantum x y z div 65536 = x"
  "y < 256 \<Longrightarrow> z < 256 \<Longrightarrow> quantum x y z div 256 mod 256 = y"
  "z < 256 \<Longrightarrow> quantum x y z mod 256 = z"
  unfolding quantum_def div_65536 by (simp_all only: radix_div radix_mod)

lemma sextets_sum:
  "((v div 262144 * 64 + v div 4096 mod 64) * 64 + v div 64 mod 64) * 64 + v mod 64 = (v::nat)"
proof -
  have "v div 262144 = v div 64 div 64 div 64" "v div 4096 = v div 64 div 64"
    by (simp_all flip: div_mult2_eq)
  then show ?thesis by simp
qed

lemma quantum_low_zero:
  "quantum x 0 0 div 64 mod 64 = 0" "quantum x 0 0 mod 64 = 0" "quantum x y 0 mod 64 = 0"
proof -
  have "quantum x 0 0 div 64 = 64 * (16 * x)" "quantum x y 0 = 64 * (4 * (x * 256 + y))" for x y
    by (simp_all add: quantum_def)
  then show "quantum x 0 0 div 64 mod 64 = 0" "quantum x 0 0 mod 64 = 0" "quantum x y 0 mod 64 = 0"
    by simp_all
qed

lemma top_sextet: "v < 16777216 \<Longrightarrow> v div 262144 < (64::nat)"
  by (simp add: div_less_iff_less_mult)

lemma sextets_bound: "v < 16777216 \<Longrightarrow> n \<in> set (sextets v) \<Longrightarrow> n < 64"
  unfolding sextets_def using top_sextet [of v] by auto

lemma unsextets_sextets:
  "unsextets (v div 262144) (v div 4096 mod 64) (v div 64 mod 64) (v mod 64) =
   [char_of (v div 65536), char_of (v div 256 mod 256), char_of (v mod 256)]"
  unfolding unsextets_def Let_def sextets_sum ..

lemma b64_quads_encode: "b64_quads (b64_encode bs) = Some bs"
proof (induction bs rule: b64_encode.induct)
  case 1
  show ?case by simp
next
  case (2 x)
  let ?v = "quantum (byte_val x) 0 0"
  have lt: "?v div 262144 < 64" by (intro top_sextet quantum_bound) simp_all
  show ?case
    using lt unsextets_sextets [of ?v] quantum_parts [of 0 0 "byte_val x"]
    by (simp add: sextets_def quantum_low_zero)
next
  case (3 x y)
  let ?v = "quantum (byte_val x) (byte_val y) 0"
  have lt: "?v div 262144 < 64" by (intro top_sextet quantum_bound) simp_all
  show ?case
    using lt unsextets_sextets [of ?v] quantum_parts [of "byte_val y" 0 "byte_val x"]
    by (simp add: sextets_def quantum_low_zero numeral_3_eq_3 numeral_2_eq_2)
next
  case (4 x y z rest)
  let ?v = "quantum (byte_val x) (byte_val y) (byte_val z)"
  have lt: "?v div 262144 < 64" by (intro top_sextet quantum_bound) simp_all
  have "char_of (?v mod 256) = z" by (simp only: quantum_parts(3) byte_val_less char_of_char)
  then have low: "char_of ?v = z" by simp
  show ?case
    using lt "4.IH" unsextets_sextets [of ?v]
      quantum_parts(1,2) [of "byte_val y" "byte_val z" "byte_val x"]
    by (simp add: sextets_def low)
qed

lemma set_b64_encode: "set (b64_encode bs) \<subseteq> insert b64_pad (set b64_table)"
proof (induction bs rule: b64_encode.induct)
  case (2 x)
  have "n < 64" if "n \<in> set (sextets (quantum (byte_val x) 0 0))" for n
    by (rule sextets_bound [OF quantum_bound that]) simp_all
  then show ?case by (auto dest!: in_set_takeD intro: b64_char_in_table)
next
  case (3 x y)
  have "n < 64" if "n \<in> set (sextets (quantum (byte_val x) (byte_val y) 0))" for n
    by (rule sextets_bound [OF quantum_bound that]) simp_all
  then show ?case by (auto dest!: in_set_takeD intro: b64_char_in_table)
next
  case (4 x y z rest)
  have "n < 64" if "n \<in> set (sextets (quantum (byte_val x) (byte_val y) (byte_val z)))" for n
    by (rule sextets_bound [OF quantum_bound that]) simp_all
  with "4.IH" show ?case by (auto intro: b64_char_in_table)
qed simp

lemma b64_decode_encode: "b64_decode (b64_encode bs) = Some bs"
proof -
  have "filter (\<lambda>c. c \<noteq> CHR 0x0A \<and> c \<noteq> CHR 0x0D) (b64_encode bs) = b64_encode bs"
    using set_b64_encode [of bs] b64_table_facts by (intro filter_True) auto
  then show ?thesis by (simp add: b64_decode_def b64_quads_encode)
qed

end
