(* ===== verification/Sha256.thy ===== *)
theory Sha256
  imports Prelude "HOL-Library.Word"
begin

text \<open>
  The digest of Go's \<^verbatim>\<open>crypto/sha256\<close> (FIPS 180-4) on byte strings, and
  \<^verbatim>\<open>encoding/hex\<close>.  Both are executable: the token references of \<^verbatim>\<open>internal/tokenref\<close>
  and the request fingerprints of the idempotency interceptor evaluate on concrete inputs.

  The tables are the fractional parts of the cube roots (\<open>round_keys\<close>) and of the square
  roots (\<open>start_words\<close>) of the first primes, in decimal.
\<close>

unbundle bit_operations_syntax

type_synonym u32 = "32 word"

definition round_keys :: "u32 list" where
  "round_keys =
     [1116352408, 1899447441, 3049323471, 3921009573, 961987163, 1508970993,
      2453635748, 2870763221, 3624381080, 310598401, 607225278, 1426881987,
      1925078388, 2162078206, 2614888103, 3248222580, 3835390401, 4022224774,
      264347078, 604807628, 770255983, 1249150122, 1555081692, 1996064986,
      2554220882, 2821834349, 2952996808, 3210313671, 3336571891, 3584528711,
      113926993, 338241895, 666307205, 773529912, 1294757372, 1396182291,
      1695183700, 1986661051, 2177026350, 2456956037, 2730485921, 2820302411,
      3259730800, 3345764771, 3516065817, 3600352804, 4094571909, 275423344,
      430227734, 506948616, 659060556, 883997877, 958139571, 1322822218,
      1537002063, 1747873779, 1955562222, 2024104815, 2227730452, 2361852424,
      2428436474, 2756734187, 3204031479, 3329325298]"

definition start_words :: "u32 list" where
  "start_words =
     [1779033703, 3144134277, 1013904242, 2773480762, 1359893119, 2600822924, 528734635, 1541459225]"

definition rot :: "nat \<Rightarrow> u32 \<Rightarrow> u32" where
  "rot n x = drop_bit n x OR push_bit (32 - n) x"

text \<open>
  Padding: the bit \<open>1\<close>, zeros up to 56 modulo 64, and the length in bits as a big-endian
  64-bit number.
\<close>

fun be_bytes :: "nat \<Rightarrow> nat \<Rightarrow> bytes" where
  "be_bytes 0 n = []"
| "be_bytes (Suc k) n = be_bytes k (n div 256) @ [char_of (n mod 256)]"

definition padded :: "bytes \<Rightarrow> bytes" where
  "padded m = m @ char_of (128 :: nat) # replicate ((119 - length m mod 64) mod 64) (char_of (0 :: nat))
                @ be_bytes 8 (8 * length m)"

fun be_words :: "bytes \<Rightarrow> u32 list" where
  "be_words (a # b # c # d # rest) =
     of_nat (((byte_val a * 256 + byte_val b) * 256 + byte_val c) * 256 + byte_val d) # be_words rest"
| "be_words _ = []"

text \<open>The message schedule, latest word first.\<close>

fun extend :: "nat \<Rightarrow> u32 list \<Rightarrow> u32 list" where
  "extend 0 ws = ws"
| "extend (Suc n) ws =
     (let x = ws ! 14; y = ws ! 1;
          s0 = rot 7 x XOR rot 18 x XOR drop_bit 3 x;
          s1 = rot 17 y XOR rot 19 y XOR drop_bit 10 y
      in extend n ((s1 + ws ! 6 + s0 + ws ! 15) # ws))"

text \<open>One round on the eight working words, and the compression of one block.\<close>

definition sha_round :: "u32 list \<Rightarrow> u32 \<times> u32 \<Rightarrow> u32 list" where
  "sha_round v kw =
     (case v of
        [a, b, c, d, e, f, g, h] \<Rightarrow>
          let t1 = h + (rot 6 e XOR rot 11 e XOR rot 25 e) + ((e AND f) XOR (NOT e AND g))
                     + fst kw + snd kw;
              t2 = (rot 2 a XOR rot 13 a XOR rot 22 a) + ((a AND b) XOR (a AND c) XOR (b AND c))
          in [t1 + t2, a, b, c, d + t1, e, f, g]
      | _ \<Rightarrow> v)"

definition compress :: "u32 list \<Rightarrow> u32 list \<Rightarrow> u32 list" where
  "compress v block =
     map2 (+) v (foldl sha_round v (zip round_keys (rev (extend 48 (rev block)))))"

fun sha_blocks :: "nat \<Rightarrow> u32 list \<Rightarrow> u32 list \<Rightarrow> u32 list" where
  "sha_blocks 0 v ws = v"
| "sha_blocks (Suc n) v ws = sha_blocks n (compress v (take 16 ws)) (drop 16 ws)"

definition sha256 :: "bytes \<Rightarrow> bytes" where
  "sha256 m =
     (let p = padded m
      in concat (map (\<lambda>w. be_bytes 4 (unat w))
           (sha_blocks (length p div 64) start_words (be_words p))))"


section \<open>Hexadecimal\<close>

definition hextable :: string where
  "hextable = ''0123456789abcdef''"

definition hex_digit :: "nat \<Rightarrow> char" where
  "hex_digit n = hextable ! n"

definition hex_byte :: "char \<Rightarrow> string" where
  "hex_byte c = [hex_digit (byte_val c div 16), hex_digit (byte_val c mod 16)]"

definition hex_encode :: "bytes \<Rightarrow> string" where
  "hex_encode bs = concat (map hex_byte bs)"

definition hex_sha256 :: "bytes \<Rightarrow> string" where
  "hex_sha256 m = hex_encode (sha256 m)"

lemma length_be_bytes [simp]: "length (be_bytes k n) = k"
  by (induction k arbitrary: n) auto

lemma length_sha_round: "length v = 8 \<Longrightarrow> length (sha_round v kw) = 8"
  by (auto simp: sha_round_def Let_def split: list.splits)

lemma length_fold_round: "length v = 8 \<Longrightarrow> length (foldl sha_round v ks) = 8"
  by (induction ks arbitrary: v) (auto simp: length_sha_round)

lemma length_compress: "length v = 8 \<Longrightarrow> length (compress v b) = 8"
  by (simp add: compress_def length_fold_round)

lemma length_sha_blocks: "length v = 8 \<Longrightarrow> length (sha_blocks n v ws) = 8"
  by (induction n arbitrary: v ws) (auto simp: length_compress)

lemma length_sha256: "length (sha256 m) = 32"
proof -
  have "length (concat (map (\<lambda>w. be_bytes 4 (unat w)) ws)) = 4 * length ws" for ws :: "u32 list"
    by (induction ws) auto
  then show ?thesis
    by (simp add: sha256_def Let_def length_sha_blocks start_words_def)
qed

lemma length_hex_encode [simp]: "length (hex_encode bs) = 2 * length bs"
  unfolding hex_encode_def by (induction bs) (auto simp: hex_byte_def)

definition is_hex :: "char \<Rightarrow> bool" where
  "is_hex c \<longleftrightarrow> c \<in> set hextable"

lemma hex_digit_is_hex: "n < 16 \<Longrightarrow> is_hex (hex_digit n)"
  unfolding is_hex_def hex_digit_def by (rule nth_mem) (simp add: hextable_def)

lemma hex_encode_is_hex: "c \<in> set (hex_encode bs) \<Longrightarrow> is_hex c"
proof -
  have "byte_val b div 16 < 16" for b
    using byte_val_less [of b] by linarith
  then show "c \<in> set (hex_encode bs) \<Longrightarrow> is_hex c"
    by (auto simp: hex_encode_def hex_byte_def hex_digit_is_hex)
qed

end
