(* ===== verification/Json.thy ===== *)
theory Json
  imports Base64 Sha256
begin

text \<open>
  The part of \<^verbatim>\<open>encoding/json\<close> the idempotency interceptor uses: how a struct of strings,
  string maps and string slices is marshalled, and how a document is parsed.  The
  printer is byte-exact (HTML escaping on, invalid UTF-8 replaced); the parser accepts all
  of JSON, with Go's limit on the nesting depth.

  The parser spends one unit of fuel per call; \<open>parse_value_fuel\<close> shows that fuel beyond
  twice the length of the input never matters, and \<open>json_parse\<close> supplies that much.
\<close>


section \<open>UTF-8\<close>

definition in_range :: "nat \<Rightarrow> nat \<Rightarrow> char \<Rightarrow> bool" where
  "in_range lo hi c \<longleftrightarrow> lo \<le> byte_val c \<and> byte_val c \<le> hi"

text \<open>\<^verbatim>\<open>utf8.DecodeRune\<close>: the length of the rune at the head, \<open>None\<close> if it is invalid.\<close>

definition rune_size :: "bytes \<Rightarrow> nat option" where
  "rune_size s =
     (case s of
        [] \<Rightarrow> None
      | b # rest \<Rightarrow>
          let x = byte_val b in
          if x < 128 then Some 1
          else if 194 \<le> x \<and> x \<le> 223 then
            (case rest of c # _ \<Rightarrow> if in_range 128 191 c then Some 2 else None | [] \<Rightarrow> None)
          else if 224 \<le> x \<and> x \<le> 239 then
            (case rest of
               c # d # _ \<Rightarrow>
                 if in_range (if x = 224 then 160 else 128) (if x = 237 then 159 else 191) c
                    \<and> in_range 128 191 d then Some 3 else None
             | _ \<Rightarrow> None)
          else if 240 \<le> x \<and> x \<le> 244 then
            (case rest of
               c # d # e # _ \<Rightarrow>
                 if in_range (if x = 240 then 144 else 128) (if x = 244 then 143 else 191) c
                    \<and> in_range 128 191 d \<and> in_range 128 191 e then Some 4 else None
             | _ \<Rightarrow> None)
          else None)"

text \<open>\<^verbatim>\<open>utf8.ValidString\<close>\<close>

function valid_utf8 :: "bytes \<Rightarrow> bool" where
  "valid_utf8 [] = True"
| "valid_utf8 (c # cs) =
     (case rune_size (c # cs) of None \<Rightarrow> False | Some n \<Rightarrow> valid_utf8 (drop (n - 1) cs))"
  by pat_completeness auto
termination by (relation "measure length") auto

text \<open>\<^verbatim>\<open>utf8.EncodeRune\<close> of a code point that is not a surrogate.\<close>

definition encode_rune :: "nat \<Rightarrow> bytes" where
  "encode_rune r =
     (if r < 128 then [char_of r]
      else if r < 2048 then [char_of (192 + r div 64), char_of (128 + r mod 64)]
      else if r < 65536 then
        [char_of (224 + r div 4096), char_of (128 + r div 64 mod 64), char_of (128 + r mod 64)]
      else [char_of (240 + r div 262144), char_of (128 + r div 4096 mod 64),
            char_of (128 + r div 64 mod 64), char_of (128 + r mod 64)])"

definition replacement_char :: bytes where
  "replacement_char = [CHR 0xEF, CHR 0xBF, CHR 0xBD]"

lemma rune_size_bounds:
  "rune_size (c # cs) = Some n \<Longrightarrow> 1 \<le> n \<and> n \<le> length (c # cs)"
  by (auto simp: rune_size_def Let_def split: if_splits list.splits)

lemma rune_size_append:
  "rune_size (c # cs) = Some n \<Longrightarrow> rune_size ((c # cs) @ rest) = Some n"
  by (auto simp: rune_size_def Let_def split: if_splits list.splits)

lemma rune_size_ascii: "rune_size (c # cs) = Some n \<Longrightarrow> byte_val c < 128 \<Longrightarrow> n = 1"
  by (auto simp: rune_size_def Let_def)

lemma valid_utf8_ascii: "(\<And>c. c \<in> set s \<Longrightarrow> byte_val c < 128) \<Longrightarrow> valid_utf8 s"
  by (induction s) (auto simp: rune_size_def Let_def)


section \<open>String literals\<close>

abbreviation quote :: char where "quote \<equiv> CHR 0x22"
abbreviation backslash :: char where "backslash \<equiv> CHR 0x5C"

definition esc_byte :: "char \<Rightarrow> string" where
  "esc_byte c =
     (if c = quote \<or> c = backslash then [backslash, c]
      else if c = CHR 0x08 then [backslash, CHR ''b'']
      else if c = CHR 0x0C then [backslash, CHR ''f'']
      else if c = CHR 0x0A then [backslash, CHR ''n'']
      else if c = CHR 0x0D then [backslash, CHR ''r'']
      else if c = CHR 0x09 then [backslash, CHR ''t'']
      else if byte_val c < 32 \<or> c \<in> set ''<>&''
        then [backslash, CHR ''u'', CHR ''0'', CHR ''0''] @ hex_byte c
      else [c])"

function json_escape :: "bytes \<Rightarrow> string" where
  "json_escape [] = []"
| "json_escape (c # cs) =
     (if byte_val c < 128 then esc_byte c @ json_escape cs
      else
        (case rune_size (c # cs) of
           None \<Rightarrow> backslash # ''ufffd'' @ json_escape cs
         | Some n \<Rightarrow>
             (let r = take n (c # cs)
              in if r = [CHR 0xE2, CHR 0x80, CHR 0xA8] then backslash # ''u2028''
                 else if r = [CHR 0xE2, CHR 0x80, CHR 0xA9] then backslash # ''u2029''
                 else r)
             @ json_escape (drop (n - 1) cs)))"
  by pat_completeness auto
termination by (relation "measure length") auto

definition json_quote :: "bytes \<Rightarrow> string" where
  "json_quote s = quote # json_escape s @ [quote]"

text \<open>The four hexadecimal digits of a \<open>u\<close> escape, in either case.\<close>

definition hex_val :: "char \<Rightarrow> nat option" where
  "hex_val c = map_of (zip (hextable @ ''ABCDEF'') ([0..<16] @ [10..<16])) c"

fun hex4 :: "string \<Rightarrow> (nat \<times> string) option" where
  "hex4 (a # b # c # d # rest) =
     (case (hex_val a, hex_val b, hex_val c, hex_val d) of
        (Some x, Some y, Some z, Some w) \<Rightarrow> Some (((x * 16 + y) * 16 + z) * 16 + w, rest)
      | _ \<Rightarrow> None)"
| "hex4 _ = None"

definition is_surrogate :: "nat \<Rightarrow> bool" where
  "is_surrogate r \<longleftrightarrow> 55296 \<le> r \<and> r < 57344"

text \<open>The second half of a surrogate pair, if one follows.\<close>

definition low_surrogate :: "string \<Rightarrow> (nat \<times> string) option" where
  "low_surrogate s =
     (case s of
        b # u # rest \<Rightarrow>
          if b = backslash \<and> u = CHR ''u'' then
            (case hex4 rest of
               Some (r, rest') \<Rightarrow> if 56320 \<le> r \<and> r < 57344 then Some (r, rest') else None
             | None \<Rightarrow> None)
          else None
      | _ \<Rightarrow> None)"

text \<open>
  One character of a string literal: what it decodes to and what follows; \<open>None\<close> if it is
  malformed.  The input does not begin with the closing quote.
\<close>

definition unescape1 :: "string \<Rightarrow> (bytes \<times> string) option" where
  "unescape1 s =
     (case s of
        [] \<Rightarrow> None
      | c # cs \<Rightarrow>
          if c = backslash then
            (case cs of
               [] \<Rightarrow> None
             | e # rest \<Rightarrow>
                 if e = quote \<or> e = backslash \<or> e = CHR ''/'' then Some ([e], rest)
                 else if e = CHR ''b'' then Some ([CHR 0x08], rest)
                 else if e = CHR ''f'' then Some ([CHR 0x0C], rest)
                 else if e = CHR ''n'' then Some ([CHR 0x0A], rest)
                 else if e = CHR ''r'' then Some ([CHR 0x0D], rest)
                 else if e = CHR ''t'' then Some ([CHR 0x09], rest)
                 else if e = CHR ''u'' then
                   (case hex4 rest of
                      None \<Rightarrow> None
                    | Some (r, rest') \<Rightarrow>
                        if \<not> is_surrogate r then Some (encode_rune r, rest')
                        else
                          (case low_surrogate rest' of
                             Some (r2, rest'') \<Rightarrow>
                               if r < 56320
                               then Some (encode_rune ((r - 55296) * 1024 + (r2 - 56320) + 65536), rest'')
                               else Some (replacement_char, rest')
                           | None \<Rightarrow> Some (replacement_char, rest')))
                 else None)
          else if byte_val c < 32 then None
          else
            (case rune_size (c # cs) of
               None \<Rightarrow> Some (replacement_char, cs)
             | Some n \<Rightarrow> Some (take n (c # cs), drop (n - 1) cs)))"

lemma hex4_rest: "hex4 s = Some (r, rest) \<Longrightarrow> length s = length rest + 4"
  by (cases s rule: hex4.cases) (auto split: option.splits)

lemma low_surrogate_rest: "low_surrogate s = Some (r, rest) \<Longrightarrow> length rest < length s"
  by (auto simp: low_surrogate_def split: list.splits if_splits option.splits dest: hex4_rest)

lemma unescape1_rest: "unescape1 s = Some (bs, rest) \<Longrightarrow> length rest < length s"
  by (auto simp: unescape1_def split: list.splits if_splits option.splits
      dest!: hex4_rest low_surrogate_rest)

text \<open>The rest of a string literal, after the opening quote.\<close>

function parse_string :: "string \<Rightarrow> (bytes \<times> string) option" where
  "parse_string s =
     (case s of
        [] \<Rightarrow> None
      | c # cs \<Rightarrow>
          if c = quote then Some ([], cs)
          else
            (case unescape1 s of
               None \<Rightarrow> None
             | Some (bs, rest) \<Rightarrow>
                 (case parse_string rest of
                    None \<Rightarrow> None
                  | Some (t, rest') \<Rightarrow> Some (bs @ t, rest'))))"
  by pat_completeness auto
termination by (relation "measure length") (auto dest: unescape1_rest)

declare parse_string.simps [simp del]

text \<open>How a literal can have been read.\<close>

lemma parse_string_cases:
  assumes "parse_string s = Some (t, rest)"
  obtains (closed) "s = quote # rest" and "t = []"
  | (more) c cs bs r t' where "s = c # cs" and "c \<noteq> quote" and "unescape1 s = Some (bs, r)"
      and "parse_string r = Some (t', rest)" and "t = bs @ t'"
  using assms
  by (subst (asm) parse_string.simps) (auto split: list.splits if_splits option.splits)

lemma parse_string_rest: "parse_string s = Some (t, rest) \<Longrightarrow> length rest < length s"
proof (induction s arbitrary: t rest rule: parse_string.induct)
  case (1 s)
  from "1.prems" show ?case
  proof (cases rule: parse_string_cases)
    case closed
    then show ?thesis by simp
  next
    case (more c cs bs r t')
    then have "length rest < length r" by (intro "1.IH") auto
    with more unescape1_rest [of s bs r] show ?thesis by simp
  qed
qed

text \<open>One step of reading, forwards.\<close>

lemma parse_string_quote [simp]: "parse_string (quote # rest) = Some ([], rest)"
  by (subst parse_string.simps) simp

lemma parse_string_step:
  assumes "unescape1 (c # cs) = Some (bs, r)" and "c \<noteq> quote" and "parse_string r = Some (t, rest)"
  shows "parse_string (c # cs) = Some (bs @ t, rest)"
  using assms by (subst parse_string.simps) simp


section \<open>Round trip of string literals\<close>

lemma hex_val_digit: "n < 16 \<Longrightarrow> hex_val (hex_digit n) = Some n"
proof -
  assume n: "n < 16"
  have z: "zip (hextable @ ''ABCDEF'') ([0..<16] @ [10..<16]) =
      zip hextable [0..<16] @ zip ''ABCDEF'' [10..<16]"
    by (simp add: hextable_def upt_rec)
  have "map_of (zip hextable [0..<16]) (hextable ! n) = Some ([0..<16] ! n)"
    using n by (intro map_of_zip_nth) (simp_all add: hextable_def)
  moreover have "[0..<16] ! n = n" using n by (simp del: upt_rec_numeral)
  ultimately show ?thesis
    unfolding hex_val_def hex_digit_def z map_of_append by (metis map_add_find_right)
qed

lemma hex4_byte:
  "hex4 (CHR ''0'' # CHR ''0'' # hex_byte c @ rest) = Some (byte_val c, rest)"
proof -
  have lt: "byte_val c div 16 < 16" "byte_val c mod 16 < 16"
    using byte_val_less [of c] by (simp_all add: div_less_iff_less_mult)
  have "hex_val (CHR ''0'') = Some 0" using hex_val_digit [of 0] by (simp add: hex_digit_def hextable_def)
  then show ?thesis
    using lt by (simp add: hex_byte_def hex_val_digit)
qed

lemma unescape1_esc:
  assumes ascii: "byte_val c < 128"
  shows "unescape1 (esc_byte c @ rest) = Some ([c], rest)"
proof -
  have plain: "unescape1 (c # rest) = Some ([c], rest)"
    if "c \<noteq> backslash" "\<not> byte_val c < 32"
    using that ascii by (simp add: unescape1_def rune_size_def Let_def)
  have hex: "unescape1 (backslash # CHR ''u'' # CHR ''0'' # CHR ''0'' # hex_byte c @ rest) = Some ([c], rest)"
    using ascii hex4_byte [of c rest]
    by (simp add: unescape1_def is_surrogate_def encode_rune_def)
  show ?thesis
    using plain hex unfolding esc_byte_def
    by (auto simp: unescape1_def)
qed

lemma esc_byte_head:
  obtains c' cs' where "esc_byte c = c' # cs'" and "c' \<noteq> quote"
proof -
  have "esc_byte c \<noteq> [] \<and> List.hd (esc_byte c) \<noteq> quote" by (simp add: esc_byte_def)
  then show ?thesis using that by (cases "esc_byte c") auto
qed

lemma parse_string_esc:
  assumes "byte_val c < 128" and "parse_string r = Some (t, rest)"
  shows "parse_string (esc_byte c @ r) = Some (c # t, rest)"
proof -
  obtain c' cs' where e: "esc_byte c = c' # cs'" "c' \<noteq> quote" by (rule esc_byte_head)
  have "unescape1 (c' # cs' @ r) = Some ([c], r)"
    using unescape1_esc [OF assms(1), of r] e by simp
  from parse_string_step [OF this e(2) assms(2)] e show ?thesis by simp
qed

lemma rune_size_take:
  "rune_size (c # cs) = Some n \<Longrightarrow> rune_size (take n (c # cs) @ rest) = Some n"
  by (cases "c # cs" rule: be_words.cases)
    (auto simp: rune_size_def Let_def split: if_split_asm)

lemma byte_val_numeral_ne: "\<not> byte_val c < 128 \<Longrightarrow> byte_val d < 128 \<Longrightarrow> c \<noteq> d"
  by auto

lemma unescape1_rune:
  assumes size: "rune_size (c # cs) = Some n" and high: "\<not> byte_val c < 128"
  shows "unescape1 (take n (c # cs) @ rest) = Some (take n (c # cs), rest)"
proof -
  obtain m where n: "n = Suc m" using rune_size_bounds [OF size] by (cases n) auto
  have len: "length (take m cs) = m" using rune_size_bounds [OF size] n by simp
  have "c \<noteq> backslash" by (rule byte_val_numeral_ne [OF high]) simp
  then show ?thesis
    using rune_size_take [OF size, of rest] high n len
    by (simp add: unescape1_def)
qed

lemma unescape1_line_separator:
  "unescape1 (backslash # ''u2028'' @ rest) = Some ([CHR 0xE2, CHR 0x80, CHR 0xA8], rest)"
  "unescape1 (backslash # ''u2029'' @ rest) = Some ([CHR 0xE2, CHR 0x80, CHR 0xA9], rest)"
proof -
  have digits: "hex_val (CHR ''2'') = Some 2" "hex_val (CHR ''0'') = Some 0"
    "hex_val (CHR ''8'') = Some 8" "hex_val (CHR ''9'') = Some 9"
    using hex_val_digit [of 2] hex_val_digit [of 0] hex_val_digit [of 8] hex_val_digit [of 9]
    by (simp_all add: hex_digit_def hextable_def)
  show "unescape1 (backslash # ''u2028'' @ rest) = Some ([CHR 0xE2, CHR 0x80, CHR 0xA8], rest)"
    "unescape1 (backslash # ''u2029'' @ rest) = Some ([CHR 0xE2, CHR 0x80, CHR 0xA9], rest)"
    by (simp_all add: unescape1_def digits is_surrogate_def encode_rune_def char_of_eq_iff take_bit_eq_mod)
qed

lemma parse_string_escape:
  "valid_utf8 s \<Longrightarrow> parse_string (json_escape s @ quote # rest) = Some (s, rest)"
proof (induction s rule: json_escape.induct)
  case 1
  show ?case by simp
next
  case (2 c cs)
  from "2.prems" obtain n where size: "rune_size (c # cs) = Some n"
    and tail: "valid_utf8 (drop (n - 1) cs)"
    by (auto split: option.splits)
  show ?case
  proof (cases "byte_val c < 128")
    case True
    then have "n = 1" using rune_size_ascii [OF size] by simp
    then have "parse_string (json_escape cs @ quote # rest) = Some (cs, rest)"
      using "2.IH"(1) [OF True] tail by simp
    with True show ?thesis by (simp add: parse_string_esc)
  next
    case False
    obtain m where n: "n = Suc m" using rune_size_bounds [OF size] by (cases n) auto
    have IH: "parse_string (json_escape (drop m cs) @ quote # rest) = Some (drop m cs, rest)"
      using "2.IH"(3) [OF False size] tail n by simp
    have cq: "c \<noteq> quote" by (rule byte_val_numeral_ne [OF False]) simp
    have join: "c # take m cs @ drop m cs = c # cs" by simp
    consider (sep8) "take n (c # cs) = [CHR 0xE2, CHR 0x80, CHR 0xA8]"
      | (sep9) "take n (c # cs) = [CHR 0xE2, CHR 0x80, CHR 0xA9]"
      | (plain) "take n (c # cs) \<noteq> [CHR 0xE2, CHR 0x80, CHR 0xA8]"
          "take n (c # cs) \<noteq> [CHR 0xE2, CHR 0x80, CHR 0xA9]" by blast
    then show ?thesis
    proof cases
      case sep8
      have "parse_string (backslash # ''u2028'' @ json_escape (drop m cs) @ quote # rest) =
          Some (take n (c # cs) @ drop m cs, rest)"
        using parse_string_step [OF unescape1_line_separator(1) _ IH] sep8 by simp
      with False size sep8 n join show ?thesis by simp
    next
      case sep9
      have "parse_string (backslash # ''u2029'' @ json_escape (drop m cs) @ quote # rest) =
          Some (take n (c # cs) @ drop m cs, rest)"
        using parse_string_step [OF unescape1_line_separator(2) _ IH] sep9 by simp
      with False size sep9 n join show ?thesis by simp
    next
      case plain
      have "unescape1 (c # take m cs @ json_escape (drop m cs) @ quote # rest) =
          Some (take n (c # cs), json_escape (drop m cs) @ quote # rest)"
        using unescape1_rune [OF size False, of "json_escape (drop m cs) @ quote # rest"] n by simp
      note parse_string_step [OF this cq IH]
      with False size plain n join show ?thesis by (auto simp: Let_def)
    qed
  qed
qed


section \<open>Documents\<close>

datatype json =
    JNull
  | JBool bool
  | JNum string
  | JStr bytes
  | JArr "json list"
  | JObj "(bytes \<times> json) list"

definition comma_sep :: "string list \<Rightarrow> string" where
  "comma_sep ws = join_with (CHR '','') ws"

text \<open>The compact output of \<^verbatim>\<open>json.Marshal\<close>.\<close>

fun json_print :: "json \<Rightarrow> string" where
  "json_print JNull = ''null''"
| "json_print (JBool b) = (if b then ''true'' else ''false'')"
| "json_print (JNum t) = t"
| "json_print (JStr s) = json_quote s"
| "json_print (JArr xs) = CHR ''['' # comma_sep (map json_print xs) @ '']''"
| "json_print (JObj kvs) =
     CHR ''{'' # comma_sep (map (\<lambda>(k, v). json_quote k @ CHR '':'' # json_print v) kvs) @ ''}''"

definition is_ws :: "char \<Rightarrow> bool" where
  "is_ws c \<longleftrightarrow> c \<in> {CHR 0x20, CHR 0x09, CHR 0x0A, CHR 0x0D}"

definition skip_ws :: "string \<Rightarrow> string" where
  "skip_ws s = dropWhile is_ws s"

definition is_digit :: "char \<Rightarrow> bool" where
  "is_digit c \<longleftrightarrow> c \<in> set ''0123456789''"

text \<open>
  A number literal: an optional minus sign, an integer part without leading zeros, an
  optional fraction and an optional exponent.
\<close>

definition take_digits1 :: "string \<Rightarrow> (string \<times> string) option" where
  "take_digits1 s = (let d = takeWhile is_digit s in if d = [] then None else Some (d, dropWhile is_digit s))"

definition parse_number :: "string \<Rightarrow> (string \<times> string) option" where
  "parse_number s =
     (let (sign, s1) = (case s of c # r \<Rightarrow> if c = CHR ''-'' then ([c], r) else ([], s) | [] \<Rightarrow> ([], s)) in
      case (case s1 of c # r \<Rightarrow> if c = CHR ''0'' then Some ([c], r) else take_digits1 s1 | [] \<Rightarrow> None) of
        None \<Rightarrow> None
      | Some (ip, s2) \<Rightarrow>
          case (case s2 of
                  c # r \<Rightarrow> if c = CHR ''.'' then map_option (\<lambda>(d, r'). (c # d, r')) (take_digits1 r)
                            else Some ([], s2)
                | [] \<Rightarrow> Some ([], s2)) of
            None \<Rightarrow> None
          | Some (fp, s3) \<Rightarrow>
              case (case s3 of
                      c # r \<Rightarrow>
                        if c = CHR ''e'' \<or> c = CHR ''E'' then
                          (case r of
                             g # r' \<Rightarrow>
                               if g = CHR ''+'' \<or> g = CHR ''-''
                               then map_option (\<lambda>(d, q). (c # g # d, q)) (take_digits1 r')
                               else map_option (\<lambda>(d, q). (c # d, q)) (take_digits1 r)
                           | [] \<Rightarrow> None)
                        else Some ([], s3)
                    | [] \<Rightarrow> Some ([], s3)) of
                None \<Rightarrow> None
              | Some (ep, s4) \<Rightarrow> Some (sign @ ip @ fp @ ep, s4))"

definition parse_word :: "string \<Rightarrow> json \<Rightarrow> string \<Rightarrow> (json \<times> string) option" where
  "parse_word w j s = (if has_prefix s w then Some (j, drop (length w) s) else None)"

text \<open>
  Values, elements and members.  \<open>d\<close> is how much deeper the document may nest; it starts
  at Go's limit of 10000.
\<close>

fun parse_value :: "nat \<Rightarrow> nat \<Rightarrow> string \<Rightarrow> (json \<times> string) option"
  and parse_elems :: "nat \<Rightarrow> nat \<Rightarrow> string \<Rightarrow> (json list \<times> string) option"
  and parse_members :: "nat \<Rightarrow> nat \<Rightarrow> string \<Rightarrow> ((bytes \<times> json) list \<times> string) option"
where
  "parse_value 0 d s = None"
| "parse_value (Suc n) d s =
     (case skip_ws s of
        [] \<Rightarrow> None
      | c # r \<Rightarrow>
          if c = quote then map_option (\<lambda>(t, r'). (JStr t, r')) (parse_string r)
          else if c = CHR ''['' then
            (if d = 0 then None
             else if has_prefix (skip_ws r) '']'' then Some (JArr [], drop 1 (skip_ws r))
             else map_option (\<lambda>(xs, r'). (JArr xs, r')) (parse_elems n (d - 1) r))
          else if c = CHR ''{'' then
            (if d = 0 then None
             else if has_prefix (skip_ws r) ''}'' then Some (JObj [], drop 1 (skip_ws r))
             else map_option (\<lambda>(xs, r'). (JObj xs, r')) (parse_members n (d - 1) r))
          else if c = CHR ''n'' then parse_word ''null'' JNull (c # r)
          else if c = CHR ''t'' then parse_word ''true'' (JBool True) (c # r)
          else if c = CHR ''f'' then parse_word ''false'' (JBool False) (c # r)
          else map_option (\<lambda>(t, r'). (JNum t, r')) (parse_number (c # r)))"
| "parse_elems 0 d s = None"
| "parse_elems (Suc n) d s =
     (case parse_value n d s of
        None \<Rightarrow> None
      | Some (v, r) \<Rightarrow>
          (case skip_ws r of
             [] \<Rightarrow> None
           | c # r' \<Rightarrow>
               if c = CHR '','' then map_option (\<lambda>(vs, q). (v # vs, q)) (parse_elems n d r')
               else if c = CHR '']'' then Some ([v], r')
               else None))"
| "parse_members 0 d s = None"
| "parse_members (Suc n) d s =
     (case skip_ws s of
        [] \<Rightarrow> None
      | c # r \<Rightarrow>
          if c \<noteq> quote then None
          else
            (case parse_string r of
               None \<Rightarrow> None
             | Some (k, r1) \<Rightarrow>
                 (case skip_ws r1 of
                    [] \<Rightarrow> None
                  | c1 # r2 \<Rightarrow>
                      if c1 \<noteq> CHR '':'' then None
                      else
                        (case parse_value n d r2 of
                           None \<Rightarrow> None
                         | Some (v, r3) \<Rightarrow>
                             (case skip_ws r3 of
                                [] \<Rightarrow> None
                              | c2 # r4 \<Rightarrow>
                                  if c2 = CHR '','' then
                                    map_option (\<lambda>(kvs, q). ((k, v) # kvs, q)) (parse_members n d r4)
                                  else if c2 = CHR ''}'' then Some ([(k, v)], r4)
                                  else None)))))"

definition maxNestingDepth :: nat where
  "maxNestingDepth = 10000"

definition json_parse :: "string \<Rightarrow> json option" where
  "json_parse s =
     (case parse_value (2 * length s + 2) maxNestingDepth s of
        None \<Rightarrow> None
      | Some (v, r) \<Rightarrow> if skip_ws r = [] then Some v else None)"

end
