(* ===== verification/Json_Roundtrip.thy ===== *)
theory Json_Roundtrip
  imports Json
begin

text \<open>
  The two facts about the JSON parser the idempotency component rests on: the fuel
  \<open>json_parse\<close> supplies is enough (more never changes a result), and printing a document
  of valid strings and parsing it back gives the document, so that the printer is injective
  on such documents.
\<close>


section \<open>Every step shortens the input\<close>

lemma length_skip_ws: "length (skip_ws s) \<le> length s"
  unfolding skip_ws_def by (rule length_dropWhile_le)

lemma take_digits1_rest: "take_digits1 s = Some (d, r) \<Longrightarrow> length r < length s"
proof -
  assume "take_digits1 s = Some (d, r)"
  then have "takeWhile is_digit s \<noteq> []" "r = dropWhile is_digit s"
    by (auto simp: take_digits1_def Let_def split: if_splits)
  moreover have "length s = length (takeWhile is_digit s) + length (dropWhile is_digit s)"
    by (metis length_append takeWhile_dropWhile_id)
  ultimately show ?thesis by (cases "takeWhile is_digit s") auto
qed

lemma parse_number_rest: "parse_number s = Some (t, r) \<Longrightarrow> length r < length s"
  by (auto simp: parse_number_def Let_def split: list.splits if_splits option.splits prod.splits
      dest!: take_digits1_rest)

lemma parse_word_rest: "parse_word w j s = Some (v, r) \<Longrightarrow> w \<noteq> [] \<Longrightarrow> length r < length s"
  by (auto simp: parse_word_def has_prefix_iff split: if_splits)

text \<open>A step that leaves a rest shortens the input.\<close>

definition shortens :: "string \<Rightarrow> ('v \<times> string) option \<Rightarrow> bool" where
  "shortens s res \<longleftrightarrow> (\<forall>v r. res = Some (v, r) \<longrightarrow> length r < length s)"

lemma shortens_None [simp]: "shortens s None"
  by (simp add: shortens_def)

lemma shortens_Some [simp]: "shortens s (Some (v, r)) \<longleftrightarrow> length r < length s"
  by (simp add: shortens_def)

lemma shortens_map [simp]: "shortens s (map_option (\<lambda>(v, r). (f v, r)) res) = shortens s res"
  by (cases res) auto

lemma shortens_le: "shortens s res \<Longrightarrow> length s \<le> length t \<Longrightarrow> shortens t res"
  by (auto simp: shortens_def)

lemma shortensI: "(\<And>v r. res = Some (v, r) \<Longrightarrow> length r < length s) \<Longrightarrow> shortens s res"
  by (simp add: shortens_def)

lemma shortensD: "shortens s (Some (v, r)) \<Longrightarrow> length (skip_ws r) < length s"
  using length_skip_ws [of r] by simp

lemma parse_shortens:
  "shortens s (parse_value n d s)"
  "shortens s (parse_elems n d s)"
  "shortens s (parse_members n d s)"
proof (induction n d s and n d s and n d s rule: parse_value_parse_elems_parse_members.induct)
  case (2 n d s)
  show ?case
  proof (cases "skip_ws s")
    case Nil
    then show ?thesis by simp
  next
    case (Cons c r)
    have len: "length r < length s" "length (c # r) \<le> length s"
      using Cons length_skip_ws [of s] by simp_all
    have str: "shortens s (parse_string r)"
      using len by (auto intro!: shortensI dest!: parse_string_rest)
    have num: "shortens s (parse_number (c # r))"
      using len by (auto intro!: shortensI dest!: parse_number_rest)
    have wrd: "shortens s (parse_word w j (c # r))" if "w \<noteq> []" for w j
      using len that by (auto intro!: shortensI dest!: parse_word_rest)
    have cls: "length (drop 1 (skip_ws r)) < length s" using len length_skip_ws [of r] by simp
    have rec: "shortens s (parse_elems n (d - 1) r)" if "c = CHR ''[''" "d \<noteq> 0" "\<not> has_prefix (skip_ws r) '']''"
      using "2.IH"(1) [OF Cons _ that] that len by (auto intro: shortens_le)
    have rec2: "shortens s (parse_members n (d - 1) r)" if "c = CHR ''{''" "d \<noteq> 0" "\<not> has_prefix (skip_ws r) ''}''"
      using "2.IH"(2) [OF Cons _ _ that] that len by (auto intro: shortens_le)
    show ?thesis
      using Cons str num wrd cls rec rec2 by auto
  qed
next
  case (4 n d s)
  show ?case
  proof (cases "parse_value n d s")
    case None
    then show ?thesis by simp
  next
    case (Some vr)
    then obtain v r where vr: "parse_value n d s = Some (v, r)" by (cases vr) auto
    with "4.IH"(1) have len: "length (skip_ws r) < length s" using shortensD by metis
    show ?thesis
    proof (cases "skip_ws r")
      case Nil
      with vr show ?thesis by simp
    next
      case (Cons c r')
      have "shortens s (parse_elems n d r')" if "c = CHR '','' "
      proof (rule shortens_le)
        show "shortens r' (parse_elems n d r')" using "4.IH"(2) vr Cons that by simp
      qed (use len Cons in simp)
      with vr Cons len show ?thesis by simp
    qed
  qed
next
  case (6 n d s)
  show ?case
  proof (rule shortensI)
    fix kvs rest assume "parse_members (Suc n) d s = Some (kvs, rest)"
    then obtain r k r1 r2 v r3 c2 r4 where
      s: "skip_ws s = quote # r" and k: "parse_string r = Some (k, r1)"
      and r1: "skip_ws r1 = CHR '':'' # r2" and v: "parse_value n d r2 = Some (v, r3)"
      and r3: "skip_ws r3 = c2 # r4"
      and last: "c2 = CHR '','' \<and> (\<exists>kvs'. parse_members n d r4 = Some (kvs', rest)) \<or> rest = r4"
      by (auto split: list.splits if_splits option.splits)
    have "shortens r2 (parse_value n d r2)"
      using "6.IH"(1) s k r1 by simp
    then have "length (skip_ws r3) < length r2" using v shortensD by metis
    moreover have "length r2 < length r1" "length r1 < length r" "length r < length s"
      using length_skip_ws [of r1] r1 parse_string_rest [OF k] length_skip_ws [of s] s by simp_all
    ultimately have len: "length r4 < length s" using r3 by simp
    show "length rest < length s"
      using last
    proof
      assume "c2 = CHR '','' \<and> (\<exists>kvs'. parse_members n d r4 = Some (kvs', rest))"
      then have "shortens r4 (parse_members n d r4)" and "\<exists>kvs'. parse_members n d r4 = Some (kvs', rest)"
        using "6.IH"(2) s k r1 v r3 by simp_all
      with len show ?thesis by auto
    qed (use len in simp)
  qed
qed auto


section \<open>Enough fuel\<close>

lemma parse_fuel_Suc:
  "2 * length s < n \<Longrightarrow> parse_value (Suc n) d s = parse_value n d s"
  "2 * length s + 1 < n \<Longrightarrow> parse_elems (Suc n) d s = parse_elems n d s"
  "2 * length s + 1 < n \<Longrightarrow> parse_members (Suc n) d s = parse_members n d s"
proof (induction n d s and n d s and n d s rule: parse_value_parse_elems_parse_members.induct)
  case (2 n d s)
  note unfold = parse_value.simps(2) [of "Suc n" d s] parse_value.simps(2) [of n d s]
  show ?case
  proof (cases "skip_ws s")
    case Nil
    then show ?thesis by simp
  next
    case (Cons c r)
    have len: "2 * length r + 1 < n" using Cons length_skip_ws [of s] "2.prems" by simp
    have e: "parse_elems (Suc n) (d - 1) r = parse_elems n (d - 1) r"
      if "c = CHR ''[''" "d \<noteq> 0" "\<not> has_prefix (skip_ws r) '']''"
      using "2.IH"(1) [OF Cons _ that len] that by simp
    have m: "parse_members (Suc n) (d - 1) r = parse_members n (d - 1) r"
      if "c = CHR ''{''" "d \<noteq> 0" "\<not> has_prefix (skip_ws r) ''}''"
      using "2.IH"(2) [OF Cons _ _ that len] that by simp
    show ?thesis unfolding unfold using Cons e m
      by (auto simp del: parse_value.simps parse_elems.simps parse_members.simps)
  qed
next
  case (4 n d s)
  note unfold = parse_elems.simps(2) [of "Suc n" d s] parse_elems.simps(2) [of n d s]
  have v: "parse_value (Suc n) d s = parse_value n d s" using "4.IH"(1) "4.prems" by simp
  have e: "parse_elems (Suc n) d r' = parse_elems n d r'"
    if "parse_value n d s = Some (x, r)" "skip_ws r = CHR '','' # r'" for x r r'
  proof -
    have "length (skip_ws r) < length s" using parse_shortens(1) [of s n d] that shortensD by metis
    with that "4.prems" have "2 * length r' + 1 < n" by simp
    then show ?thesis using "4.IH"(2) that by simp
  qed
  show ?case unfolding unfold v using e
    by (auto split: option.split list.split simp del: parse_value.simps parse_elems.simps parse_members.simps)
next
  case (6 n d s)
  note unfold = parse_members.simps(2) [of "Suc n" d s] parse_members.simps(2) [of n d s]
  have lens: "length r2 < length s" if "skip_ws s = quote # r" "parse_string r = Some (k, r1)"
      "skip_ws r1 = CHR '':'' # r2" for r k r1 r2
    using length_skip_ws [of s] length_skip_ws [of r1] parse_string_rest [OF that(2)] that by simp
  have v: "parse_value (Suc n) d r2 = parse_value n d r2"
    if "skip_ws s = quote # r" "parse_string r = Some (k, r1)" "skip_ws r1 = CHR '':'' # r2" for r k r1 r2
    using "6.IH"(1) [OF that(1) _ that(2) refl that(3)] lens [OF that] "6.prems" by simp
  have e: "parse_members (Suc n) d r4 = parse_members n d r4"
    if "skip_ws s = quote # r" "parse_string r = Some (k, r1)" "skip_ws r1 = CHR '':'' # r2"
      "parse_value n d r2 = Some (x, r3)" "skip_ws r3 = CHR '','' # r4" for r k r1 r2 x r3 r4
  proof -
    have "length (skip_ws r3) < length r2" using parse_shortens(1) [of r2 n d] that shortensD by metis
    with that lens [OF that(1-3)] "6.prems" have "2 * length r4 + 1 < n" by simp
    then show ?thesis using "6.IH"(2) that by simp
  qed
  show ?case unfolding unfold using v e
    by (auto split: option.split list.split simp del: parse_value.simps parse_elems.simps parse_members.simps)
qed auto

lemma parse_fuel:
  "2 * length s < n \<Longrightarrow> parse_value (n + k) d s = parse_value n d s"
  "2 * length s + 1 < n \<Longrightarrow> parse_elems (n + k) d s = parse_elems n d s"
  "2 * length s + 1 < n \<Longrightarrow> parse_members (n + k) d s = parse_members n d s"
  by (induction k) (simp_all add: parse_fuel_Suc del: parse_value.simps parse_elems.simps parse_members.simps)

text \<open>Any two amounts of fuel that are enough give the same result.\<close>

lemma parse_value_fuel:
  assumes "2 * length s < n" and "2 * length s < m"
  shows "parse_value n d s = parse_value m d s"
proof (cases "n \<le> m")
  case True
  then show ?thesis using parse_fuel(1) [OF assms(1), of "m - n" d] by simp
next
  case False
  then show ?thesis using parse_fuel(1) [OF assms(2), of "n - m" d] by simp
qed


section \<open>Round trip\<close>

text \<open>Documents without numbers, with valid strings, nested at most \<open>d\<close> deep.\<close>

fun printable :: "nat \<Rightarrow> json \<Rightarrow> bool" where
  "printable d JNull \<longleftrightarrow> True"
| "printable d (JBool b) \<longleftrightarrow> True"
| "printable d (JNum t) \<longleftrightarrow> False"
| "printable d (JStr s) \<longleftrightarrow> valid_utf8 s"
| "printable d (JArr xs) \<longleftrightarrow> 0 < d \<and> list_all (printable (d - 1)) xs"
| "printable d (JObj kvs) \<longleftrightarrow>
     0 < d \<and> list_all (\<lambda>(k, v). valid_utf8 k \<and> printable (d - 1) v) kvs"

lemma skip_ws_start: "\<not> is_ws c \<Longrightarrow> skip_ws (c # s) = c # s"
  by (simp add: skip_ws_def)

lemma not_ws_punct [simp]:
  "\<not> is_ws quote" "\<not> is_ws (CHR ''['')" "\<not> is_ws (CHR '']'')" "\<not> is_ws (CHR ''{'')"
  "\<not> is_ws (CHR ''}'')" "\<not> is_ws (CHR '':'')" "\<not> is_ws (CHR '','')" "\<not> is_ws (CHR ''n'')"
  "\<not> is_ws (CHR ''t'')" "\<not> is_ws (CHR ''f'')"
  by (simp_all add: is_ws_def)

lemma json_print_head:
  assumes "printable d j"
  obtains c cs where "json_print j = c # cs" and "\<not> is_ws c" and "c \<noteq> CHR '']''"
proof -
  have "json_print j \<noteq> [] \<and> \<not> is_ws (List.hd (json_print j)) \<and> List.hd (json_print j) \<noteq> CHR '']''"
    using assms by (cases j) (simp_all add: json_quote_def)
  then show ?thesis using that by (cases "json_print j") auto
qed

lemma parse_quoted: "valid_utf8 k \<Longrightarrow> parse_string (json_escape k @ quote # rest) = Some (k, rest)"
  by (rule parse_string_escape)

lemmas parse_steps = parse_value.simps(2) parse_elems.simps(2) parse_members.simps(2)

declare parse_steps [simp del]

lemma has_prefix_single [simp]: "has_prefix (c # s) [d] \<longleftrightarrow> c = d"
  by (auto simp: has_prefix_def)

definition reads :: "nat \<Rightarrow> json \<Rightarrow> bool" where
  "reads d j \<longleftrightarrow>
     (\<forall>n rest. 2 * length (json_print j) < n \<longrightarrow>
        parse_value n d (json_print j @ rest) = Some (j, rest))"

lemma readsI:
  "(\<And>n rest. parse_value (Suc n) d (json_print j @ rest) = Some (j, rest)) \<Longrightarrow> reads d j"
  unfolding reads_def by (metis less_imp_Suc_add)

lemma parse_elems_print:
  assumes "xs \<noteq> []" and "\<And>x. x \<in> set xs \<Longrightarrow> reads d x"
    and "2 * length (comma_sep (map json_print xs)) + 2 < n"
  shows "parse_elems n d (comma_sep (map json_print xs) @ CHR '']'' # rest) = Some (xs, rest)"
  using assms
proof (induction xs arbitrary: n rule: induct_list012)
  case 1
  then show ?case by simp
next
  case (2 x)
  then obtain n' where n: "n = Suc n'" "2 * length (json_print x) < n'"
    by (cases n) (auto simp: comma_sep_def)
  from 2 have "reads d x" by simp
  with n(2) have "parse_value n' d (json_print x @ CHR '']'' # rest) = Some (x, CHR '']'' # rest)"
    by (simp add: reads_def)
  with n(1) show ?case by (simp add: comma_sep_def skip_ws_start parse_steps)
next
  case (3 x y zs)
  let ?tail = "comma_sep (map json_print (y # zs))"
  have cs: "comma_sep (map json_print (x # y # zs)) = json_print x @ CHR '','' # ?tail"
    by (simp add: comma_sep_def)
  from "3.prems"(3) obtain n' where n: "n = Suc n'" "2 * length (json_print x) < n'"
    "2 * length ?tail + 2 < n'" unfolding cs by (cases n) auto
  from "3.prems" have "reads d x" by simp
  with n(2) have v: "parse_value n' d (json_print x @ CHR '','' # ?tail @ CHR '']'' # rest) =
      Some (x, CHR '','' # ?tail @ CHR '']'' # rest)"
    by (simp add: reads_def)
  have t: "parse_elems n' d (?tail @ CHR '']'' # rest) = Some (y # zs, rest)"
    using "3.prems" n(3) by (intro "3.IH"(2)) auto
  show ?case unfolding n(1) cs using v t
    by (simp add: skip_ws_start parse_steps del: list.map)
qed

definition print_member :: "bytes \<times> json \<Rightarrow> string" where
  "print_member kv = json_quote (fst kv) @ CHR '':'' # json_print (snd kv)"

lemma json_print_obj:
  "json_print (JObj kvs) = CHR ''{'' # comma_sep (map print_member kvs) @ ''}''"
proof -
  have members: "map (\<lambda>(k, v). json_quote k @ CHR '':'' # json_print v) kvs = map print_member kvs"
    by (simp add: print_member_def case_prod_beta')
  show ?thesis unfolding json_print.simps members ..
qed

lemma parse_members_head:
  assumes "valid_utf8 k" and "reads d v" and "2 * length (json_print v) < n"
    and "z = CHR '','' \<or> z = CHR ''}''"
  shows "parse_members (Suc n) d (print_member (k, v) @ z # rest) =
     (if z = CHR '','' then map_option (\<lambda>(kvs, q). ((k, v) # kvs, q)) (parse_members n d rest)
      else Some ([(k, v)], rest))"
proof -
  have "parse_value n d (json_print v @ z # rest) = Some (v, z # rest)"
    using assms by (simp add: reads_def)
  moreover have "\<not> is_ws z" using assms(4) by auto
  ultimately show ?thesis
    using assms(1,4)
    by (auto simp: print_member_def json_quote_def skip_ws_start parse_quoted parse_steps)
qed

lemma parse_members_print:
  assumes "kvs \<noteq> []" and "\<And>k v. (k, v) \<in> set kvs \<Longrightarrow> valid_utf8 k \<and> reads d v"
    and "2 * length (comma_sep (map print_member kvs)) + 2 < n"
  shows "parse_members n d (comma_sep (map print_member kvs) @ CHR ''}'' # rest) = Some (kvs, rest)"
  using assms
proof (induction kvs arbitrary: n rule: induct_list012)
  case 1
  then show ?case by simp
next
  case (2 kv)
  obtain k v where kv: "kv = (k, v)" by (cases kv)
  from "2.prems" kv obtain n' where n: "n = Suc n'" "2 * length (json_print v) < n'"
    by (cases n) (auto simp: comma_sep_def print_member_def)
  with "2.prems" kv show ?case
    using parse_members_head [of k d v n' "CHR ''}''" rest] by (simp add: comma_sep_def)
next
  case (3 kv kv' zs)
  obtain k v where kv: "kv = (k, v)" by (cases kv)
  let ?tail = "comma_sep (map print_member (kv' # zs))"
  have cs: "comma_sep (map print_member (kv # kv' # zs)) = print_member kv @ CHR '','' # ?tail"
    by (simp add: comma_sep_def)
  from "3.prems"(3) kv obtain n' where n: "n = Suc n'" "2 * length (json_print v) < n'"
    "2 * length ?tail + 2 < n'" unfolding cs by (cases n) (auto simp: print_member_def)
  have t: "parse_members n' d (?tail @ CHR ''}'' # rest) = Some (kv' # zs, rest)"
    using "3.prems" n(3) by (intro "3.IH"(2)) auto
  have "valid_utf8 k \<and> reads d v" using "3.prems"(2) [of k v] kv by simp
  then show ?case unfolding n(1) cs
    using parse_members_head [of k d v n' "CHR '',''" "?tail @ CHR ''}'' # rest"] n(2) kv t
    by (simp del: list.map)
qed

lemma printable_reads: "printable d j \<Longrightarrow> reads d j"
proof (induction d j rule: printable.induct)
  case (5 d xs)
  show ?case unfolding reads_def
  proof (intro allI impI)
    fix n rest assume "2 * length (json_print (JArr xs)) < n"
    then obtain n' where n: "n = Suc n'" "2 * length (comma_sep (map json_print xs)) + 2 < n'"
      by (cases n) auto
    from "5.prems" have d: "d \<noteq> 0" and all: "\<And>x. x \<in> set xs \<Longrightarrow> printable (d - 1) x"
      by (auto simp: list_all_iff)
    show "parse_value n d (json_print (JArr xs) @ rest) = Some (JArr xs, rest)"
    proof (cases xs)
      case Nil
      with n(1) d show ?thesis by (simp add: comma_sep_def skip_ws_start parse_steps)
    next
      case (Cons x ys)
      obtain c cs where c: "json_print x = c # cs" "\<not> is_ws c" "c \<noteq> CHR '']''"
        using all [of x] Cons by (auto elim: json_print_head)
      have "comma_sep (map json_print xs) @ CHR '']'' # rest = c # List.tl (comma_sep (map json_print xs) @ CHR '']'' # rest)"
        using Cons c by (cases ys) (simp_all add: comma_sep_def)
      then have "skip_ws (comma_sep (map json_print xs) @ CHR '']'' # rest) = comma_sep (map json_print xs) @ CHR '']'' # rest"
        "\<not> has_prefix (comma_sep (map json_print xs) @ CHR '']'' # rest) '']''"
        using c by (metis skip_ws_start, auto simp: has_prefix_iff)
      moreover have "parse_elems n' (d - 1) (comma_sep (map json_print xs) @ CHR '']'' # rest) = Some (xs, rest)"
        using Cons "5.IH" all n(2) by (intro parse_elems_print) auto
      ultimately show ?thesis
        using d unfolding n(1) by (simp add: skip_ws_start parse_steps)
    qed
  qed
next
  case (6 d kvs)
  show ?case unfolding reads_def
  proof (intro allI impI)
    fix n rest assume "2 * length (json_print (JObj kvs)) < n"
    then obtain n' where n: "n = Suc n'" "2 * length (comma_sep (map print_member kvs)) + 2 < n'"
      unfolding json_print_obj by (cases n) auto
    from "6.prems" have d: "d \<noteq> 0"
      and all: "\<And>k v. (k, v) \<in> set kvs \<Longrightarrow> valid_utf8 k \<and> printable (d - 1) v"
      by (auto simp: list_all_iff)
    show "parse_value n d (json_print (JObj kvs) @ rest) = Some (JObj kvs, rest)"
    proof (cases kvs)
      case Nil
      with n(1) d show ?thesis by (simp add: comma_sep_def skip_ws_start parse_steps)
    next
      case (Cons kv ys)
      have "comma_sep (map print_member kvs) @ CHR ''}'' # rest = quote # List.tl (comma_sep (map print_member kvs) @ CHR ''}'' # rest)"
        using Cons by (cases ys) (simp_all add: comma_sep_def print_member_def json_quote_def)
      then have "skip_ws (comma_sep (map print_member kvs) @ CHR ''}'' # rest) = comma_sep (map print_member kvs) @ CHR ''}'' # rest"
        "\<not> has_prefix (comma_sep (map print_member kvs) @ CHR ''}'' # rest) ''}''"
        by (metis skip_ws_start not_ws_punct(1), auto simp: has_prefix_iff)
      moreover have "parse_members n' (d - 1) (comma_sep (map print_member kvs) @ CHR ''}'' # rest) = Some (kvs, rest)"
        using Cons "6.IH" all n(2) by (intro parse_members_print) auto
      ultimately show ?thesis
        using d unfolding n(1) json_print_obj by (simp add: skip_ws_start parse_steps)
    qed
  qed
qed (auto intro!: readsI simp: skip_ws_start parse_steps json_quote_def parse_quoted parse_word_def
     has_prefix_def)

lemma json_parse_print:
  assumes "printable maxNestingDepth j"
  shows "json_parse (json_print j) = Some j"
proof -
  have "parse_value (2 * length (json_print j) + 2) maxNestingDepth (json_print j @ []) = Some (j, [])"
    by (rule printable_reads [OF assms, unfolded reads_def, rule_format]) simp
  then show ?thesis by (simp add: json_parse_def skip_ws_def)
qed

lemma json_print_inj:
  assumes "printable maxNestingDepth i" and "printable maxNestingDepth j"
    and "json_print i = json_print j"
  shows "i = j"
proof -
  have "Some i = Some j"
    unfolding json_parse_print [OF assms(1), symmetric] json_parse_print [OF assms(2), symmetric]
      assms(3) ..
  then show ?thesis by simp
qed

end
