(* ===== verification/Grpc_Errors.thy ===== *)
theory Grpc_Errors
  imports Prelude
begin

text \<open>
  Errors.  A Go \<^verbatim>\<open>error\<close> of this service is either a gRPC status error, built by
  \<^verbatim>\<open>status.Error\<close> or \<^verbatim>\<open>status.Errorf\<close>, or an ordinary error.  Of an ordinary error
  the code reads its message and, through \<^verbatim>\<open>errors.Is\<close>, which sentinel values its
  chain of wrapped errors holds; the model keeps exactly these two.  The sentinels of
  jwtauth and go-redis are names only: nothing is assumed of the code that returns them.

  \<^verbatim>\<open>MapLibraryError\<close> of \<^verbatim>\<open>internal/observability/errors.go\<close> turns an error of jwtauth
  into a status error.
\<close>


section \<open>Status codes\<close>

datatype code =
    OK | Canceled | Unknown | InvalidArgument | DeadlineExceeded | NotFound | AlreadyExists
  | PermissionDenied | ResourceExhausted | FailedPrecondition | Aborted | OutOfRange
  | Unimplemented | Internal | Unavailable | DataLoss | Unauthenticated

text \<open>\<^verbatim>\<open>codes.Code.String\<close>\<close>

fun code_string :: "code \<Rightarrow> string" where
  "code_string OK = ''OK''"
| "code_string Canceled = ''Canceled''"
| "code_string Unknown = ''Unknown''"
| "code_string InvalidArgument = ''InvalidArgument''"
| "code_string DeadlineExceeded = ''DeadlineExceeded''"
| "code_string NotFound = ''NotFound''"
| "code_string AlreadyExists = ''AlreadyExists''"
| "code_string PermissionDenied = ''PermissionDenied''"
| "code_string ResourceExhausted = ''ResourceExhausted''"
| "code_string FailedPrecondition = ''FailedPrecondition''"
| "code_string Aborted = ''Aborted''"
| "code_string OutOfRange = ''OutOfRange''"
| "code_string Unimplemented = ''Unimplemented''"
| "code_string Internal = ''Internal''"
| "code_string Unavailable = ''Unavailable''"
| "code_string DataLoss = ''DataLoss''"
| "code_string Unauthenticated = ''Unauthenticated''"


section \<open>Errors\<close>

text \<open>The sentinel values the code compares errors with, or wraps.\<close>

datatype sentinel =
    TokensErrTokenRevoked | StorageErrTokenNotFound | TokensErrInvalidAudience
  | KeysErrKeyStoreInvalidKeyID | TokensErrTokenMissingKid | TokensErrTokenExpired
  | TokensErrRefreshTokenExpired | TokensErrInvalidUserID | StorageErrInvalidUserID
  | StorageErrInvalidAudience | TokensErrManagerNotRunning | KeysErrManagerNotRunning
  | TokensErrInvalidRefreshToken
  | RedisNil | ContextCanceled
  | ErrIssuerEmpty | ErrAudienceEmpty | ErrInvalidTLSMode | ErrStaticCallerKeysFormat
  | ErrStaticCallerKeysEmpty | ErrTLSCertFileEmpty | ErrTLSKeyFileEmpty | ErrTLSCAFileEmpty
  | ErrCallerRegistryPathEmpty
  | ErrNoCredentials | ErrInvalidCA

datatype go_error =
    StatusErr code string
  | PlainErr "sentinel list" string

text \<open>\<^verbatim>\<open>err.Error()\<close>\<close>

fun error_string :: "go_error \<Rightarrow> string" where
  "error_string (StatusErr c m) = ''rpc error: code = '' @ code_string c @ '' desc = '' @ m"
| "error_string (PlainErr ss m) = m"

text \<open>\<^verbatim>\<open>errors.Is\<close> against a sentinel\<close>

fun errors_is :: "go_error \<Rightarrow> sentinel \<Rightarrow> bool" where
  "errors_is (PlainErr ss m) x \<longleftrightarrow> x \<in> set ss"
| "errors_is (StatusErr c m) x \<longleftrightarrow> False"

text \<open>\<^verbatim>\<open>fmt.Errorf("...: %w", err)\<close>: a new message around the same chain.\<close>

fun wrap_error :: "string \<Rightarrow> go_error \<Rightarrow> go_error" where
  "wrap_error p (PlainErr ss m) = PlainErr ss (p @ '': '' @ m)"
| "wrap_error p (StatusErr c m) = PlainErr [] (p @ '': '' @ error_string (StatusErr c m))"

text \<open>\<^verbatim>\<open>status.Code\<close> of an error value, \<open>None\<close> being \<^verbatim>\<open>nil\<close>\<close>

fun status_code :: "go_error option \<Rightarrow> code" where
  "status_code None = OK"
| "status_code (Some (StatusErr c m)) = c"
| "status_code (Some (PlainErr ss m)) = Unknown"


section \<open>MapLibraryError\<close>

definition MapLibraryError :: "go_error option \<Rightarrow> go_error option" where
  "MapLibraryError err =
     (case err of
        None \<Rightarrow> None
      | Some e \<Rightarrow> Some (
          if errors_is e TokensErrTokenRevoked then StatusErr PermissionDenied (error_string e)
          else if errors_is e StorageErrTokenNotFound then StatusErr NotFound (error_string e)
          else if errors_is e TokensErrInvalidAudience then StatusErr PermissionDenied (error_string e)
          else if errors_is e KeysErrKeyStoreInvalidKeyID then StatusErr Internal (error_string e)
          else if errors_is e TokensErrTokenMissingKid then StatusErr Internal (error_string e)
          else if errors_is e TokensErrTokenExpired then StatusErr Unauthenticated (error_string e)
          else if errors_is e TokensErrRefreshTokenExpired
            then StatusErr Unauthenticated (error_string e)
          else if errors_is e TokensErrInvalidUserID \<or> errors_is e StorageErrInvalidUserID \<or>
                  errors_is e StorageErrInvalidAudience
            then StatusErr InvalidArgument (error_string e)
          else if errors_is e TokensErrManagerNotRunning \<or> errors_is e KeysErrManagerNotRunning
            then StatusErr Unavailable (error_string e)
          else if errors_is e TokensErrInvalidRefreshToken then StatusErr Internal (error_string e)
          else StatusErr Internal (error_string e)))"

text \<open>The same function on a non-nil error, as the handlers use it.\<close>

definition map_lib :: "go_error \<Rightarrow> go_error" where
  "map_lib e = the (MapLibraryError (Some e))"

lemma MapLibraryError_None [simp]: "MapLibraryError None = None"
  by (simp add: MapLibraryError_def)

lemma MapLibraryError_Some [simp]: "MapLibraryError (Some e) = Some (map_lib e)"
  by (simp add: map_lib_def MapLibraryError_def)

text \<open>
  The table the documentation gives: the code of each sentinel.  It is the specification
  \<^verbatim>\<open>MapLibraryError\<close> is compared with.
\<close>

fun sentinel_code :: "sentinel \<Rightarrow> code" where
  "sentinel_code TokensErrTokenRevoked = PermissionDenied"
| "sentinel_code StorageErrTokenNotFound = NotFound"
| "sentinel_code TokensErrInvalidAudience = PermissionDenied"
| "sentinel_code TokensErrTokenExpired = Unauthenticated"
| "sentinel_code TokensErrRefreshTokenExpired = Unauthenticated"
| "sentinel_code TokensErrInvalidUserID = InvalidArgument"
| "sentinel_code StorageErrInvalidUserID = InvalidArgument"
| "sentinel_code StorageErrInvalidAudience = InvalidArgument"
| "sentinel_code TokensErrManagerNotRunning = Unavailable"
| "sentinel_code KeysErrManagerNotRunning = Unavailable"
| "sentinel_code _ = Internal"

text \<open>What the mapped error looks like, whatever the error.\<close>

lemma map_lib_cases:
  "\<exists>c. map_lib e = StatusErr c (error_string e) \<and>
       c \<in> {PermissionDenied, NotFound, Internal, Unauthenticated, InvalidArgument, Unavailable}"
  by (simp add: map_lib_def MapLibraryError_def)

lemma map_lib_unrecognised:
  assumes "\<And>x. errors_is e x \<Longrightarrow> sentinel_code x = Internal"
  shows "map_lib e = StatusErr Internal (error_string e)"
proof -
  have no: "\<not> errors_is e x" if "sentinel_code x \<noteq> Internal" for x
    using assms that by blast
  show ?thesis
    by (simp add: map_lib_def MapLibraryError_def no)
qed

lemma map_lib_single:
  "map_lib (PlainErr [x] m) = StatusErr (sentinel_code x) m"
  by (cases x) (simp_all add: map_lib_def MapLibraryError_def)

lemma status_code_map_lib_not_OK: "status_code (Some (map_lib e)) \<noteq> OK"
  using map_lib_cases [of e] by auto

text \<open>Wrapping keeps the chain, so it keeps the code.\<close>

lemma errors_is_wrap [simp]: "errors_is (wrap_error p e) x = errors_is e x"
  by (cases e) auto

lemma status_code_map_lib_wrap:
  "status_code (Some (map_lib (wrap_error p e))) = status_code (Some (map_lib e))"
  by (simp add: map_lib_def MapLibraryError_def)

text \<open>Case rules for the operations that branch on the two kinds of error.\<close>

fun_cases errors_is_PlainE: "errors_is (PlainErr ss m) x"
fun_cases status_code_OKE: "status_code e = OK"



section \<open>Properties\<close>

text \<open>
  MapLibraryError is total and follows its table.  No error maps to none; every other error
  maps to a status error that keeps the message and has one of six codes; an error with one
  sentinel has the code the table gives it, and wrapping an error with more context never
  changes its code.
\<close>
theorem map_library_error:
  "MapLibraryError None = None \<and>
   (\<exists>c. MapLibraryError (Some e) = Some (StatusErr c (error_string e)) \<and>
      c \<in> {PermissionDenied, NotFound, Internal, Unauthenticated, InvalidArgument, Unavailable}) \<and>
   MapLibraryError (Some (PlainErr [x] m)) = Some (StatusErr (sentinel_code x) m) \<and>
   status_code (MapLibraryError (Some (wrap_error p e))) = status_code (MapLibraryError (Some e))"
  using map_lib_cases [of e] map_lib_single [of x m] status_code_map_lib_wrap [of p e] by auto

end
