(* ===== verification/World.thy ===== *)
theory World
  imports Grpc_Errors
begin

text \<open>
  The request context and the world a handler runs in.

  A \<open>ctx\<close> holds the values the service stores in, or reads from, a
  \<^verbatim>\<open>context.Context\<close> (\<^verbatim>\<open>internal/observability/correlation.go\<close>): the correlation ID, the
  caller identity, the incoming gRPC metadata, the peer, and the time at which the context
  is cancelled, if it ever is.

  The \<open>world\<close> is the state that is threaded through every operation: the clock in
  nanoseconds, and the trace of the calls made on the service's Logger, Tracer and Metrics.
  It is extensible: what lies behind the third-party interfaces (the Redis server, the
  jwtauth managers, the audit sink) is the polymorphic rest of the record, of which nothing
  is known but the laws a theorem states.
\<close>


section \<open>Request contexts\<close>

text \<open>The \<^verbatim>\<open>AuthInfo\<close> of a peer: TLS with the Common Names of its certificates, or not TLS.\<close>

datatype auth_info = TLSInfo "string list" | OtherAuth

record ctx =
  correlation_id :: "string option"
  caller_identity :: "string option"
  incoming_md :: "string list str_map option"
  ctx_peer :: "auth_info option"
  cancel_at :: "int option"

definition background :: ctx where
  "background = \<lparr>correlation_id = None, caller_identity = None, incoming_md = None,
                 ctx_peer = None, cancel_at = None\<rparr>"

text \<open>Metadata keys\<close>

definition MetadataKeyCorrelationID :: string where
  "MetadataKeyCorrelationID = ''x-correlation-id''"

definition MetadataKeyAPIKey :: string where
  "MetadataKeyAPIKey = ''x-api-key''"

definition MetadataKeyIdempotencyKey :: string where
  "MetadataKeyIdempotencyKey = ''x-idempotency-key''"

text \<open>\<^verbatim>\<open>md.Get(key)\<close>: the values under a (lower-case) key, none if the key is absent.\<close>

definition md_get :: "string list str_map \<Rightarrow> string \<Rightarrow> string list" where
  "md_get md k = (case map_of md k of None \<Rightarrow> [] | Some vs \<Rightarrow> vs)"

text \<open>
  Context accessors.  Reading a key that is not set gives the empty string, since the
  failed type assertion leaves the zero value.
\<close>

definition CorrelationIDFromContext :: "ctx \<Rightarrow> string" where
  "CorrelationIDFromContext c = (case correlation_id c of None \<Rightarrow> '''' | Some v \<Rightarrow> v)"

definition WithCorrelationID :: "ctx \<Rightarrow> string \<Rightarrow> ctx" where
  "WithCorrelationID c v = c\<lparr>correlation_id := Some v\<rparr>"

definition CallerIdentityFromContext :: "ctx \<Rightarrow> string" where
  "CallerIdentityFromContext c = (case caller_identity c of None \<Rightarrow> '''' | Some v \<Rightarrow> v)"

definition WithCallerIdentity :: "ctx \<Rightarrow> string \<Rightarrow> ctx" where
  "WithCallerIdentity c v = c\<lparr>caller_identity := Some v\<rparr>"

lemma context_get_set [simp]:
  "CorrelationIDFromContext (WithCorrelationID c v) = v"
  "CallerIdentityFromContext (WithCallerIdentity c v) = v"
  "CorrelationIDFromContext (WithCallerIdentity c v) = CorrelationIDFromContext c"
  "CallerIdentityFromContext (WithCorrelationID c v) = CallerIdentityFromContext c"
  "incoming_md (WithCorrelationID c v) = incoming_md c"
  "incoming_md (WithCallerIdentity c v) = incoming_md c"
  "ctx_peer (WithCorrelationID c v) = ctx_peer c"
  "ctx_peer (WithCallerIdentity c v) = ctx_peer c"
  by (simp_all add: CorrelationIDFromContext_def WithCorrelationID_def
      CallerIdentityFromContext_def WithCallerIdentity_def)


section \<open>Observable events\<close>

text \<open>A value of type \<^verbatim>\<open>interface{}\<close>, as far as the service looks into it.\<close>

datatype any = AStr string | AInt int | AErr go_error | ACtx ctx | AOther nat

datatype log_level = Debug | Info | Warn | Error

datatype span_code = StatusOK | StatusError

text \<open>
  One constructor per call on the Logger, Span, Metrics and response-header interfaces.
\<close>

datatype event =
    ELog log_level ctx string "any list"
  | ESpanStart string
  | ESpanAttr string string
  | ESpanError go_error
  | ESpanStatus span_code string
  | ESpanEnd
  | ECounter string "string str_map"
  | EGauge string int "string str_map"
  | EDuration string int "string str_map"
  | EHeader string string


section \<open>The world\<close>

record world =
  clock :: int
  trace :: "event list"

definition emit :: "event \<Rightarrow> 'a world_scheme \<Rightarrow> 'a world_scheme" where
  "emit e s = s\<lparr>trace := trace s @ [e]\<rparr>"

lemma emit_frame [simp]:
  "clock (emit e s) = clock s"
  "world.more (emit e s) = world.more s"
  "trace (emit e s) = trace s @ [e]"
  by (simp_all add: emit_def)

text \<open>
  What a run of the service adds to the trace.  Operations only ever append.
\<close>

definition new_events :: "'a world_scheme \<Rightarrow> 'a world_scheme \<Rightarrow> event list" where
  "new_events s t = drop (length (trace s)) (trace t)"

lemma new_events_append [simp]:
  "trace t = trace s @ es \<Longrightarrow> new_events s t = es"
  by (simp add: new_events_def)

abbreviation log_debug :: "ctx \<Rightarrow> string \<Rightarrow> any list \<Rightarrow> 'a world_scheme \<Rightarrow> 'a world_scheme" where
  "log_debug c m kvs \<equiv> emit (ELog Debug c m kvs)"

abbreviation log_info :: "ctx \<Rightarrow> string \<Rightarrow> any list \<Rightarrow> 'a world_scheme \<Rightarrow> 'a world_scheme" where
  "log_info c m kvs \<equiv> emit (ELog Info c m kvs)"

abbreviation log_warn :: "ctx \<Rightarrow> string \<Rightarrow> any list \<Rightarrow> 'a world_scheme \<Rightarrow> 'a world_scheme" where
  "log_warn c m kvs \<equiv> emit (ELog Warn c m kvs)"

abbreviation log_error :: "ctx \<Rightarrow> string \<Rightarrow> any list \<Rightarrow> 'a world_scheme \<Rightarrow> 'a world_scheme" where
  "log_error c m kvs \<equiv> emit (ELog Error c m kvs)"

text \<open>
  A span of the service's Tracer: started, given a status, ended.  \<open>fail_span\<close> is the
  pair of calls every error branch of a handler makes.
\<close>

abbreviation span_start :: "string \<Rightarrow> 'a world_scheme \<Rightarrow> 'a world_scheme" where
  "span_start n \<equiv> emit (ESpanStart n)"

abbreviation span_end :: "'a world_scheme \<Rightarrow> 'a world_scheme" where
  "span_end \<equiv> emit ESpanEnd"

abbreviation span_ok :: "'a world_scheme \<Rightarrow> 'a world_scheme" where
  "span_ok \<equiv> emit (ESpanStatus StatusOK '''')"

definition fail_span :: "go_error \<Rightarrow> 'a world_scheme \<Rightarrow> 'a world_scheme" where
  "fail_span e s = emit (ESpanStatus StatusError (error_string e)) (emit (ESpanError e) s)"

lemma fail_span_frame [simp]:
  "clock (fail_span e s) = clock s"
  "world.more (fail_span e s) = world.more s"
  "trace (fail_span e s) = trace s @ [ESpanError e, ESpanStatus StatusError (error_string e)]"
  by (simp_all add: fail_span_def)

text \<open>Steps that only emit events: the clock and everything behind the interfaces stay.\<close>

definition only_logged :: "'a world_scheme \<Rightarrow> 'a world_scheme \<Rightarrow> bool" where
  "only_logged s s1 \<longleftrightarrow>
     clock s1 = clock s \<and> world.more s1 = world.more s \<and> (\<exists>es. trace s1 = trace s @ es)"

lemma only_logged_refl [simp]: "only_logged s s"
  by (simp add: only_logged_def)

lemma only_logged_emit [simp]: "only_logged s (emit e s)"
  by (simp add: only_logged_def)

lemma only_logged_trans: "only_logged s t \<Longrightarrow> only_logged t u \<Longrightarrow> only_logged s u"
  by (fastforce simp: only_logged_def)

lemma only_logged_emit_right [simp, intro]: "only_logged s t \<Longrightarrow> only_logged s (emit e t)"
  by (rule only_logged_trans [OF _ only_logged_emit])

lemma only_logged_fail_span [simp]: "only_logged s (fail_span e s)"
  by (simp add: only_logged_def)

lemma only_logged_fail_right [simp, intro]: "only_logged s t \<Longrightarrow> only_logged s (fail_span e t)"
  by (rule only_logged_trans [OF _ only_logged_fail_span])

text \<open>\<^verbatim>\<open>ctx.Err()\<close> at the present time\<close>

definition ctx_err :: "ctx \<Rightarrow> 'a world_scheme \<Rightarrow> go_error option" where
  "ctx_err c s =
     (case cancel_at c of
        None \<Rightarrow> None
      | Some t \<Rightarrow> if t \<le> clock s then Some (PlainErr [ContextCanceled] ''context canceled'') else None)"


section \<open>Durations\<close>

text \<open>Nanoseconds\<close>

definition nsSecond :: int where "nsSecond = 1000000000"
definition nsMinute :: int where "nsMinute = 60 * nsSecond"
definition nsHour :: int where "nsHour = 60 * nsMinute"

text \<open>
  The range of a \<^verbatim>\<open>time.Duration\<close>; \<^verbatim>\<open>time.Since\<close> and \<^verbatim>\<open>time.Until\<close> saturate at its
  ends.
\<close>

definition maxDuration :: int where "maxDuration = 2 ^ 63 - 1"
definition minDuration :: int where "minDuration = - (2 ^ 63)"

definition saturate :: "int \<Rightarrow> int" where
  "saturate d = max minDuration (min maxDuration d)"

lemma saturate_id: "minDuration \<le> d \<Longrightarrow> d \<le> maxDuration \<Longrightarrow> saturate d = d"
  by (simp add: saturate_def)

lemma saturate_sign: "saturate d \<le> 0 \<longleftrightarrow> d \<le> 0"
  by (auto simp: saturate_def minDuration_def maxDuration_def)

definition time_until :: "int \<Rightarrow> 'a world_scheme \<Rightarrow> int" where
  "time_until t s = saturate (t - clock s)"

definition time_since :: "int \<Rightarrow> 'a world_scheme \<Rightarrow> int" where
  "time_since t s = saturate (clock s - t)"

end
