(* ===== verification/Messages.thy ===== *)
theory Messages
  imports World
begin

text \<open>
  The RPC messages (\<^verbatim>\<open>proto/token_engine.proto\<close>, generated into \<^verbatim>\<open>gen/v1\<close>) as records,
  the requests and responses that travel through the interceptor chain as values of a
  tagged union, and the type of a handler.

  A map field that the wire did not carry is \<^verbatim>\<open>nil\<close>: \<open>None\<close>.
\<close>

type_synonym claims = "string str_map option"

abbreviation ranged :: "'v str_map option \<Rightarrow> 'v str_map" where
  \<comment> \<open>what a range over a possibly nil map visits\<close>
  "ranged m \<equiv> (case m of None \<Rightarrow> [] | Some xs \<Rightarrow> xs)"

record issue_token_request =
  i_sub :: string
  i_tenant_id :: string
  i_idempotency_key :: string
  i_claims :: claims
  i_audiences :: "string list"

record refresh_token_request =
  f_refresh_token :: string
  f_tenant_id :: string
  f_idempotency_key :: string
  f_claims :: claims

record revoke_token_request =
  t_refresh_token :: string
  t_tenant_id :: string

record revoke_audience_request =
  a_audience :: string
  a_tenant_id :: string

record revoke_user_request =
  u_user_id :: string
  u_tenant_id :: string

record revoke_user_and_audience_request =
  ua_user_id :: string
  ua_audience :: string
  ua_tenant_id :: string

record token_pair =
  access_token :: string
  refresh_token :: string
  access_token_expires_in :: int
  refresh_token_expires_in :: int

text \<open>
  A request as the chain sees it, of dynamic type \<^verbatim>\<open>interface{}\<close>.  \<open>OtherReq\<close> is any
  message without a \<^verbatim>\<open>tenant_id\<close>, such as a health check.
\<close>

datatype request =
    IssueReq issue_token_request
  | RefreshReq refresh_token_request
  | RevokeReq revoke_token_request
  | RevokeAudienceReq revoke_audience_request
  | RevokeUserReq revoke_user_request
  | RevokeUserAudienceReq revoke_user_and_audience_request
  | OtherReq

datatype response = PairResp token_pair | RevokeResp | OtherResp

text \<open>
  The assertion \<^verbatim>\<open>req.(TenantAwareRequest)\<close> and its \<^verbatim>\<open>GetTenantId\<close>.
\<close>

fun GetTenantId :: "request \<Rightarrow> string option" where
  "GetTenantId (IssueReq r) = Some (i_tenant_id r)"
| "GetTenantId (RefreshReq r) = Some (f_tenant_id r)"
| "GetTenantId (RevokeReq r) = Some (t_tenant_id r)"
| "GetTenantId (RevokeAudienceReq r) = Some (a_tenant_id r)"
| "GetTenantId (RevokeUserReq r) = Some (u_tenant_id r)"
| "GetTenantId (RevokeUserAudienceReq r) = Some (ua_tenant_id r)"
| "GetTenantId OtherReq = None"

text \<open>Outgoing metadata: the pairs a client's call carries, in order.\<close>

type_synonym outgoing = "(string \<times> string) list"

text \<open>\<^verbatim>\<open>grpc.UnaryHandler\<close>, over a state \<open>'s\<close>, and \<^verbatim>\<open>grpc.UnaryServerInterceptor\<close>\<close>

type_synonym 's handler = "ctx \<Rightarrow> request \<Rightarrow> 's \<Rightarrow> (go_error + response) \<times> 's"

type_synonym 's interceptor = "string \<Rightarrow> 's handler \<Rightarrow> 's handler"

text \<open>
  \<^verbatim>\<open>grpc.ChainUnaryInterceptor\<close>: the first interceptor is the outermost.
\<close>

fun chain :: "'s interceptor list \<Rightarrow> string \<Rightarrow> 's handler \<Rightarrow> 's handler" where
  "chain [] m h = h"
| "chain (i # is) m h = i m (chain is m h)"

end
