(* ===== verification/Idem_Record.thy ===== *)
theory Idem_Record
  imports Json_Roundtrip Messages "HOL-Library.Multiset"
begin

text \<open>
  What the idempotency interceptor stores and compares, from the first half of
  \<^verbatim>\<open>internal/interceptor/idempotency.go\<close>: the versioned record envelope, its encoder and its
  decoder, the request fingerprints, and the reading of a record another request left.

  \<^verbatim>\<open>proto.Marshal\<close> and \<^verbatim>\<open>proto.Unmarshal\<close> of a token pair are third-party code: the
  parameter \<open>codec\<close>.
\<close>


section \<open>The record envelope\<close>

definition idempotencyRecordMagic :: bytes where
  "idempotencyRecordMagic = ''IDR1''"

definition idempotencyStatePending :: string where
  "idempotencyStatePending = ''pending''"

definition idempotencyStateCompleted :: string where
  "idempotencyStateCompleted = ''completed''"

record idempotency_record =
  State :: string
  Response :: bytes
  Fingerprint :: string

definition zero_record :: idempotency_record where
  "zero_record = \<lparr>State = '''', Response = '''', Fingerprint = ''''\<rparr>"

definition json_of_record :: "idempotency_record \<Rightarrow> json" where
  "json_of_record rec =
     JObj ([(''state'', JStr (State rec))]
       @ (if Response rec = [] then [] else [(''response'', JStr (b64_encode (Response rec)))])
       @ (if Fingerprint rec = [] then [] else [(''fingerprint'', JStr (Fingerprint rec))]))"

definition idempotencyPendingRecord :: bytes where
  "idempotencyPendingRecord =
     idempotencyRecordMagic @ [CHR ''{'', CHR 0x22] @ ''state'' @ [CHR 0x22, CHR '':'', CHR 0x22]
       @ ''pending'' @ [CHR 0x22, CHR ''}'']"

definition encodeCompletedRecord :: "bytes \<Rightarrow> string \<Rightarrow> bytes" where
  "encodeCompletedRecord response fingerprint =
     idempotencyRecordMagic @
     json_print (json_of_record \<lparr>State = idempotencyStateCompleted, Response = response,
                                 Fingerprint = fingerprint\<rparr>)"

text \<open>
  Decoding into the struct.  A key names a field if the two are equal up to the case
  folding of \<^verbatim>\<open>encoding/json\<close>, which takes the long s and the Kelvin sign for letters;
  members are assigned in order, so the last of several wins; unknown keys are skipped.
\<close>

fun fold_name :: "bytes \<Rightarrow> bytes" where
  "fold_name [] = []"
| "fold_name (a # rest) =
     (if has_prefix (a # rest) [CHR 0xC5, CHR 0xBF] then CHR ''S'' # fold_name (drop 1 rest)
      else if has_prefix (a # rest) [CHR 0xE2, CHR 0x84, CHR 0xAA] then CHR ''K'' # fold_name (drop 2 rest)
      else (if 97 \<le> byte_val a \<and> byte_val a \<le> 122 then char_of (byte_val a - 32) else a) # fold_name rest)"

text \<open>A JSON number as a \<^verbatim>\<open>uint8\<close>: decimal digits only, at most 255.\<close>

definition decimal :: "string \<Rightarrow> nat" where
  "decimal t = foldl (\<lambda>n c. 10 * n + (byte_val c - 48)) 0 t"

definition uint8_of :: "string \<Rightarrow> char option" where
  "uint8_of t =
     (if t \<noteq> [] \<and> list_all is_digit t \<and> decimal t < 256 then Some (char_of (decimal t)) else None)"

text \<open>
  An array read into a byte slice: a \<^verbatim>\<open>null\<close> element leaves the byte that is there, which
  is the old value's byte if the slice was that long, and zero otherwise.
\<close>

fun bytes_of_array :: "bytes \<Rightarrow> json list \<Rightarrow> bytes option" where
  "bytes_of_array old [] = Some []"
| "bytes_of_array old (x # xs) =
     (let rest = bytes_of_array (drop 1 old) xs;
          here = (case x of
                    JNum t \<Rightarrow> uint8_of t
                  | JNull \<Rightarrow> Some (case old of [] \<Rightarrow> CHR 0x00 | b # _ \<Rightarrow> b)
                  | _ \<Rightarrow> None)
      in case (here, rest) of (Some b, Some bs) \<Rightarrow> Some (b # bs) | _ \<Rightarrow> None)"

definition set_string :: "json \<Rightarrow> string \<Rightarrow> string option" where
  "set_string v old =
     (case v of JStr s \<Rightarrow> Some s | JNull \<Rightarrow> Some old | _ \<Rightarrow> None)"

definition set_bytes :: "json \<Rightarrow> bytes \<Rightarrow> bytes option" where
  "set_bytes v old =
     (case v of
        JStr s \<Rightarrow> b64_decode s
      | JNull \<Rightarrow> Some []
      | JArr xs \<Rightarrow> bytes_of_array old xs
      | _ \<Rightarrow> None)"

definition set_field :: "bytes \<times> json \<Rightarrow> idempotency_record \<Rightarrow> idempotency_record option" where
  "set_field kv rec =
     (let k = fold_name (fst kv) in
      if k = ''STATE'' then map_option (\<lambda>s. rec\<lparr>State := s\<rparr>) (set_string (snd kv) (State rec))
      else if k = ''RESPONSE'' then
        map_option (\<lambda>b. rec\<lparr>Response := b\<rparr>) (set_bytes (snd kv) (Response rec))
      else if k = ''FINGERPRINT'' then
        map_option (\<lambda>s. rec\<lparr>Fingerprint := s\<rparr>) (set_string (snd kv) (Fingerprint rec))
      else Some rec)"

fun set_fields :: "(bytes \<times> json) list \<Rightarrow> idempotency_record \<Rightarrow> idempotency_record option" where
  "set_fields [] rec = Some rec"
| "set_fields (kv # kvs) rec =
     (case set_field kv rec of None \<Rightarrow> None | Some rec' \<Rightarrow> set_fields kvs rec')"

definition record_of_json :: "json \<Rightarrow> idempotency_record option" where
  "record_of_json j =
     (case j of
        JObj kvs \<Rightarrow> set_fields kvs zero_record
      | JNull \<Rightarrow> Some zero_record
      | _ \<Rightarrow> None)"

definition decodeIdempotencyRecord :: "bytes \<Rightarrow> idempotency_record option" where
  "decodeIdempotencyRecord raw =
     (if length raw < length idempotencyRecordMagic \<or>
         take (length idempotencyRecordMagic) raw \<noteq> idempotencyRecordMagic then None
      else
        (case json_parse (drop (length idempotencyRecordMagic) raw) of
           None \<Rightarrow> None
         | Some j \<Rightarrow> record_of_json j))"


section \<open>Round trip of the envelope\<close>

lemma fold_field_names [simp]:
  "fold_name ''state'' = ''STATE''" "fold_name ''response'' = ''RESPONSE''"
  "fold_name ''fingerprint'' = ''FINGERPRINT''"
  by code_simp+

lemma ascii_names [simp]:
  "valid_utf8 ''state''" "valid_utf8 ''response''" "valid_utf8 ''fingerprint''"
  "valid_utf8 ''completed''" "valid_utf8 ''pending''"
  by code_simp+

lemma b64_chars_ascii: "c \<in> set (b64_encode bs) \<Longrightarrow> byte_val c < 128"
proof -
  have table: "byte_val c < 128" if "c \<in> set b64_table" for c
    using that by (auto simp: b64_table_def)
  have six: "byte_val (b64_char n) < 128" if "n \<in> set (sextets (quantum (byte_val x) (byte_val y) z))"
    and "z < 256" for n x y z
    using that by (intro table b64_char_in_table sextets_bound [OF quantum_bound]) simp_all
  show "c \<in> set (b64_encode bs) \<Longrightarrow> byte_val c < 128"
  proof (induction bs rule: b64_encode.induct)
    case (2 x)
    then show ?case using six [of _ x "CHR 0x00" 0] by (auto dest!: in_set_takeD)
  next
    case (3 x y)
    then show ?case using six [of _ x y 0] by (auto dest!: in_set_takeD)
  next
    case (4 x y z rest)
    then show ?case using six [of _ x y "byte_val z"] by auto
  qed simp
qed

lemma printable_record:
  assumes "valid_utf8 (State rec)" and "valid_utf8 (Fingerprint rec)"
  shows "printable maxNestingDepth (json_of_record rec)"
proof -
  have "valid_utf8 (b64_encode (Response rec))"
    by (rule valid_utf8_ascii) (rule b64_chars_ascii)
  then show ?thesis
    using assms by (simp add: json_of_record_def maxNestingDepth_def del: valid_utf8.simps)
qed

lemma record_of_json_of_record: "record_of_json (json_of_record rec) = Some rec"
  by (cases rec)
    (simp add: record_of_json_def json_of_record_def set_field_def set_string_def set_bytes_def
      zero_record_def b64_decode_encode del: fold_name.simps)

lemma decode_encode_record:
  assumes "valid_utf8 fingerprint"
  shows "decodeIdempotencyRecord (encodeCompletedRecord response fingerprint) =
    Some \<lparr>State = ''completed'', Response = response, Fingerprint = fingerprint\<rparr>"
proof -
  have "json_parse (json_print (json_of_record
      \<lparr>State = ''completed'', Response = response, Fingerprint = fingerprint\<rparr>)) = Some (json_of_record
      \<lparr>State = ''completed'', Response = response, Fingerprint = fingerprint\<rparr>)"
    using assms by (intro json_parse_print printable_record) (simp_all del: valid_utf8.simps(2))
  then show ?thesis
    by (simp add: decodeIdempotencyRecord_def encodeCompletedRecord_def
        idempotencyRecordMagic_def idempotencyStateCompleted_def record_of_json_of_record)
qed

lemma pending_record_printed:
  "idempotencyPendingRecord = idempotencyRecordMagic @
     json_print (json_of_record \<lparr>State = ''pending'', Response = [], Fingerprint = []\<rparr>)"
  by (simp add: idempotencyPendingRecord_def json_of_record_def json_quote_def esc_byte_def
      comma_sep_def)

lemma decode_pending_record:
  "decodeIdempotencyRecord idempotencyPendingRecord =
     Some \<lparr>State = ''pending'', Response = [], Fingerprint = []\<rparr>"
proof -
  have "json_parse (json_print (json_of_record
      \<lparr>State = ''pending'', Response = [], Fingerprint = []\<rparr>)) =
      Some (json_of_record \<lparr>State = ''pending'', Response = [], Fingerprint = []\<rparr>)"
    by (intro json_parse_print printable_record) (simp_all del: valid_utf8.simps(2))
  then show ?thesis
    unfolding pending_record_printed decodeIdempotencyRecord_def
    by (simp add: idempotencyRecordMagic_def record_of_json_of_record)
qed


section \<open>Reading the record of another request\<close>

text \<open>\<^verbatim>\<open>proto.Marshal\<close> and \<^verbatim>\<open>proto.Unmarshal\<close> of a \<^verbatim>\<open>TokenPair\<close>\<close>

record codec =
  pb_marshal :: "token_pair \<Rightarrow> go_error + bytes"
  pb_unmarshal :: "bytes \<Rightarrow> go_error + token_pair"

text \<open>What is relied on: what was marshalled unmarshals to itself.\<close>

definition codec_ok :: "codec \<Rightarrow> bool" where
  "codec_ok pc \<longleftrightarrow> (\<forall>p b. pb_marshal pc p = Inr b \<longrightarrow> pb_unmarshal pc b = Inr p)"

text \<open>
  \<^verbatim>\<open>resolveExistingRecord\<close>: an error, or the pair with the stored fingerprint of a completed
  record, or \<open>None\<close> for a pending one.
\<close>

definition resolveExistingRecord :: "codec \<Rightarrow> bytes \<Rightarrow> go_error + (token_pair \<times> string) option" where
  "resolveExistingRecord pc raw =
     (case decodeIdempotencyRecord raw of
        Some rec \<Rightarrow>
          if State rec = idempotencyStatePending then Inr None
          else
            (case pb_unmarshal pc (Response rec) of
               Inl err \<Rightarrow> Inl err
             | Inr resp \<Rightarrow> Inr (Some (resp, Fingerprint rec)))
      | None \<Rightarrow>
          (case pb_unmarshal pc raw of
             Inl err \<Rightarrow> Inl err
           | Inr resp \<Rightarrow> Inr (Some (resp, ''''))))"

lemma resolve_pending: "resolveExistingRecord pc idempotencyPendingRecord = Inr None"
  by (simp add: resolveExistingRecord_def decode_pending_record idempotencyStatePending_def)

lemma resolve_completed:
  assumes "codec_ok pc" and "pb_marshal pc p = Inr b" and "valid_utf8 fp"
  shows "resolveExistingRecord pc (encodeCompletedRecord b fp) = Inr (Some (p, fp))"
  using assms
  by (simp add: resolveExistingRecord_def decode_encode_record idempotencyStatePending_def codec_ok_def)

text \<open>A record of the old format: bytes without the magic are the pair itself.\<close>

lemma resolve_legacy:
  assumes "\<not> has_prefix raw idempotencyRecordMagic"
  shows "resolveExistingRecord pc raw =
    (case pb_unmarshal pc raw of Inl err \<Rightarrow> Inl err | Inr resp \<Rightarrow> Inr (Some (resp, '''')))"
  using assms by (simp add: resolveExistingRecord_def decodeIdempotencyRecord_def has_prefix_def)


section \<open>Fingerprints\<close>

text \<open>
  The JSON of the fingerprint inputs.  A nil map prints as \<^verbatim>\<open>null\<close>, and map keys are
  sorted bytewise, as is the copy of the audiences.
\<close>

definition claims_json :: "claims \<Rightarrow> json" where
  "claims_json claims =
     (case claims of
        None \<Rightarrow> JNull
      | Some m \<Rightarrow> JObj (map (\<lambda>(k, v). (k, JStr v)) (sort_key fst m)))"

definition issueFingerprintInput :: "issue_token_request \<Rightarrow> json" where
  "issueFingerprintInput r =
     JObj [(''sub'', JStr (i_sub r)), (''tenant_id'', JStr (i_tenant_id r)),
           (''claims'', claims_json (i_claims r)),
           (''audiences'', JArr (map JStr (sort (i_audiences r))))]"

definition refreshFingerprintInput :: "refresh_token_request \<Rightarrow> json" where
  "refreshFingerprintInput r =
     JObj [(''refresh_token'', JStr (f_refresh_token r)), (''tenant_id'', JStr (f_tenant_id r)),
           (''claims'', claims_json (f_claims r))]"

definition computeFingerprint :: "json \<Rightarrow> string" where
  "computeFingerprint v = hex_sha256 (json_print v)"

definition computeIssueFingerprint :: "issue_token_request \<Rightarrow> string" where
  "computeIssueFingerprint r = computeFingerprint (issueFingerprintInput r)"

definition computeRefreshFingerprint :: "refresh_token_request \<Rightarrow> string" where
  "computeRefreshFingerprint r = computeFingerprint (refreshFingerprintInput r)"

lemma length_fingerprint: "length (computeFingerprint v) = 64"
  by (simp add: computeFingerprint_def hex_sha256_def length_sha256)

lemma fingerprint_nonempty [simp]: "computeFingerprint v \<noteq> ''''"
  using length_fingerprint [of v] by auto

lemma hextable_ascii: "is_hex c \<Longrightarrow> byte_val c < 128"
  by (auto simp: is_hex_def hextable_def)

lemma fingerprint_ascii [simp]: "valid_utf8 (computeFingerprint v)"
  by (rule valid_utf8_ascii)
    (auto simp: computeFingerprint_def hex_sha256_def intro: hextable_ascii hex_encode_is_hex)


section \<open>What a fingerprint binds\<close>

text \<open>
  The content of a request that its fingerprint is meant to identify: subject, tenant, the
  claims as a map, the audiences as a multiset.
\<close>

definition claims_content :: "claims \<Rightarrow> (string \<rightharpoonup> string) option" where
  "claims_content claims = map_option map_of claims"

definition issue_content ::
  "issue_token_request \<Rightarrow> string \<times> string \<times> (string \<rightharpoonup> string) option \<times> string multiset" where
  "issue_content r = (i_sub r, i_tenant_id r, claims_content (i_claims r), mset (i_audiences r))"

definition refresh_content ::
  "refresh_token_request \<Rightarrow> string \<times> string \<times> (string \<rightharpoonup> string) option" where
  "refresh_content r = (f_refresh_token r, f_tenant_id r, claims_content (f_claims r))"

text \<open>Protocol buffers guarantee of every string that it is UTF-8, and of a map that its keys differ.\<close>

definition claims_ok :: "claims \<Rightarrow> bool" where
  "claims_ok claims \<longleftrightarrow>
     map_wf (ranged claims) \<and> list_all (\<lambda>(k, v). valid_utf8 k \<and> valid_utf8 v) (ranged claims)"

definition issue_ok :: "issue_token_request \<Rightarrow> bool" where
  "issue_ok r \<longleftrightarrow> valid_utf8 (i_sub r) \<and> valid_utf8 (i_tenant_id r) \<and> claims_ok (i_claims r) \<and>
     list_all valid_utf8 (i_audiences r)"

definition refresh_ok :: "refresh_token_request \<Rightarrow> bool" where
  "refresh_ok r \<longleftrightarrow> valid_utf8 (f_refresh_token r) \<and> valid_utf8 (f_tenant_id r) \<and> claims_ok (f_claims r)"

lemma map_of_sort_key: "map_wf m \<Longrightarrow> map_of (sort_key fst m) = map_of m"
  unfolding map_wf_def
  by (rule map_of_eqI) (auto simp: distinct_map inj_on_def)

text \<open>Two association lists of one map are the same once sorted.\<close>

lemma sort_key_unique:
  fixes m n :: "string str_map"
  assumes "map_wf m" and "map_wf n" and "map_of m = map_of n"
  shows "sort_key fst m = sort_key fst n"
proof (rule map_sorted_distinct_set_unique [where f = fst])
  have same: "set m = set n"
    using assms unfolding map_wf_def by (metis map_of_inject_set)
  then show "set (sort_key fst m) = set (sort_key fst n)" by simp
  show "inj_on fst (set (sort_key fst m) \<union> set (sort_key fst n))"
    using assms(1) same by (simp add: map_wf_def distinct_map)
  have "mset (map fst (sort_key fst k)) = mset (map fst k)" for k :: "string str_map"
    by simp
  then have "distinct (map fst (sort_key fst k)) \<longleftrightarrow> distinct (map fst k)" for k :: "string str_map"
    by (metis mset_eq_imp_distinct_iff)
  with assms show "distinct (map fst (sort_key fst m))" "distinct (map fst (sort_key fst n))"
    by (simp_all add: map_wf_def)
qed simp_all

lemma claims_json_cong:
  assumes "map_wf (ranged a)" and "map_wf (ranged b)" and "claims_content a = claims_content b"
  shows "claims_json a = claims_json b"
proof (cases a)
  case None
  with assms(3) show ?thesis by (cases b) (simp_all add: claims_json_def claims_content_def)
next
  case (Some m)
  with assms(3) obtain n where n: "b = Some n" "map_of m = map_of n"
    by (cases b) (simp_all add: claims_content_def)
  with sort_key_unique [of m n] assms(1,2) Some show ?thesis by (simp add: claims_json_def)
qed

lemma claims_json_inj:
  assumes "map_wf (ranged a)" and "map_wf (ranged b)" and "claims_json a = claims_json b"
  shows "claims_content a = claims_content b"
proof (cases a)
  case None
  with assms show ?thesis by (cases b) (simp_all add: claims_json_def claims_content_def)
next
  case (Some m)
  with assms(3) obtain n where n: "b = Some n" by (cases b) (auto simp: claims_json_def)
  have "inj (\<lambda>(k, v). (k :: bytes, JStr v))" by (rule injI) auto
  then have "sort_key fst m = sort_key fst n"
    using assms(3) Some n by (simp add: claims_json_def inj_map_eq_map)
  then have "map_of m = map_of n"
    using assms(1,2) Some n map_of_sort_key [of m] map_of_sort_key [of n] by simp
  with Some n show ?thesis by (simp add: claims_content_def)
qed

lemma ascii_field_names [simp]:
  "valid_utf8 ''sub''" "valid_utf8 ''tenant_id''" "valid_utf8 ''claims''" "valid_utf8 ''audiences''"
  "valid_utf8 ''refresh_token''"
  by code_simp+

lemma printable_claims: "claims_ok claims \<Longrightarrow> 1 < d \<Longrightarrow> printable d (claims_json claims)"
  by (cases claims) (auto simp: claims_json_def claims_ok_def list_all_iff)

lemma printable_issue: "issue_ok r \<Longrightarrow> printable maxNestingDepth (issueFingerprintInput r)"
  by (simp add: issueFingerprintInput_def issue_ok_def maxNestingDepth_def printable_claims
      list_all_iff del: valid_utf8.simps)

lemma printable_refresh: "refresh_ok r \<Longrightarrow> printable maxNestingDepth (refreshFingerprintInput r)"
  by (simp add: refreshFingerprintInput_def refresh_ok_def maxNestingDepth_def printable_claims
      del: valid_utf8.simps)

text \<open>Equal inputs have equal content, and the other way round.\<close>

lemma issue_input_iff:
  assumes "issue_ok a" and "issue_ok b"
  shows "issueFingerprintInput a = issueFingerprintInput b \<longleftrightarrow> issue_content a = issue_content b"
proof -
  have "claims_json (i_claims a) = claims_json (i_claims b) \<longleftrightarrow>
      claims_content (i_claims a) = claims_content (i_claims b)"
    using assms claims_json_cong claims_json_inj unfolding issue_ok_def claims_ok_def by metis
  moreover have "sort (i_audiences a) = sort (i_audiences b) \<longleftrightarrow>
      mset (i_audiences a) = mset (i_audiences b)"
    by (metis mset_sort properties_for_sort sorted_sort)
  ultimately show ?thesis
    by (auto simp: issueFingerprintInput_def issue_content_def inj_map_eq_map inj_def)
qed

lemma refresh_input_iff:
  assumes "refresh_ok a" and "refresh_ok b"
  shows "refreshFingerprintInput a = refreshFingerprintInput b \<longleftrightarrow>
    refresh_content a = refresh_content b"
proof -
  have "claims_json (f_claims a) = claims_json (f_claims b) \<longleftrightarrow>
      claims_content (f_claims a) = claims_content (f_claims b)"
    using assms claims_json_cong claims_json_inj unfolding refresh_ok_def claims_ok_def by metis
  then show ?thesis by (auto simp: refreshFingerprintInput_def refresh_content_def)
qed

text \<open>The printed inputs differ when the inputs do, so only a collision of SHA-256 can confuse them.\<close>

lemma hex_byte_inj: "hex_byte a = hex_byte b \<Longrightarrow> a = b"
  using hex4_byte [of a "[]"] hex4_byte [of b "[]"] by simp

lemma hex_encode_inj: "hex_encode a = hex_encode b \<Longrightarrow> a = b"
proof (induction a arbitrary: b)
  case Nil
  then show ?case by (cases b) (simp_all add: hex_encode_def hex_byte_def)
next
  case (Cons x xs)
  then obtain y ys where b: "b = y # ys" by (cases b) (auto simp: hex_encode_def hex_byte_def)
  have "hex_byte x @ hex_encode xs = hex_byte y @ hex_encode ys"
    using Cons.prems b by (simp add: hex_encode_def)
  then have "hex_byte x = hex_byte y" "hex_encode xs = hex_encode ys"
    by (simp_all add: hex_byte_def)
  with Cons.IH hex_byte_inj b show ?case by blast
qed

definition collision :: "json \<Rightarrow> json \<Rightarrow> bool" where
  "collision i j \<longleftrightarrow> json_print i \<noteq> json_print j \<and> sha256 (json_print i) = sha256 (json_print j)"

lemma fingerprint_eq:
  assumes "printable maxNestingDepth i" and "printable maxNestingDepth j"
  shows "computeFingerprint i = computeFingerprint j \<longleftrightarrow> i = j \<or> collision i j"
proof -
  have "computeFingerprint i = computeFingerprint j \<longleftrightarrow> sha256 (json_print i) = sha256 (json_print j)"
    unfolding computeFingerprint_def hex_sha256_def by (metis hex_encode_inj)
  moreover have "json_print i = json_print j \<longleftrightarrow> i = j"
    using json_print_inj [OF assms] by blast
  ultimately show ?thesis unfolding collision_def by blast
qed

lemma issue_fingerprint_eq:
  assumes "issue_ok a" and "issue_ok b"
  shows "computeIssueFingerprint a = computeIssueFingerprint b \<longleftrightarrow>
    issue_content a = issue_content b \<or>
    collision (issueFingerprintInput a) (issueFingerprintInput b)"
  using fingerprint_eq [OF printable_issue [OF assms(1)] printable_issue [OF assms(2)]]
    issue_input_iff [OF assms] by (simp add: computeIssueFingerprint_def)

lemma refresh_fingerprint_eq:
  assumes "refresh_ok a" and "refresh_ok b"
  shows "computeRefreshFingerprint a = computeRefreshFingerprint b \<longleftrightarrow>
    refresh_content a = refresh_content b \<or>
    collision (refreshFingerprintInput a) (refreshFingerprintInput b)"
  using fingerprint_eq [OF printable_refresh [OF assms(1)] printable_refresh [OF assms(2)]]
    refresh_input_iff [OF assms] by (simp add: computeRefreshFingerprint_def)


section \<open>A codec for concrete runs\<close>

text \<open>
  Length-prefixed fields, in unary: not the wire format, but a codec of which the law holds.
\<close>

definition frame_field :: "string \<Rightarrow> bytes" where
  "frame_field s = replicate (length s) (CHR ''1'') @ CHR ''0'' # s"

definition unframe_field :: "bytes \<Rightarrow> string \<times> bytes" where
  "unframe_field bs =
     (let n = length (takeWhile (\<lambda>c. c = CHR ''1'') bs); r = drop (Suc n) bs in (take n r, drop n r))"

definition unary :: "int \<Rightarrow> string" where
  "unary i = (if i < 0 then replicate (nat (- i)) (CHR ''-'') else replicate (nat i) (CHR ''+''))"

definition un_unary :: "string \<Rightarrow> int" where
  "un_unary s = (if has_prefix s ''-'' then - int (length s) else int (length s))"

definition plain_codec :: codec where
  "plain_codec =
     \<lparr>pb_marshal = (\<lambda>p. Inr (frame_field (access_token p) @ frame_field (refresh_token p)
         @ frame_field (unary (access_token_expires_in p)) @ unary (refresh_token_expires_in p))),
      pb_unmarshal = (\<lambda>b0.
        let (a, b1) = unframe_field b0; (r, b2) = unframe_field b1; (x, b3) = unframe_field b2
        in Inr \<lparr>access_token = a, refresh_token = r, access_token_expires_in = un_unary x,
                refresh_token_expires_in = un_unary b3\<rparr>)\<rparr>"

lemma unframe_frame [simp]: "unframe_field (frame_field s @ rest) = (s, rest)"
proof -
  have "takeWhile (\<lambda>c. c = CHR ''1'') (replicate n (CHR ''1'') @ CHR ''0'' # t) = replicate n (CHR ''1'')"
    for n t by (induction n) simp_all
  then show ?thesis by (simp add: unframe_field_def frame_field_def)
qed

lemma un_unary [simp]: "un_unary (unary i) = i"
proof (cases "i < 0")
  case True
  then obtain n where "nat (- i) = Suc n" by (cases "nat (- i)") auto
  with True show ?thesis by (simp add: un_unary_def unary_def has_prefix_def)
next
  case False
  then show ?thesis by (cases "nat i") (auto simp: un_unary_def unary_def has_prefix_def)
qed

lemma plain_codec_ok: "codec_ok plain_codec"
  by (simp add: codec_ok_def plain_codec_def)

end
