(* ===== verification/Redis_Store.thy ===== *)
theory Redis_Store
  imports World
begin

text \<open>
  The go-redis client as an interface, the documented behaviour of the server behind it, and
  \<^verbatim>\<open>internal/store\<close>: the IdempotencyStore interface with its Redis and NoOp
  implementations.

  The client is third-party code, so its calls are parameters: functions on the world that
  may take time and may fail.  What the service relies on is the locale \<open>redis_server\<close>:
  a call that succeeds has run one atomic command on the server's keyspace at some instant
  between the call and its return; a call that failed may or may not have run.  A keyspace
  maps a key to a value and its deadline, and a key is live until its deadline.  The
  keyspace is behind the interface: it does not depend on the service's clock or trace.
\<close>


section \<open>The server\<close>

type_synonym db = "string \<rightharpoonup> bytes \<times> int option"

definition live :: "db \<Rightarrow> int \<Rightarrow> string \<Rightarrow> bytes option" where
  "live d t k =
     (case d k of
        None \<Rightarrow> None
      | Some (v, None) \<Rightarrow> Some v
      | Some (v, Some deadline) \<Rightarrow> if t < deadline then Some v else None)"

text \<open>
  The deadline of a key written at time \<open>t\<close>: none unless the TTL is positive; otherwise the
  TTL in whole milliseconds, at least one.
\<close>

definition expiry :: "int \<Rightarrow> int \<Rightarrow> int option" where
  "expiry t ttl = (if ttl \<le> 0 then None else Some (t + max 1000000 (ttl div 1000000 * 1000000)))"

text \<open>The least lifetime Redis gives a key written with this TTL.\<close>

definition lifetime :: "int \<Rightarrow> int" where
  "lifetime ttl = max 1000000 (ttl div 1000000 * 1000000)"

definition put_key :: "db \<Rightarrow> string \<Rightarrow> bytes \<Rightarrow> int \<Rightarrow> int \<Rightarrow> db" where
  "put_key d k v t ttl = d(k \<mapsto> (v, expiry t ttl))"

text \<open>
  What SET leaves.  The client takes the TTL of minus one nanosecond for the server's KEEPTTL: a
  live key keeps the deadline it has.
\<close>

definition KeepTTL :: int where
  "KeepTTL = - 1"

definition set_key :: "db \<Rightarrow> string \<Rightarrow> bytes \<Rightarrow> int \<Rightarrow> int \<Rightarrow> db" where
  "set_key d k v t ttl =
     (case d k of
        Some (w, dl) \<Rightarrow> if ttl = KeepTTL \<and> live d t k \<noteq> None then d(k \<mapsto> (v, dl)) else put_key d k v t ttl
      | None \<Rightarrow> put_key d k v t ttl)"

lemma set_key_put: "ttl \<noteq> KeepTTL \<Longrightarrow> set_key d k v t ttl = put_key d k v t ttl"
  by (simp add: set_key_def split: option.split prod.split)

lemma set_key_other: "k' \<noteq> k \<Longrightarrow> set_key d k v t ttl k' = d k'"
  by (simp add: set_key_def put_key_def split: option.split prod.split)

lemma live_put_same [simp]:
  "live (put_key d k v t ttl) t' k =
     (case expiry t ttl of None \<Rightarrow> Some v | Some dl \<Rightarrow> if t' < dl then Some v else None)"
  by (simp add: live_def put_key_def split: option.split)

lemma live_put_other [simp]: "k' \<noteq> k \<Longrightarrow> live (put_key d k v t ttl) t' k' = live d t' k'"
  by (simp add: live_def put_key_def)

lemma live_del [simp]: "live (d(k := None)) t k' = (if k' = k then None else live d t k')"
  by (simp add: live_def)

lemma live_mono: "live d t' k = Some v \<Longrightarrow> t \<le> t' \<Longrightarrow> live d t k = Some v"
  by (auto simp: live_def split: option.splits if_splits)

lemma live_expired: "live d t k = None \<Longrightarrow> t \<le> t' \<Longrightarrow> live d t' k = None"
  by (auto simp: live_def split: option.splits if_splits)

lemma live_entry: "d k = Some (v, dl) \<Longrightarrow> live d t k \<noteq> None \<Longrightarrow> live d t k = Some v"
  by (cases dl) (simp_all add: live_def split: if_splits)

text \<open>
  Scripts: the part of Lua that the lock's release script uses, and its effect on the
  keyspace at time \<open>t\<close>.
\<close>

datatype lua =
    LKey nat
  | LArg nat
  | LNum int
  | LGet lua
  | LDel lua
  | LIfEq lua lua lua lua

datatype lua_val = VStr string | VInt int | VFalse

definition lua_index :: "string list \<Rightarrow> nat \<Rightarrow> lua_val" where
  "lua_index xs i = (if 1 \<le> i \<and> i \<le> length xs then VStr (xs ! (i - 1)) else VFalse)"

fun lua_eval :: "lua \<Rightarrow> string list \<Rightarrow> string list \<Rightarrow> int \<Rightarrow> db \<Rightarrow> lua_val \<times> db" where
  "lua_eval (LKey i) ks as t d = (lua_index ks i, d)"
| "lua_eval (LArg i) ks as t d = (lua_index as i, d)"
| "lua_eval (LNum n) ks as t d = (VInt n, d)"
| "lua_eval (LGet e) ks as t d =
     (case lua_eval e ks as t d of
        (VStr k, d1) \<Rightarrow> (case live d1 t k of None \<Rightarrow> VFalse | Some v \<Rightarrow> VStr v, d1)
      | (_, d1) \<Rightarrow> (VFalse, d1))"
| "lua_eval (LDel e) ks as t d =
     (case lua_eval e ks as t d of
        (VStr k, d1) \<Rightarrow> (VInt (if live d1 t k = None then 0 else 1), d1(k := None))
      | (_, d1) \<Rightarrow> (VInt 0, d1))"
| "lua_eval (LIfEq a b x y) ks as t d =
     (case lua_eval a ks as t d of
        (va, d1) \<Rightarrow>
          (case lua_eval b ks as t d1 of
             (vb, d2) \<Rightarrow> if va = vb then lua_eval x ks as t d2 else lua_eval y ks as t d2))"


section \<open>The client\<close>

record 's redis_client =
  rc_ping :: "ctx \<Rightarrow> 's \<Rightarrow> go_error option \<times> 's"
  rc_get :: "ctx \<Rightarrow> string \<Rightarrow> 's \<Rightarrow> (go_error + bytes) \<times> 's"
  rc_setnx :: "ctx \<Rightarrow> string \<Rightarrow> bytes \<Rightarrow> int \<Rightarrow> 's \<Rightarrow> (go_error + bool) \<times> 's"
  rc_set :: "ctx \<Rightarrow> string \<Rightarrow> bytes \<Rightarrow> int \<Rightarrow> 's \<Rightarrow> go_error option \<times> 's"
  rc_setargs_nx :: "ctx \<Rightarrow> string \<Rightarrow> bytes \<Rightarrow> int \<Rightarrow> 's \<Rightarrow> (go_error + string) \<times> 's"
  rc_eval :: "ctx \<Rightarrow> lua \<Rightarrow> string list \<Rightarrow> string list \<Rightarrow> 's \<Rightarrow> go_error option \<times> 's"

text \<open>Time passes during a call, and the call leaves the service's own trace alone.\<close>

definition call_frame :: "'a world_scheme \<Rightarrow> 'a world_scheme \<Rightarrow> bool" where
  "call_frame s s' \<longleftrightarrow> clock s \<le> clock s' \<and> trace s' = trace s"

text \<open>The instants at which a call from \<open>s\<close> to \<open>s'\<close> can have run.\<close>

definition during :: "'a world_scheme \<Rightarrow> 'a world_scheme \<Rightarrow> int \<Rightarrow> bool" where
  "during s s' t \<longleftrightarrow> clock s \<le> t \<and> t \<le> clock s'"

locale redis_server =
  fixes rc :: "'a world_scheme redis_client" and db :: "'a world_scheme \<Rightarrow> db"
  assumes db_rest: "world.more s = world.more s' \<Longrightarrow> db s = db s'"
    and frame:
      "rc_get rc c k s = (rg, s') \<Longrightarrow> call_frame s s'"
      "rc_setnx rc c k v ttl s = (rn, s') \<Longrightarrow> call_frame s s'"
      "rc_set rc c k v ttl s = (rs, s') \<Longrightarrow> call_frame s s'"
      "rc_setargs_nx rc c k v ttl s = (ra, s') \<Longrightarrow> call_frame s s'"
      "rc_eval rc c script ks as s = (re, s') \<Longrightarrow> call_frame s s'"
    and get_some: "rc_get rc c k s = (Inr v, s') \<Longrightarrow>
      \<exists>t. during s s' t \<and> live (db s) t k = Some v \<and> db s' = db s"
    and get_nil: "rc_get rc c k s = (Inl e, s') \<Longrightarrow> errors_is e RedisNil \<Longrightarrow>
      \<exists>t. during s s' t \<and> live (db s) t k = None"
    and get_err: "rc_get rc c k s = (Inl e, s') \<Longrightarrow> db s' = db s"
    and setnx_won: "rc_setnx rc c k v ttl s = (Inr True, s') \<Longrightarrow>
      \<exists>t. during s s' t \<and> live (db s) t k = None \<and> db s' = put_key (db s) k v t ttl"
    and setnx_lost: "rc_setnx rc c k v ttl s = (Inr False, s') \<Longrightarrow>
      \<exists>t. during s s' t \<and> live (db s) t k \<noteq> None \<and> db s' = db s"
    and setnx_err: "rc_setnx rc c k v ttl s = (Inl e, s') \<Longrightarrow>
      db s' = db s \<or>
      (\<exists>t. during s s' t \<and> live (db s) t k = None \<and> db s' = put_key (db s) k v t ttl)"
    and set_ok: "rc_set rc c k v ttl s = (None, s') \<Longrightarrow>
      \<exists>t. during s s' t \<and> db s' = set_key (db s) k v t ttl"
    and set_err: "rc_set rc c k v ttl s = (Some e, s') \<Longrightarrow>
      db s' = db s \<or> (\<exists>t. during s s' t \<and> db s' = set_key (db s) k v t ttl)"
    and setargs_ok: "rc_setargs_nx rc c k v ttl s = (Inr ''OK'', s') \<Longrightarrow>
      \<exists>t. during s s' t \<and> live (db s) t k = None \<and> db s' = put_key (db s) k v t ttl"
    and setargs_other: "rc_setargs_nx rc c k v ttl s = (Inr reply, s') \<Longrightarrow> reply \<noteq> ''OK'' \<Longrightarrow>
      db s' = db s"
    and setargs_err: "rc_setargs_nx rc c k v ttl s = (Inl e, s') \<Longrightarrow>
      db s' = db s \<or>
      (\<exists>t. during s s' t \<and> live (db s) t k = None \<and> db s' = put_key (db s) k v t ttl)"
    and eval_ok: "rc_eval rc c script ks as s = (None, s') \<Longrightarrow>
      \<exists>t. during s s' t \<and> db s' = snd (lua_eval script ks as t (db s))"
    and eval_err: "rc_eval rc c script ks as s = (Some e, s') \<Longrightarrow>
      db s' = db s \<or> (\<exists>t. during s s' t \<and> db s' = snd (lua_eval script ks as t (db s)))"
begin

lemma get_db: "rc_get rc c k s = (r, s') \<Longrightarrow> db s' = db s"
  using get_some get_err by (cases r) blast+

end


section \<open>IdempotencyStore\<close>

record 's idempotency_store =
  st_get :: "ctx \<Rightarrow> string \<Rightarrow> 's \<Rightarrow> (go_error + bytes option) \<times> 's"
  st_setnx :: "ctx \<Rightarrow> string \<Rightarrow> bytes \<Rightarrow> 's \<Rightarrow> (go_error + bool) \<times> 's"
  st_set :: "ctx \<Rightarrow> string \<Rightarrow> bytes \<Rightarrow> 's \<Rightarrow> go_error option \<times> 's"

definition RedisGet ::
  "'s redis_client \<Rightarrow> ctx \<Rightarrow> string \<Rightarrow> 's \<Rightarrow> (go_error + bytes option) \<times> 's" where
  "RedisGet client c key s =
     (case rc_get client c key s of
        (Inl err, s') \<Rightarrow> (if errors_is err RedisNil then Inr None else Inl err, s')
      | (Inr val, s') \<Rightarrow> (Inr (Some val), s'))"

definition RedisSetNX ::
  "'s redis_client \<Rightarrow> int \<Rightarrow> ctx \<Rightarrow> string \<Rightarrow> bytes \<Rightarrow> 's \<Rightarrow> (go_error + bool) \<times> 's" where
  "RedisSetNX client pendingTTL c key value s =
     (case rc_setnx client c key value pendingTTL s of
        (Inl err, s') \<Rightarrow> (Inl err, s')
      | (Inr ok, s') \<Rightarrow> (Inr ok, s'))"

definition RedisSet ::
  "'s redis_client \<Rightarrow> int \<Rightarrow> ctx \<Rightarrow> string \<Rightarrow> bytes \<Rightarrow> 's \<Rightarrow> go_error option \<times> 's" where
  "RedisSet client ttl c key value s = rc_set client c key value ttl s"

definition NewRedisIdempotencyStore ::
  "'s redis_client \<Rightarrow> int \<Rightarrow> int \<Rightarrow> 's idempotency_store" where
  "NewRedisIdempotencyStore client ttl pendingTTL =
     \<lparr>st_get = RedisGet client,
      st_setnx = RedisSetNX client pendingTTL,
      st_set = RedisSet client ttl\<rparr>"

definition NewNoOpIdempotencyStore :: "'s idempotency_store" where
  "NewNoOpIdempotencyStore =
     \<lparr>st_get = (\<lambda>c key s. (Inr None, s)),
      st_setnx = (\<lambda>c key value s. (Inr True, s)),
      st_set = (\<lambda>c key value s. (None, s))\<rparr>"

text \<open>
  The contract of the interface.  A claim is won only if the key was free, and then holds
  the claimed value for the pending TTL; it is lost only if the key was taken; a stored
  response is readable until its own TTL has passed; no call touches another key.
\<close>

locale idempotency_store =
  fixes st :: "'a world_scheme idempotency_store" and db :: "'a world_scheme \<Rightarrow> db"
    and ttl :: int and pendingTTL :: int
  assumes st_rest: "world.more s = world.more s' \<Longrightarrow> db s = db s'"
    and st_frame:
      "st_get st c k s = (rg, s') \<Longrightarrow> call_frame s s' \<and> db s' = db s"
      "st_setnx st c k v s = (rn, s') \<Longrightarrow> call_frame s s' \<and> (\<forall>k'. k' \<noteq> k \<longrightarrow> db s' k' = db s k')"
      "st_set st c k v s = (rs, s') \<Longrightarrow> call_frame s s' \<and> (\<forall>k'. k' \<noteq> k \<longrightarrow> db s' k' = db s k')"
    and hit: "st_get st c k s = (Inr (Some v), s') \<Longrightarrow>
      \<exists>t. during s s' t \<and> live (db s) t k = Some v"
    and miss: "st_get st c k s = (Inr None, s') \<Longrightarrow> \<exists>t. during s s' t \<and> live (db s) t k = None"
    and claim_won: "st_setnx st c k v s = (Inr True, s') \<Longrightarrow>
      \<exists>t. during s s' t \<and> live (db s) t k = None \<and> db s' = put_key (db s) k v t pendingTTL"
    and claim_lost: "st_setnx st c k v s = (Inr False, s') \<Longrightarrow>
      \<exists>t. during s s' t \<and> live (db s) t k \<noteq> None \<and> db s' = db s"
    and stored: "st_set st c k v s = (None, s') \<Longrightarrow>
      \<exists>t. during s s' t \<and> db s' = put_key (db s) k v t ttl"
begin

text \<open>While a value is live, the claim cannot be won, and a read can return nothing else.\<close>

lemma no_claim_while_live:
  assumes "st_setnx st c k v s = (Inr True, s')" and "live (db s) (clock s') k = Some w"
  shows False
proof -
  from claim_won [OF assms(1)] obtain t where "during s s' t" "live (db s) t k = None" by blast
  with live_mono [OF assms(2), of t] show False by (simp add: during_def)
qed

lemma read_while_live:
  assumes "st_get st c k s = (Inr r, s')" and "live (db s) (clock s') k = Some w"
  shows "r = Some w"
proof (cases r)
  case None
  from miss [of c k s s'] assms(1) None obtain t where "during s s' t" "live (db s) t k = None" by blast
  with live_mono [OF assms(2), of t] show ?thesis by (simp add: during_def)
next
  case (Some v)
  from hit [of c k s v s'] assms(1) Some obtain t where "during s s' t" "live (db s) t k = Some v"
    by blast
  with live_mono [OF assms(2), of t] Some show ?thesis by (simp add: during_def)
qed

end

text \<open>The Redis store keeps the contract, unless the TTL of the responses is KeepTTL.\<close>

locale redis_idempotency = redis_server rc db
  for rc :: "'a world_scheme redis_client" and db +
  fixes ttl :: int and pendingTTL :: int
  assumes own_ttl: "ttl \<noteq> KeepTTL"

sublocale redis_idempotency < redis_store:
  idempotency_store "NewRedisIdempotencyStore rc ttl pendingTTL" db ttl pendingTTL
proof (unfold_locales, goal_cases)
  case (1 s s')
  then show ?case by (rule db_rest)
next
  case (2 c k s rg s')
  then show ?case
    using frame(1) get_db
    by (auto simp: NewRedisIdempotencyStore_def RedisGet_def split: prod.splits sum.splits)
next
  case (3 c k v s rn s')
  then have r: "rc_setnx rc c k v pendingTTL s = (rn, s')"
    by (auto simp: NewRedisIdempotencyStore_def RedisSetNX_def split: prod.splits sum.splits)
  have "db s' k' = db s k'" if "k' \<noteq> k" for k'
    using r that setnx_err [of c k v pendingTTL s _ s'] setnx_won [of c k v pendingTTL s s']
      setnx_lost [of c k v pendingTTL s s']
    by (cases rn; cases "rn = Inr True") (fastforce simp: put_key_def)+
  with frame(2) [OF r] show ?case by blast
next
  case (4 c k v s rs s')
  then have r: "rc_set rc c k v ttl s = (rs, s')"
    by (simp add: NewRedisIdempotencyStore_def RedisSet_def)
  have "db s' k' = db s k'" if "k' \<noteq> k" for k'
    using r that set_err [of c k v ttl s _ s'] set_ok [of c k v ttl s s']
    by (cases rs) (fastforce simp: set_key_other)+
  with frame(3) [OF r] show ?case by blast
next
  case (5 c k s v s')
  then have "rc_get rc c k s = (Inr v, s')"
    by (auto simp: NewRedisIdempotencyStore_def RedisGet_def split: prod.splits sum.splits if_splits)
  from get_some [OF this] show ?case by blast
next
  case (6 c k s s')
  then show ?case
    using get_nil
    by (auto simp: NewRedisIdempotencyStore_def RedisGet_def split: prod.splits sum.splits if_splits)
next
  case (7 c k v s s')
  then show ?case
    using setnx_won
    by (auto simp: NewRedisIdempotencyStore_def RedisSetNX_def split: prod.splits sum.splits)
next
  case (8 c k v s s')
  then show ?case
    using setnx_lost
    by (auto simp: NewRedisIdempotencyStore_def RedisSetNX_def split: prod.splits sum.splits)
next
  case (9 c k v s s')
  then show ?case
    using set_ok [of c k v ttl s s']
    by (simp add: NewRedisIdempotencyStore_def RedisSet_def set_key_put [OF own_ttl])
qed


section \<open>A server in memory\<close>

text \<open>
  A client whose every call succeeds at once, over a keyspace held in the world: it shows
  that the laws can hold, and the witnesses run on it.
\<close>

record mem_world = world +
  mem_db :: db

definition mem_redis :: "'b mem_world_scheme redis_client" where
  "mem_redis =
     \<lparr>rc_ping = (\<lambda>c s. (None, s)),
      rc_get = (\<lambda>c k s.
        (case live (mem_db s) (clock s) k of
           None \<Rightarrow> Inl (PlainErr [RedisNil] ''redis: nil'') | Some v \<Rightarrow> Inr v, s)),
      rc_setnx = (\<lambda>c k v ttl s.
        if live (mem_db s) (clock s) k = None
        then (Inr True, s\<lparr>mem_db := put_key (mem_db s) k v (clock s) ttl\<rparr>) else (Inr False, s)),
      rc_set = (\<lambda>c k v ttl s. (None, s\<lparr>mem_db := set_key (mem_db s) k v (clock s) ttl\<rparr>)),
      rc_setargs_nx = (\<lambda>c k v ttl s.
        if live (mem_db s) (clock s) k = None
        then (Inr ''OK'', s\<lparr>mem_db := put_key (mem_db s) k v (clock s) ttl\<rparr>)
        else (Inl (PlainErr [RedisNil] ''redis: nil''), s)),
      rc_eval = (\<lambda>c script ks as s.
        (None, s\<lparr>mem_db := snd (lua_eval script ks as (clock s) (mem_db s))\<rparr>))\<rparr>"

lemma mem_db_rest: "world.more s = world.more s' \<Longrightarrow> mem_db s = mem_db s'"
  by (cases s; cases s') simp

interpretation mem: redis_server mem_redis mem_db
  by unfold_locales
    (auto simp: mem_redis_def call_frame_def during_def intro: mem_db_rest split: if_splits option.splits)

end
