(* ===== verification/Go_Float.thy ===== *)
theory Go_Float
  imports Complex_Main "HOL-Library.Log_Nat"
begin

text \<open>
  Go's \<^verbatim>\<open>float64\<close>, as far as the service computes with it: the rounding of a non-negative
  rational to 53 significant bits, ties to even.  It is exact for zero and for values between
  \<open>2 ^ (-64)\<close> and the largest float, which the two uses never leave:
  \<^verbatim>\<open>time.Duration.Seconds\<close> and the fractions of \<^verbatim>\<open>time.ParseDuration\<close>.
\<close>

definition round_even :: "rat \<Rightarrow> int" where
  "round_even y =
     (let f = \<lfloor>y\<rfloor>; r = y - of_int f in
      if r < 1 / 2 then f else if 1 / 2 < r then f + 1 else if even f then f else f + 1)"

text \<open>The binary exponent: \<open>2 ^ e \<le> x < 2 ^ (e + 1)\<close>.\<close>

definition bin_exp :: "rat \<Rightarrow> int" where
  "bin_exp x = int (floorlog 2 (nat \<lfloor>x * 2 ^ 64\<rfloor>)) - 65"

definition pow2 :: "int \<Rightarrow> rat" where
  "pow2 e = (if 0 \<le> e then 2 ^ nat e else 1 / 2 ^ nat (- e))"

definition fl :: "rat \<Rightarrow> rat" where
  "fl x =
     (if x = 0 then 0
      else let u = pow2 (bin_exp x - 52) in of_int (round_even (x / u)) * u)"

lemma pow2_pos [simp]: "0 < pow2 e"
  by (simp add: pow2_def)

lemma pow2_powi: "pow2 e = 2 powi e"
  by (simp add: pow2_def power_int_def power_one_over inverse_eq_divide)

lemma pow2_nonzero [simp]: "pow2 e \<noteq> 0"
  by (simp add: pow2_def)

lemma abs_pow2 [simp]: "\<bar>pow2 e\<bar> = pow2 e"
  by (simp add: pow2_def)

lemma pow2_add: "pow2 (a + b) = pow2 a * pow2 b"
  by (simp add: pow2_powi power_int_add)

lemma round_even_error: "\<bar>of_int (round_even y) - y\<bar> \<le> 1 / 2"
proof -
  have "(round_even y = \<lfloor>y\<rfloor> \<and> y - of_int \<lfloor>y\<rfloor> \<le> 1 / 2) \<or>
      (round_even y = \<lfloor>y\<rfloor> + 1 \<and> 1 / 2 \<le> y - of_int \<lfloor>y\<rfloor>)"
    unfolding round_even_def Let_def by (simp split: if_splits)
  moreover define f where "f = rat_of_int \<lfloor>y\<rfloor>"
  moreover have "f \<le> y" "y < f + 1" using floor_correct [of y] by (simp_all add: f_def)
  ultimately show ?thesis by (auto simp: abs_le_iff)
qed

lemma round_even_ge: "of_int n \<le> y \<Longrightarrow> n \<le> round_even y"
  unfolding round_even_def Let_def by (auto simp: le_floor_iff intro: add_increasing2)

lemma round_even_le: "y \<le> of_int n \<Longrightarrow> round_even y \<le> n"
proof (cases "y = of_int n")
  case True
  then show ?thesis by (simp add: round_even_def)
next
  case False
  assume "y \<le> of_int n"
  with False have "\<lfloor>y\<rfloor> < n" by (simp add: floor_less_iff)
  then show ?thesis by (simp add: round_even_def Let_def)
qed

lemma bin_exp_bounds:
  assumes "1 / 2 ^ 64 \<le> x"
  shows "pow2 (bin_exp x) \<le> x" and "x < pow2 (bin_exp x + 1)"
proof -
  let ?n = "nat \<lfloor>x * 2 ^ 64\<rfloor>"
  let ?k = "floorlog 2 ?n"
  have "1 \<le> \<lfloor>x * 2 ^ 64\<rfloor>" using assms by (simp add: le_floor_iff field_simps)
  then have n: "0 < ?n" and real: "int ?n = \<lfloor>x * 2 ^ 64\<rfloor>" by simp_all
  have k: "0 < ?k" "2 ^ (?k - 1) \<le> ?n" "?n < 2 ^ ?k"
    using n floorlog_bounds [of ?n 2] by (auto simp: floorlog_def)
  have low: "(2::rat) ^ (?k - 1) \<le> x * 2 ^ 64"
  proof -
    have "int (2 ^ (?k - 1)) \<le> int ?n" using k(2) by (simp only: of_nat_le_iff)
    then have "(2::int) ^ (?k - 1) \<le> \<lfloor>x * 2 ^ 64\<rfloor>" unfolding real by simp
    then show ?thesis by (simp add: le_floor_iff)
  qed
  have high: "x * 2 ^ 64 < (2::rat) ^ ?k"
  proof -
    have "int ?n < int (2 ^ ?k)" using k(3) by (simp only: of_nat_less_iff)
    then have "\<lfloor>x * 2 ^ 64\<rfloor> < (2::int) ^ ?k" unfolding real by simp
    then show ?thesis by (simp add: floor_less_iff)
  qed
  have exp: "bin_exp x = int (?k - 1) - 64" "bin_exp x + 1 = int ?k - 64"
    using k(1) by (simp_all add: bin_exp_def)
  have shift: "pow2 (int m - 64) = 2 ^ m / 2 ^ 64" for m
    by (simp add: pow2_powi power_int_diff)
  show "pow2 (bin_exp x) \<le> x" using low unfolding exp(1) shift by (simp add: field_simps)
  show "x < pow2 (bin_exp x + 1)" using high unfolding exp(2) shift by (simp add: field_simps)
qed

text \<open>The relative error of a rounding is at most \<open>2 ^ (-53)\<close>.\<close>

lemma fl_error:
  assumes "1 / 2 ^ 64 \<le> x"
  shows "\<bar>fl x - x\<bar> \<le> x / 2 ^ 53"
proof -
  let ?u = "pow2 (bin_exp x - 52)"
  have x: "0 < x" using assms by (meson less_le_trans zero_less_divide_1_iff zero_less_numeral zero_less_power)
  have "fl x - x = (of_int (round_even (x / ?u)) - x / ?u) * ?u"
    using x pow2_pos [of "bin_exp x - 52"] by (simp add: fl_def Let_def left_diff_distrib)
  then have "\<bar>fl x - x\<bar> = \<bar>of_int (round_even (x / ?u)) - x / ?u\<bar> * ?u"
    by (simp add: abs_mult)
  also have "\<dots> \<le> 1 / 2 * ?u"
    by (rule mult_right_mono [OF round_even_error less_imp_le [OF pow2_pos]])
  also have "\<dots> = pow2 (bin_exp x) / 2 ^ 53"
    by (simp add: pow2_powi power_int_diff)
  also have "\<dots> \<le> x / 2 ^ 53"
    using bin_exp_bounds(1) [OF assms] by (simp add: divide_right_mono)
  finally show ?thesis .
qed

text \<open>Rounding does not cross an integer that is a float.\<close>

lemma unit_divides:
  assumes "1 / 2 ^ 64 \<le> x" and "x < 2 ^ 53"
  shows "\<exists>k::int. of_int n / pow2 (bin_exp x - 52) = of_int (n * k)"
proof -
  have "pow2 (bin_exp x) < 2 ^ 53" using bin_exp_bounds(1) [OF assms(1)] assms(2) by simp
  moreover have "2 ^ 53 \<le> pow2 e" if "53 \<le> e" for e
  proof -
    from that have "(2::rat) ^ 53 \<le> 2 ^ nat e" by (intro power_increasing) (simp_all add: le_nat_iff)
    with that show ?thesis by (simp add: pow2_def)
  qed
  ultimately have "bin_exp x < 53" by (meson not_less)
  then have neg: "bin_exp x - 52 \<le> 0" by simp
  then have "of_int n / pow2 (bin_exp x - 52) = of_int (n * 2 ^ nat (52 - bin_exp x))"
    by (auto simp: pow2_def)
  then show ?thesis by blast
qed

lemma fl_ge_int:
  assumes "1 / 2 ^ 64 \<le> x" and "x < 2 ^ 53" and "of_int n \<le> x"
  shows "of_int n \<le> fl x"
proof -
  let ?u = "pow2 (bin_exp x - 52)"
  obtain k where k: "of_int n / ?u = of_int (n * k)" using unit_divides [OF assms(1,2)] by blast
  have "of_int (n * k) \<le> x / ?u"
    unfolding k [symmetric] using assms(3) pow2_pos by (intro divide_right_mono) (simp_all add: less_imp_le)
  then have "(of_int n / ?u) \<le> of_int (round_even (x / ?u))"
    unfolding k using round_even_ge by (simp only: of_int_le_iff)
  then have "of_int n \<le> of_int (round_even (x / ?u)) * ?u"
    using pow2_pos [of "bin_exp x - 52"] by (simp add: field_simps)
  then show ?thesis using assms(1) by (auto simp: fl_def Let_def)
qed

lemma fl_le_int:
  assumes "1 / 2 ^ 64 \<le> x" and "x < 2 ^ 53" and "x \<le> of_int n"
  shows "fl x \<le> of_int n"
proof -
  let ?u = "pow2 (bin_exp x - 52)"
  obtain k where k: "of_int n / ?u = of_int (n * k)" using unit_divides [OF assms(1,2)] by blast
  have "x / ?u \<le> of_int (n * k)"
    unfolding k [symmetric] using assms(3) pow2_pos by (intro divide_right_mono) (simp_all add: less_imp_le)
  then have "of_int (round_even (x / ?u)) \<le> (of_int n / ?u)"
    unfolding k using round_even_le by (simp only: of_int_le_iff)
  then have "of_int (round_even (x / ?u)) * ?u \<le> of_int n"
    using pow2_pos [of "bin_exp x - 52"] by (simp add: field_simps)
  then show ?thesis using assms(1) by (auto simp: fl_def Let_def)
qed

end
