(* ===== verification/Observability.thy ===== *)
theory Observability
  imports World Go_Float
begin

text \<open>
  \<^verbatim>\<open>internal/observability\<close>: the redaction of credentials in the log lines and span
  attributes that jwtauth emits (\<^verbatim>\<open>redact.go\<close>), the adapter that puts the library's
  lines on the service logger and the slog logger itself (\<^verbatim>\<open>logger.go\<close>), the library span
  (\<^verbatim>\<open>tracer.go\<close>) and the Prometheus metrics with their panic on an unregistered name
  (\<^verbatim>\<open>metrics.go\<close>).
\<close>


section \<open>Redaction\<close>

definition redactedValue :: string where
  "redactedValue = ''[REDACTED]''"

definition libraryRedactedKeys :: "string list" where
  "libraryRedactedKeys = [''token'', ''key'', ''cursor'', ''next_cursor'']"

definition isRedactedKey :: "string \<Rightarrow> bool" where
  "isRedactedKey key \<longleftrightarrow> key \<in> set libraryRedactedKeys"

definition splitLeadingContext :: "any list \<Rightarrow> ctx \<times> any list" where
  "splitLeadingContext kvs =
     (case kvs of
        ACtx c # rest \<Rightarrow> (c, rest)
      | _ \<Rightarrow> (background, kvs))"

text \<open>
  The loop of \<^verbatim>\<open>redactKeysAndValues\<close>: index \<open>i\<close> goes up in steps of two while
  \<open>i + 1 < len(keysAndValues)\<close>.  \<open>out\<close> is \<open>None\<close> as long as it is the caller's
  slice, and \<open>Some\<close> of a copy from the first redaction on, so that a write is always a
  write to the copy.
\<close>

definition key_at :: "any list \<Rightarrow> nat \<Rightarrow> string option" where
  "key_at kvs i = (case kvs ! i of AStr k \<Rightarrow> Some k | _ \<Rightarrow> None)"

function redact_loop :: "any list \<Rightarrow> nat \<Rightarrow> any list option \<Rightarrow> any list option" where
  "redact_loop kvs i out =
     (if i + 1 < length kvs then
        (case key_at kvs i of
           None \<Rightarrow> redact_loop kvs (i + 2) out
         | Some key \<Rightarrow>
             if \<not> isRedactedKey key then redact_loop kvs (i + 2) out
             else redact_loop kvs (i + 2)
               (Some ((case out of None \<Rightarrow> kvs | Some o' \<Rightarrow> o')[i + 1 := AStr redactedValue])))
      else out)"
  by pat_completeness auto
termination
  by (relation "measure (\<lambda>(kvs, i, out). length kvs - i)") auto

declare redact_loop.simps [simp del]

definition redactKeysAndValues :: "any list \<Rightarrow> any list" where
  "redactKeysAndValues kvs = (case redact_loop kvs 0 None of None \<Rightarrow> kvs | Some o' \<Rightarrow> o')"

text \<open>The specification: walk over the pairs; a trailing key without a value stays.\<close>

fun redact_pairs :: "any list \<Rightarrow> any list" where
  "redact_pairs (k # v # rest) =
     k # (case k of AStr key \<Rightarrow> if isRedactedKey key then AStr redactedValue else v | _ \<Rightarrow> v)
       # redact_pairs rest"
| "redact_pairs kvs = kvs"

lemma length_redact_pairs [simp]: "length (redact_pairs kvs) = length kvs"
  by (induction kvs rule: redact_pairs.induct) auto

lemma redact_pairs_keys:
  "2 * j < length kvs \<Longrightarrow> redact_pairs kvs ! (2 * j) = kvs ! (2 * j)"
proof (induction kvs arbitrary: j rule: redact_pairs.induct)
  case (1 k v rest)
  then show ?case by (cases j) auto
qed auto

lemma redact_pairs_values:
  "2 * j + 1 < length kvs \<Longrightarrow>
   redact_pairs kvs ! (2 * j + 1) =
     (case kvs ! (2 * j) of
        AStr key \<Rightarrow> if isRedactedKey key then AStr redactedValue else kvs ! (2 * j + 1)
      | _ \<Rightarrow> kvs ! (2 * j + 1))"
proof (induction kvs arbitrary: j rule: redact_pairs.induct)
  case (1 k v rest)
  show ?case
  proof (cases j)
    case 0
    then show ?thesis by (simp split: any.split)
  next
    case (Suc j')
    with "1.prems" have "2 * j' + 1 < length rest" by simp
    from "1.IH" [OF this] Suc show ?thesis by (simp split: any.split)
  qed
qed auto

lemma redact_pairs_idem: "redact_pairs (redact_pairs kvs) = redact_pairs kvs"
  by (induction kvs rule: redact_pairs.induct) (auto split: any.split)

lemma redact_pairs_append2:
  "even (length us) \<Longrightarrow> redact_pairs (us @ ws) = redact_pairs us @ redact_pairs ws"
  by (induction us rule: redact_pairs.induct) auto

lemma redact_pairs_unchanged:
  "redact_pairs us = us \<Longrightarrow> even (length us) \<Longrightarrow> redact_pairs (us @ ws) = us @ redact_pairs ws"
  by (simp add: redact_pairs_append2)

text \<open>
  The loop invariant: at an even index \<open>i\<close>, \<open>out\<close> (or the caller's slice, while it is
  not copied) is the redacted first \<open>i\<close> elements followed by the rest unchanged.
\<close>

definition redact_inv :: "any list \<Rightarrow> nat \<Rightarrow> any list option \<Rightarrow> bool" where
  "redact_inv kvs i out \<longleftrightarrow>
     even i \<and>
     (case out of None \<Rightarrow> kvs | Some o' \<Rightarrow> o') = redact_pairs (take i kvs) @ drop i kvs"

lemma redact_step:
  assumes "i + 1 < length kvs" and "even i"
  shows "redact_pairs (take (i + 2) kvs) =
         redact_pairs (take i kvs) @ redact_pairs [kvs ! i, kvs ! (i + 1)]"
proof -
  have "take (i + 2) kvs = take i kvs @ [kvs ! i, kvs ! (i + 1)]"
    using assms(1) by (simp add: take_Suc_conv_app_nth)
  moreover have "even (length (take i kvs))" using assms by simp
  ultimately show ?thesis by (simp add: redact_pairs_append2)
qed

lemma drop_two:
  "i + 1 < length kvs \<Longrightarrow> drop i kvs = kvs ! i # kvs ! (i + 1) # drop (i + 2) kvs"
  by (metis Cons_nth_drop_Suc Suc_eq_plus1 Suc_lessD add_2_eq_Suc')

lemma redact_inv_step:
  assumes inv: "redact_inv kvs i out" and lt: "i + 1 < length kvs"
  shows "redact_inv kvs (i + 2)
     (case key_at kvs i of
        None \<Rightarrow> out
      | Some key \<Rightarrow>
          if \<not> isRedactedKey key then out
          else Some ((case out of None \<Rightarrow> kvs | Some o' \<Rightarrow> o')[i + 1 := AStr redactedValue]))"
proof -
  have ev: "even i"
    and cur: "(case out of None \<Rightarrow> kvs | Some o' \<Rightarrow> o') = redact_pairs (take i kvs) @ drop i kvs"
    using inv by (auto simp: redact_inv_def)
  have len: "length (redact_pairs (take i kvs)) = i" using lt by simp
  note two = drop_two [OF lt]
  have step: "redact_pairs (take (i + 2) kvs) =
         redact_pairs (take i kvs) @ redact_pairs [kvs ! i, kvs ! (i + 1)]"
    by (rule redact_step [OF lt ev])
  show ?thesis
    using ev cur step len
    by (auto simp: redact_inv_def key_at_def two list_update_append split: any.splits option.splits)
qed

lemma redact_inv_loop:
  "redact_inv kvs i out \<Longrightarrow>
   (case redact_loop kvs i out of None \<Rightarrow> kvs | Some o' \<Rightarrow> o') = redact_pairs kvs"
proof (induction kvs i out rule: redact_loop.induct)
  case (1 kvs i out)
  show ?case
  proof (cases "i + 1 < length kvs")
    case True
    from redact_inv_step [OF "1.prems" True] "1.IH" [OF True] True show ?thesis
      by (auto simp: redact_loop.simps [of kvs i out] split: option.splits if_splits)
  next
    case False
    have ev: "even i" and cur: "(case out of None \<Rightarrow> kvs | Some o' \<Rightarrow> o') =
        redact_pairs (take i kvs) @ drop i kvs"
      using "1.prems" by (auto simp: redact_inv_def)
    have "redact_pairs (drop i kvs) = drop i kvs"
      using False by (cases "drop i kvs" rule: redact_pairs.cases) (auto dest: arg_cong [where f = length])
    moreover have "redact_pairs kvs = redact_pairs (take i kvs) @ redact_pairs (drop i kvs)"
    proof (cases "i \<le> length kvs")
      case True
      then have "even (length (take i kvs))" using ev by simp
      then show ?thesis using redact_pairs_append2 [of "take i kvs" "drop i kvs"] by simp
    next
      case False
      then show ?thesis by simp
    qed
    ultimately show ?thesis
      using False cur by (simp add: redact_loop.simps [of kvs i out])
  qed
qed

lemma redactKeysAndValues_eq: "redactKeysAndValues kvs = redact_pairs kvs"
  unfolding redactKeysAndValues_def by (rule redact_inv_loop) (simp add: redact_inv_def)


section \<open>SlogLogger\<close>

text \<open>
  What a SlogLogger hands to \<^verbatim>\<open>log/slog\<close> for one call: the level, the message and the
  attributes, the correlation ID first, after the fields bound by \<^verbatim>\<open>With\<close>.
\<close>

record slog_logger =
  bound :: "any list"

record slog_line =
  line_level :: log_level
  line_msg :: string
  line_attrs :: "any list"

definition NewSlogLogger :: slog_logger where
  "NewSlogLogger = \<lparr>bound = []\<rparr>"

definition slog_write :: "slog_logger \<Rightarrow> log_level \<Rightarrow> ctx \<Rightarrow> string \<Rightarrow> any list \<Rightarrow> slog_line" where
  "slog_write l level c msg kvs =
     \<lparr>line_level = level, line_msg = msg,
      line_attrs = bound l @
        (AStr ''correlation_id'' # AStr (CorrelationIDFromContext c) # kvs)\<rparr>"

definition slog_with :: "slog_logger \<Rightarrow> any list \<Rightarrow> slog_logger" where
  "slog_with l kvs = l\<lparr>bound := bound l @ kvs\<rparr>"


section \<open>LibraryLoggerAdapter\<close>

text \<open>
  The four level methods make the same call on the service logger: the context is taken
  off the fields, the rest is redacted.
\<close>

definition lib_log ::
  "log_level \<Rightarrow> string \<Rightarrow> any list \<Rightarrow> 'a world_scheme \<Rightarrow> 'a world_scheme" where
  "lib_log level msg kvs s =
     (let (c, flds) = splitLeadingContext kvs
      in emit (ELog level c msg (redactKeysAndValues flds)) s)"

definition lib_with :: "slog_logger \<Rightarrow> any list \<Rightarrow> slog_logger" where
  "lib_with l kvs =
     (let (_, flds) = splitLeadingContext kvs in slog_with l (redactKeysAndValues flds))"

text \<open>
  \<open>leaks v kvs\<close>: the fields show the value \<open>v\<close> under a deny-listed key.
\<close>

fun leaks :: "any \<Rightarrow> any list \<Rightarrow> bool" where
  "leaks x (AStr k # v # rest) \<longleftrightarrow> isRedactedKey k \<and> v = x \<or> leaks x rest"
| "leaks x (k # v # rest) \<longleftrightarrow> leaks x rest"
| "leaks x kvs \<longleftrightarrow> False"

lemma redact_pairs_no_leak: "x \<noteq> AStr redactedValue \<Longrightarrow> \<not> leaks x (redact_pairs kvs)"
  by (induction kvs rule: redact_pairs.induct) (auto split: any.split)

lemma splitLeadingContext_parts:
  "splitLeadingContext kvs = (c, flds) \<Longrightarrow>
   kvs = ACtx c # flds \<or> (c = background \<and> flds = kvs)"
  by (auto simp: splitLeadingContext_def split: list.splits any.splits)

lemma splitLeadingContext_ctx [simp]: "splitLeadingContext (ACtx c # rest) = (c, rest)"
  by (simp add: splitLeadingContext_def)


section \<open>Library spans\<close>

text \<open>
  \<^verbatim>\<open>LibraryOtelSpan.SetAttribute\<close> and \<^verbatim>\<open>SetAttributes\<close>.  \<open>sprint\<close> is \<^verbatim>\<open>fmt.Sprintf("%v", v)\<close>.
\<close>

definition attr_value :: "(any \<Rightarrow> string) \<Rightarrow> string \<Rightarrow> any \<Rightarrow> string" where
  "attr_value sprint key v =
     (case (if isRedactedKey key then AStr redactedValue else v) of
        AStr x \<Rightarrow> x
      | x \<Rightarrow> sprint x)"

definition lib_set_attribute ::
  "(any \<Rightarrow> string) \<Rightarrow> string \<Rightarrow> any \<Rightarrow> 'a world_scheme \<Rightarrow> 'a world_scheme" where
  "lib_set_attribute sprint key v s = emit (ESpanAttr key (attr_value sprint key v)) s"

definition lib_set_attributes ::
  "(any \<Rightarrow> string) \<Rightarrow> any str_map \<Rightarrow> 'a world_scheme \<Rightarrow> 'a world_scheme" where
  "lib_set_attributes sprint attrs s =
     fold (\<lambda>(k, v). emit (ESpanAttr k (attr_value sprint k v))) attrs s"

lemma attr_value_redacted: "isRedactedKey key \<Longrightarrow> attr_value sprint key v = redactedValue"
  by (simp add: attr_value_def)

lemma lib_set_attributes_trace:
  "trace (lib_set_attributes sprint attrs s) =
   trace s @ map (\<lambda>(k, v). ESpanAttr k (attr_value sprint k v)) attrs"
  unfolding lib_set_attributes_def by (induction attrs arbitrary: s) auto


section \<open>Prometheus metrics\<close>

definition MetricGRPCRequests :: string where
  "MetricGRPCRequests = ''token_engine_grpc_requests_total''"

definition MetricGRPCDuration :: string where
  "MetricGRPCDuration = ''token_engine_grpc_request_duration_seconds''"

definition MetricIdempotencyTotal :: string where
  "MetricIdempotencyTotal = ''token_engine_idempotency_total''"

definition MetricActiveTenants :: string where
  "MetricActiveTenants = ''token_engine_active_tenants''"

definition MetricRegistryOps :: string where
  "MetricRegistryOps = ''token_engine_tenant_registry_operations_total''"

definition MetricJWKSKeyCount :: string where
  "MetricJWKSKeyCount = ''token_engine_jwks_key_count''"

lemmas metric_names = MetricGRPCRequests_def MetricGRPCDuration_def MetricIdempotencyTotal_def
  MetricActiveTenants_def MetricRegistryOps_def MetricJWKSKeyCount_def

text \<open>
  The registered collectors: a counter and a gauge keep their value, a histogram the
  observations, newest first; values are floats, as rationals.  Labels are accepted and
  ignored, as the code does.
\<close>

text \<open>
  \<^verbatim>\<open>time.Duration.Seconds\<close>: the whole and the fractional seconds are added in \<^verbatim>\<open>float64\<close>;
  the value of a negative duration is the negated value of its opposite.
\<close>

definition duration_seconds :: "int \<Rightarrow> rat" where
  "duration_seconds d = fl (of_int (d div nsSecond) + fl (of_int (d mod nsSecond) / of_int nsSecond))"

definition signed_seconds :: "int \<Rightarrow> rat" where
  "signed_seconds d = (if d < 0 then - duration_seconds (- d) else duration_seconds d)"

record prometheus =
  counters :: "rat str_map"
  gauges :: "rat str_map"
  histograms :: "rat list str_map"

definition NewPrometheusMetrics :: prometheus where
  "NewPrometheusMetrics =
     \<lparr>counters = [(MetricGRPCRequests, 0), (MetricIdempotencyTotal, 0), (MetricRegistryOps, 0)],
      gauges = [(MetricActiveTenants, 0), (MetricJWKSKeyCount, 0)],
      histograms = [(MetricGRPCDuration, [])]\<rparr>"

text \<open>
  A call with a name that is not registered panics: \<open>None\<close>.
\<close>

definition prom_increment :: "string \<Rightarrow> string str_map \<Rightarrow> prometheus \<Rightarrow> prometheus option" where
  "prom_increment name labels p =
     (case map_of (counters p) name of
        None \<Rightarrow> None
      | Some v \<Rightarrow> Some (p\<lparr>counters := map_put name (v + 1) (counters p)\<rparr>))"

definition prom_set_gauge ::
  "string \<Rightarrow> rat \<Rightarrow> string str_map \<Rightarrow> prometheus \<Rightarrow> prometheus option" where
  "prom_set_gauge name value labels p =
     (case map_of (gauges p) name of
        None \<Rightarrow> None
      | Some _ \<Rightarrow> Some (p\<lparr>gauges := map_put name value (gauges p)\<rparr>))"

text \<open>\<^verbatim>\<open>prometheus.Counter.Add\<close> itself panics on a negative value.\<close>

definition prom_add_counter ::
  "string \<Rightarrow> rat \<Rightarrow> string str_map \<Rightarrow> prometheus \<Rightarrow> prometheus option" where
  "prom_add_counter name value labels p =
     (case map_of (counters p) name of
        None \<Rightarrow> None
      | Some v \<Rightarrow>
          if value < 0 then None
          else Some (p\<lparr>counters := map_put name (fl (v + value)) (counters p)\<rparr>))"

definition prom_histogram ::
  "string \<Rightarrow> rat \<Rightarrow> string str_map \<Rightarrow> prometheus \<Rightarrow> prometheus option" where
  "prom_histogram name value labels p =
     (case map_of (histograms p) name of
        None \<Rightarrow> None
      | Some os \<Rightarrow> Some (p\<lparr>histograms := map_put name (value # os) (histograms p)\<rparr>))"

definition prom_duration ::
  "string \<Rightarrow> int \<Rightarrow> string str_map \<Rightarrow> prometheus \<Rightarrow> prometheus option" where
  "prom_duration name d labels p =
     (case map_of (histograms p) name of
        None \<Rightarrow> None
      | Some os \<Rightarrow> Some (p\<lparr>histograms := map_put name (signed_seconds d # os) (histograms p)\<rparr>))"

text \<open>The metrics after a trace: \<open>None\<close> if some call of it panicked.\<close>

fun prom_event :: "event \<Rightarrow> prometheus \<Rightarrow> prometheus option" where
  "prom_event (ECounter n ls) p = prom_increment n ls p"
| "prom_event (EGauge n v ls) p = prom_set_gauge n (of_int v) ls p"
| "prom_event (EDuration n d ls) p = prom_duration n d ls p"
| "prom_event _ p = Some p"

fun prom_run :: "event list \<Rightarrow> prometheus \<Rightarrow> prometheus option" where
  "prom_run [] p = Some p"
| "prom_run (e # es) p = (case prom_event e p of None \<Rightarrow> None | Some p' \<Rightarrow> prom_run es p')"

text \<open>A metric call is known when its name is registered with its kind.\<close>

fun known_metric :: "event \<Rightarrow> bool" where
  "known_metric (ECounter n ls) \<longleftrightarrow>
     n \<in> {MetricGRPCRequests, MetricIdempotencyTotal, MetricRegistryOps}"
| "known_metric (EGauge n v ls) \<longleftrightarrow> n \<in> {MetricActiveTenants, MetricJWKSKeyCount}"
| "known_metric (EDuration n d ls) \<longleftrightarrow> n = MetricGRPCDuration"
| "known_metric _ \<longleftrightarrow> True"

definition prom_complete :: "prometheus \<Rightarrow> bool" where
  "prom_complete p \<longleftrightarrow>
     fst ` set (counters p) = {MetricGRPCRequests, MetricIdempotencyTotal, MetricRegistryOps} \<and>
     fst ` set (gauges p) = {MetricActiveTenants, MetricJWKSKeyCount} \<and>
     fst ` set (histograms p) = {MetricGRPCDuration}"

lemma prom_complete_new: "prom_complete NewPrometheusMetrics"
  by (auto simp: prom_complete_def NewPrometheusMetrics_def)

lemma prom_op_complete:
  "prom_increment n ls p = Some p' \<Longrightarrow> prom_complete p' = prom_complete p"
  "prom_set_gauge n w ls p = Some p' \<Longrightarrow> prom_complete p' = prom_complete p"
  "prom_duration n d ls p = Some p' \<Longrightarrow> prom_complete p' = prom_complete p"
  unfolding prom_increment_def prom_set_gauge_def prom_duration_def prom_complete_def
  by (clarsimp split: option.splits simp: keys_put_same simp del: keys_put)+

lemma prom_event_complete:
  assumes "prom_complete p"
  shows "known_metric e \<longleftrightarrow> (\<exists>p'. prom_event e p = Some p')"
    and "prom_event e p = Some p' \<Longrightarrow> prom_complete p'"
proof -
  have keys: "(\<exists>v. map_of (counters p) n = Some v) \<longleftrightarrow>
      n \<in> {MetricGRPCRequests, MetricIdempotencyTotal, MetricRegistryOps}"
    "(\<exists>v. map_of (gauges p) n = Some v) \<longleftrightarrow> n \<in> {MetricActiveTenants, MetricJWKSKeyCount}"
    "(\<exists>v. map_of (histograms p) n = Some v) \<longleftrightarrow> n = MetricGRPCDuration" for n
    using assms map_of_None_keys [of "counters p" n] map_of_None_keys [of "gauges p" n]
      map_of_None_keys [of "histograms p" n]
    by (auto simp: prom_complete_def simp del: not_None_eq)
  have ops: "(\<exists>p'. prom_increment n ls p = Some p') \<longleftrightarrow> (\<exists>v. map_of (counters p) n = Some v)"
    "(\<exists>p'. prom_set_gauge n w ls p = Some p') \<longleftrightarrow> (\<exists>v. map_of (gauges p) n = Some v)"
    "(\<exists>p'. prom_duration n d ls p = Some p') \<longleftrightarrow> (\<exists>v. map_of (histograms p) n = Some v)"
    for n ls w d
    by (simp_all add: prom_increment_def prom_set_gauge_def prom_duration_def split: option.split)
  show "known_metric e \<longleftrightarrow> (\<exists>p'. prom_event e p = Some p')"
    by (cases e) (simp_all add: ops keys)
  show "prom_event e p = Some p' \<Longrightarrow> prom_complete p'"
    using assms by (cases e) (simp_all add: prom_op_complete)
qed

lemma prom_run_known:
  "prom_complete p \<Longrightarrow> (\<exists>p'. prom_run es p = Some p') \<longleftrightarrow> list_all known_metric es"
proof (induction es arbitrary: p)
  case Nil
  then show ?case by simp
next
  case (Cons e es)
  show ?case
  proof (cases "prom_event e p")
    case None
    then show ?thesis using prom_event_complete(1) [OF Cons.prems, of e] by simp
  next
    case (Some p1)
    then show ?thesis
      using prom_event_complete [OF Cons.prems, of e] Cons.IH [of p1] by simp
  qed
qed



section \<open>Properties\<close>

text \<open>
  C40: The library's log fields are redacted.  The index loop of redactKeysAndValues computes
  the pairwise specification: the same length, every key in place, the value under a
  deny-listed key replaced and every other value kept; so a value logged by the library under a
  deny-listed key never reaches the service's logger, whether or not a context leads the
  fields, and redacting twice changes nothing more.
\<close>
theorem library_logs_redacted:
  "redactKeysAndValues kvs = redact_pairs kvs \<and>
   length (redactKeysAndValues kvs) = length kvs \<and>
   (\<forall>j. 2 * j + 1 < length kvs \<longrightarrow>
      redactKeysAndValues kvs ! (2 * j) = kvs ! (2 * j) \<and>
      redactKeysAndValues kvs ! (2 * j + 1) =
        (case kvs ! (2 * j) of
           AStr key \<Rightarrow> if isRedactedKey key then AStr redactedValue else kvs ! (2 * j + 1)
         | _ \<Rightarrow> kvs ! (2 * j + 1))) \<and>
   redactKeysAndValues (redactKeysAndValues kvs) = redactKeysAndValues kvs \<and>
   (x \<noteq> AStr redactedValue \<longrightarrow>
      (\<exists>c flds. trace (lib_log level msg kvs s) = trace s @ [ELog level c msg flds] \<and> \<not> leaks x flds))"
proof -
  obtain c flds where "splitLeadingContext kvs = (c, flds)" by fastforce
  then have log: "trace (lib_log level msg kvs s) = trace s @ [ELog level c msg (redact_pairs flds)]"
    by (simp add: lib_log_def redactKeysAndValues_eq)
  have "redact_pairs kvs ! (2 * j) = kvs ! (2 * j)" if "2 * j + 1 < length kvs" for j
    using redact_pairs_keys [of j kvs] that by simp
  with log redact_pairs_no_leak [of x flds] redact_pairs_values [of _ kvs] show ?thesis
    by (simp add: redactKeysAndValues_eq redact_pairs_idem)
qed

theorem library_logs_redacted_witness:
  "redactKeysAndValues [AStr ''token'', AStr ''secret'', AStr ''user'', AStr ''u'', AStr ''odd''] =
     [AStr ''token'', AStr ''[REDACTED]'', AStr ''user'', AStr ''u'', AStr ''odd'']"
proof -
  let ?kvs = "[AStr ''token'', AStr ''secret'', AStr ''user'', AStr ''u'', AStr ''odd'']"
  have "redactKeysAndValues ?kvs = redact_pairs ?kvs"
    using library_logs_redacted [of ?kvs] by (rule conjunct1)
  then show ?thesis by (simp add: isRedactedKey_def libraryRedactedKeys_def redactedValue_def)
qed

text \<open>
  Metric calls never panic on the service's own names.  From a fresh set of Prometheus
  collectors, a sequence of metric calls runs to its end exactly if every call uses a
  registered name with the right kind of collector.
\<close>
theorem metrics_never_panic:
  "(\<exists>p. prom_run es NewPrometheusMetrics = Some p) \<longleftrightarrow> list_all known_metric es"
  by (rule prom_run_known [OF prom_complete_new])

end
