(* ===== verification/Auth_Interceptors.thy ===== *)
theory Auth_Interceptors
  imports Messages Observability
begin

text \<open>
  Authentication and caller authorization: \<^verbatim>\<open>internal/interceptor/auth.go\<close>,
  \<^verbatim>\<open>internal/interceptor/caller.go\<close>, \<^verbatim>\<open>internal/registry/caller.go\<close> and
  \<^verbatim>\<open>internal/registry/noop.go\<close>, and the correlation interceptor of
  \<^verbatim>\<open>internal/observability/correlation.go\<close>.

  Two interfaces of the code are locales here: \<open>authenticator\<close> (what the auth interceptor
  relies on) with the mTLS and static-key authenticators as its interpretations, and
  \<open>caller_registry\<close> with the static and the permissive registry as its interpretations.
\<close>


section \<open>Authenticators\<close>

type_synonym authenticate = "ctx \<Rightarrow> go_error + string"

definition MTLSAuthenticate :: authenticate where
  "MTLSAuthenticate c =
     (case ctx_peer c of
        None \<Rightarrow> Inl (StatusErr Unauthenticated ''no peer information in context'')
      | Some OtherAuth \<Rightarrow> Inl (StatusErr Unauthenticated ''no TLS credentials in peer'')
      | Some (TLSInfo cns) \<Rightarrow>
          (case cns of
             [] \<Rightarrow> Inl (StatusErr Unauthenticated ''no client certificates provided'')
           | cn # _ \<Rightarrow>
               if cn = '''' then Inl (StatusErr Unauthenticated ''client certificate Common Name is empty'')
               else Inr cn))"

definition StaticKeyAuthenticate :: "string str_map \<Rightarrow> authenticate" where
  "StaticKeyAuthenticate keys c =
     (case incoming_md c of
        None \<Rightarrow> Inl (StatusErr Unauthenticated ''invalid or missing api key'')
      | Some md \<Rightarrow>
          (case md_get md MetadataKeyAPIKey of
             [] \<Rightarrow> Inl (StatusErr Unauthenticated ''invalid or missing api key'')
           | apiKey # _ \<Rightarrow>
               (case map_of keys apiKey of
                  None \<Rightarrow> Inl (StatusErr Unauthenticated ''invalid or missing api key'')
                | Some identity \<Rightarrow> Inr identity)))"

definition NewAuthInterceptor :: "authenticate \<Rightarrow> 'a world_scheme interceptor" where
  "NewAuthInterceptor auth m h c req s =
     (case auth c of
        Inl err \<Rightarrow> (Inl err, s)
      | Inr identity \<Rightarrow> h (WithCallerIdentity c identity) req s)"

text \<open>
  The contract of \<^verbatim>\<open>Authenticator\<close>: an error is a status error with
  \<^verbatim>\<open>codes.Unauthenticated\<close>.
\<close>

locale authenticator =
  fixes auth :: authenticate
  assumes fails_unauthenticated: "auth c = Inl e \<Longrightarrow> \<exists>msg. e = StatusErr Unauthenticated msg"
begin

lemma rejects:
  assumes "auth c = Inl e"
  shows "\<exists>msg. NewAuthInterceptor auth m h c req s = (Inl (StatusErr Unauthenticated msg), s)"
  using fails_unauthenticated [OF assms] assms by (auto simp: NewAuthInterceptor_def)

lemma outcome:
  "(\<exists>msg. NewAuthInterceptor auth m h c req s = (Inl (StatusErr Unauthenticated msg), s)) \<or>
   (\<exists>identity. auth c = Inr identity \<and>
      NewAuthInterceptor auth m h c req s = h (WithCallerIdentity c identity) req s)"
  using rejects by (cases "auth c") (auto simp: NewAuthInterceptor_def)

end

interpretation mtls: authenticator MTLSAuthenticate
  by unfold_locales
    (auto simp: MTLSAuthenticate_def split: option.splits auth_info.splits list.splits if_splits)

interpretation static_key: authenticator "StaticKeyAuthenticate keys" for keys
  by unfold_locales (auto simp: StaticKeyAuthenticate_def split: option.splits list.splits)

lemma mtls_identity:
  "MTLSAuthenticate c = Inr identity \<longleftrightarrow>
   identity \<noteq> '''' \<and> (\<exists>cns. ctx_peer c = Some (TLSInfo (identity # cns)))"
  by (auto simp: MTLSAuthenticate_def split: option.splits auth_info.splits list.splits if_splits)

lemma static_key_identity:
  "StaticKeyAuthenticate keys c = Inr identity \<longleftrightarrow>
   (\<exists>md k ks. incoming_md c = Some md \<and> md_get md MetadataKeyAPIKey = k # ks \<and>
      map_of keys k = Some identity)"
  by (auto simp: StaticKeyAuthenticate_def split: option.splits list.splits)


section \<open>Caller registry\<close>

record caller_entry =
  Identity :: string
  PermittedTenants :: "string list"

record caller_registry_config =
  Version :: int
  Callers :: "caller_entry list"

text \<open>
  \<^verbatim>\<open>NewStaticCallerRegistry\<close>: the nested map identity \<open>\<mapsto>\<close> tenant \<open>\<mapsto>\<close> true.
\<close>

definition tenant_set :: "string list \<Rightarrow> bool str_map" where
  "tenant_set ts = fold (\<lambda>t m. map_put t True m) ts []"

text \<open>\<^verbatim>\<open>os.Open\<close> and the YAML decoder are parameters; the decoded file is not checked here.\<close>

definition LoadCallerRegistryConfig ::
  "(string \<Rightarrow> go_error + 'file) \<Rightarrow> ('file \<Rightarrow> go_error + caller_registry_config) \<Rightarrow> string \<Rightarrow>
   go_error + caller_registry_config" where
  "LoadCallerRegistryConfig open_file decode path =
     (case open_file path of
        Inl err \<Rightarrow> Inl err
      | Inr f \<Rightarrow> (case decode f of Inl err \<Rightarrow> Inl err | Inr cfg \<Rightarrow> Inr cfg))"

definition NewStaticCallerRegistry :: "caller_registry_config \<Rightarrow> bool str_map str_map" where
  "NewStaticCallerRegistry cfg =
     fold (\<lambda>entry allowed. map_put (Identity entry) (tenant_set (PermittedTenants entry)) allowed)
       (Callers cfg) []"

text \<open>\<^verbatim>\<open>IsPermitted\<close> returns a bool and an error; both results are kept.\<close>

type_synonym is_permitted = "string \<Rightarrow> string \<Rightarrow> bool \<times> go_error option"

definition StaticIsPermitted :: "bool str_map str_map \<Rightarrow> is_permitted" where
  "StaticIsPermitted allowed callerIdentity tenantID =
     (if tenantID = '''' then (True, None)
      else
        (case map_of allowed callerIdentity of
           None \<Rightarrow> (False, Some (StatusErr PermissionDenied ''caller not authorized''))
         | Some tenantSet \<Rightarrow>
             if map_of tenantSet tenantID = Some True then (True, None)
             else (False, Some (StatusErr PermissionDenied ''caller not authorized''))))"

definition NoOpIsPermitted :: is_permitted where
  "NoOpIsPermitted callerIdentity tenantID = (True, None)"

definition grpcHealthPrefix :: string where
  "grpcHealthPrefix = ''/grpc.health.v1.Health/''"

definition NewCallerAuthorizationInterceptor :: "is_permitted \<Rightarrow> 'a world_scheme interceptor" where
  "NewCallerAuthorizationInterceptor isPermitted m h c req s =
     (if has_prefix m grpcHealthPrefix then h c req s
      else
        let callerIdentity = CallerIdentityFromContext c in
        if callerIdentity = '''' then (Inl (StatusErr Internal ''caller identity not set in context''), s)
        else
          let tenantID = (case GetTenantId req of None \<Rightarrow> '''' | Some t \<Rightarrow> t);
              (permitted, err) = isPermitted callerIdentity tenantID in
          case err of
            Some e \<Rightarrow> (Inl e, s)
          | None \<Rightarrow>
              if \<not> permitted then (Inl (StatusErr PermissionDenied ''caller not authorized''), s)
              else h c req s)"

text \<open>
  The contract of \<^verbatim>\<open>CallerRegistry\<close>: permission without an error, or refusal with
  \<^verbatim>\<open>codes.PermissionDenied\<close>; nothing in between.
\<close>

locale caller_registry =
  fixes isPermitted :: is_permitted
  assumes permit_or_deny:
    "isPermitted i t = (True, None) \<or> (\<exists>msg. isPermitted i t = (False, Some (StatusErr PermissionDenied msg)))"
begin

definition permits :: "string \<Rightarrow> string \<Rightarrow> bool" where
  "permits i t \<longleftrightarrow> fst (isPermitted i t)"

lemma authorization_outcome:
  assumes "\<not> has_prefix m grpcHealthPrefix"
  shows "NewCallerAuthorizationInterceptor isPermitted m h c req s =
     (if CallerIdentityFromContext c = ''''
        then (Inl (StatusErr Internal ''caller identity not set in context''), s)
      else if permits (CallerIdentityFromContext c) (case GetTenantId req of None \<Rightarrow> '''' | Some t \<Rightarrow> t)
        then h c req s
      else (Inl (the (snd (isPermitted (CallerIdentityFromContext c)
              (case GetTenantId req of None \<Rightarrow> '''' | Some t \<Rightarrow> t)))), s))"
  using assms permit_or_deny [of "CallerIdentityFromContext c"
      "case GetTenantId req of None \<Rightarrow> '''' | Some t \<Rightarrow> t"]
  by (auto simp: NewCallerAuthorizationInterceptor_def permits_def Let_def)

end

interpretation static_reg: caller_registry "StaticIsPermitted allowed" for allowed
  by unfold_locales (auto simp: StaticIsPermitted_def split: option.splits)

interpretation noop_reg: caller_registry NoOpIsPermitted
  by unfold_locales (simp add: NoOpIsPermitted_def)

lemma map_of_tenant_set: "map_of (tenant_set ts) t = Some True \<longleftrightarrow> t \<in> set ts"
proof -
  have "map_of (fold (\<lambda>t m. map_put t True m) ts m) t = Some True \<longleftrightarrow>
      t \<in> set ts \<or> map_of m t = Some True" for m
    by (induction ts arbitrary: m) auto
  then show ?thesis by (simp add: tenant_set_def)
qed

text \<open>The last entry of an identity decides; identities that occur once are their own entry.\<close>

lemma map_of_static_registry:
  "map_of (NewStaticCallerRegistry cfg) i =
   map_option (\<lambda>e. tenant_set (PermittedTenants e)) (find (\<lambda>e. Identity e = i) (rev (Callers cfg)))"
proof -
  have find_app: "find P (xs @ [y]) =
      (case find P xs of Some z \<Rightarrow> Some z | None \<Rightarrow> if P y then Some y else None)"
    for P :: "caller_entry \<Rightarrow> bool" and xs y by (induction xs) auto
  have "map_of (fold (\<lambda>e m. map_put (Identity e) (tenant_set (PermittedTenants e)) m) es m) i =
      (case find (\<lambda>e. Identity e = i) (rev es) of
         None \<Rightarrow> map_of m i | Some e \<Rightarrow> Some (tenant_set (PermittedTenants e)))"
    for es :: "caller_entry list" and m
    by (induction es arbitrary: m) (auto simp: find_app split: option.splits)
  then show ?thesis
    by (simp add: NewStaticCallerRegistry_def map_option_case split: option.splits)
qed


section \<open>Correlation interceptor\<close>

text \<open>
  \<open>uuid\<close> is \<^verbatim>\<open>uuid.New().String()\<close>, a third-party generator that may change the world.
\<close>

definition request_correlation_id :: "ctx \<Rightarrow> string" where
  "request_correlation_id c =
     (case incoming_md c of
        None \<Rightarrow> ''''
      | Some md \<Rightarrow> (case md_get md MetadataKeyCorrelationID of [] \<Rightarrow> '''' | v # _ \<Rightarrow> v))"

definition err_of :: "go_error + 'b \<Rightarrow> go_error option" where
  "err_of r = (case r of Inl e \<Rightarrow> Some e | Inr _ \<Rightarrow> None)"

definition NewCorrelationInterceptor ::
  "('a world_scheme \<Rightarrow> string \<times> 'a world_scheme) \<Rightarrow> 'a world_scheme interceptor" where
  "NewCorrelationInterceptor uuid m h c req s =
     (let given = request_correlation_id c;
          (corrID, s1) = (if given = '''' then uuid s else (given, s));
          c' = WithCorrelationID c corrID;
          s2 = emit (ESpanAttr ''correlation_id'' corrID) s1;
          s3 = emit (EHeader MetadataKeyCorrelationID corrID) s2;
          start = clock s3;
          (resp, s4) = h c' req s3;
          code = status_code (err_of resp);
          s5 = emit (ECounter MetricGRPCRequests [(''rpc_method'', m), (''status'', code_string code)]) s4;
          s6 = emit (EDuration MetricGRPCDuration (time_since start s5) [(''rpc_method'', m)]) s5
      in (resp, s6))"

lemma correlation_result:
  assumes "request_correlation_id c \<noteq> ''''"
  shows "fst (NewCorrelationInterceptor uuid m h c req s) =
    fst (h (WithCorrelationID c (request_correlation_id c)) req
       (emit (EHeader MetadataKeyCorrelationID (request_correlation_id c))
         (emit (ESpanAttr ''correlation_id'' (request_correlation_id c)) s)))"
  using assms by (simp add: NewCorrelationInterceptor_def Let_def split: prod.splits)

end
