(* ===== verification/Validation.thy ===== *)
theory Validation
  imports Auth_Interceptors
begin

text \<open>
  The request validation interceptor, \<^verbatim>\<open>internal/interceptor/validation.go\<close>: the checks in
  the order of the code, as a function from the request to the first rejection, and the
  interceptor that runs the handler when there is none.
\<close>

definition ReservedClaimKeys :: "string list" where
  "ReservedClaimKeys = [''sub'', ''iss'', ''aud'', ''exp'', ''iat'', ''nbf'', ''jti'']"

abbreviation invalid :: "string \<Rightarrow> go_error option" where
  "invalid msg \<equiv> Some (StatusErr InvalidArgument msg)"

text \<open>
  The range over the claims stops at the first reserved key.  \<^verbatim>\<open>%q\<close> of a reserved key is
  the key in double quotes.
\<close>

fun reject_reserved :: "string str_map \<Rightarrow> go_error option" where
  "reject_reserved [] = None"
| "reject_reserved ((key, v) # rest) =
     (if key \<in> set ReservedClaimKeys
      then invalid (''claims key '' @ CHR 0x22 # key @ CHR 0x22 # '' is reserved'')
      else reject_reserved rest)"

definition rejectReservedClaims :: "claims \<Rightarrow> go_error option" where
  "rejectReservedClaims claims = reject_reserved (ranged claims)"

definition validate_request :: "request \<Rightarrow> go_error option" where
  "validate_request req =
     (if GetTenantId req = Some '''' then invalid ''tenant_id must not be empty''
      else
        (case req of
           IssueReq r \<Rightarrow>
             if i_sub r = '''' then invalid ''sub must not be empty''
             else rejectReservedClaims (i_claims r)
         | RefreshReq r \<Rightarrow>
             if f_refresh_token r = '''' then invalid ''refresh_token must not be empty''
             else rejectReservedClaims (f_claims r)
         | RevokeReq r \<Rightarrow>
             if t_refresh_token r = '''' then invalid ''refresh_token must not be empty'' else None
         | RevokeUserReq r \<Rightarrow>
             if u_user_id r = '''' then invalid ''user_id must not be empty'' else None
         | RevokeAudienceReq r \<Rightarrow>
             if a_audience r = '''' then invalid ''audience must not be empty'' else None
         | RevokeUserAudienceReq r \<Rightarrow>
             if ua_user_id r = '''' then invalid ''user_id must not be empty''
             else if ua_audience r = '''' then invalid ''audience must not be empty''
             else None
         | OtherReq \<Rightarrow> None))"

definition NewValidationInterceptor :: "'a world_scheme interceptor" where
  "NewValidationInterceptor m h c req s =
     (case validate_request req of
        Some e \<Rightarrow> (Inl e, s)
      | None \<Rightarrow> h c req s)"

text \<open>The specification: what a well-formed request is.\<close>

definition no_reserved :: "claims \<Rightarrow> bool" where
  "no_reserved claims \<longleftrightarrow> (\<forall>k \<in> fst ` set (ranged claims). k \<notin> set ReservedClaimKeys)"

fun well_formed_request :: "request \<Rightarrow> bool" where
  "well_formed_request (IssueReq r) \<longleftrightarrow>
     i_tenant_id r \<noteq> '''' \<and> i_sub r \<noteq> '''' \<and> no_reserved (i_claims r)"
| "well_formed_request (RefreshReq r) \<longleftrightarrow>
     f_tenant_id r \<noteq> '''' \<and> f_refresh_token r \<noteq> '''' \<and> no_reserved (f_claims r)"
| "well_formed_request (RevokeReq r) \<longleftrightarrow> t_tenant_id r \<noteq> '''' \<and> t_refresh_token r \<noteq> ''''"
| "well_formed_request (RevokeUserReq r) \<longleftrightarrow> u_tenant_id r \<noteq> '''' \<and> u_user_id r \<noteq> ''''"
| "well_formed_request (RevokeAudienceReq r) \<longleftrightarrow> a_tenant_id r \<noteq> '''' \<and> a_audience r \<noteq> ''''"
| "well_formed_request (RevokeUserAudienceReq r) \<longleftrightarrow>
     ua_tenant_id r \<noteq> '''' \<and> ua_user_id r \<noteq> '''' \<and> ua_audience r \<noteq> ''''"
| "well_formed_request OtherReq \<longleftrightarrow> True"

lemma reject_reserved_None:
  "reject_reserved m = None \<longleftrightarrow> (\<forall>k \<in> fst ` set m. k \<notin> set ReservedClaimKeys)"
  by (induction m rule: reject_reserved.induct) auto

lemma rejectReservedClaims_None: "rejectReservedClaims claims = None \<longleftrightarrow> no_reserved claims"
  by (simp add: rejectReservedClaims_def no_reserved_def reject_reserved_None)

lemma reject_reserved_Some:
  "reject_reserved m = Some e \<Longrightarrow> \<exists>msg. e = StatusErr InvalidArgument msg"
  by (induction m rule: reject_reserved.induct) (auto split: if_splits)

text \<open>The named key is a claim key of the request, and reserved.\<close>

lemma reject_reserved_names_key:
  "reject_reserved m = Some e \<Longrightarrow>
   \<exists>k \<in> fst ` set m. k \<in> set ReservedClaimKeys \<and>
     e = StatusErr InvalidArgument (''claims key '' @ CHR 0x22 # k @ CHR 0x22 # '' is reserved'')"
  by (induction m rule: reject_reserved.induct) (auto split: if_splits)

lemma validate_request_None: "validate_request req = None \<longleftrightarrow> well_formed_request req"
  by (cases req) (auto simp: validate_request_def rejectReservedClaims_None)

lemma validate_request_Some:
  "validate_request req = Some e \<Longrightarrow> \<exists>msg. e = StatusErr InvalidArgument msg"
  unfolding validate_request_def rejectReservedClaims_def
  by (auto split: if_splits request.splits dest: reject_reserved_Some)

lemma validation_accepts:
  "well_formed_request req \<Longrightarrow> NewValidationInterceptor m h c req s = h c req s"
  using validate_request_None [of req] by (simp add: NewValidationInterceptor_def)

lemma validation_rejects:
  assumes "\<not> well_formed_request req"
  shows "\<exists>msg. NewValidationInterceptor m h c req s = (Inl (StatusErr InvalidArgument msg), s)"
proof -
  from assms obtain e where "validate_request req = Some e"
    using validate_request_None [of req] by auto
  then show ?thesis
    using validate_request_Some by (force simp: NewValidationInterceptor_def)
qed

lemma well_formed_tenant:
  "well_formed_request req \<Longrightarrow> GetTenantId req = Some t \<Longrightarrow> t \<noteq> ''''"
  by (cases req) auto

end
