(* ===== verification/Idempotency.thy ===== *)
theory Idempotency
  imports Idem_Record Redis_Store Validation
begin

text \<open>
  The idempotency interceptor, \<^verbatim>\<open>NewIdempotencyInterceptor\<close> of
  \<^verbatim>\<open>internal/interceptor/idempotency.go\<close>: the resolution of the client's key, the claim of
  the store's key before the handler runs, what a request does that lost the claim, and the
  promotion of the claim to a completed record.

  The two handlers of the code are alike from step 5 on; these steps are the definitions
  \<open>lost_claim\<close>, \<open>won_claim\<close> and \<open>claim_and_run\<close>, with the method's name, the key and the
  fingerprint as arguments.
\<close>


section \<open>Constants\<close>

definition grpcMethodIssueToken :: string where
  "grpcMethodIssueToken = ''/token.v1.TokenEngine/IssueToken''"

definition grpcMethodRefreshToken :: string where
  "grpcMethodRefreshToken = ''/token.v1.TokenEngine/RefreshToken''"

definition idempotencyRedisPrefix :: string where
  "idempotencyRedisPrefix = ''idempotency''"

definition idempotencyKeySep :: string where
  "idempotencyKeySep = '':''"

definition idempotencyMethodIssue :: string where
  "idempotencyMethodIssue = ''IssueToken''"

definition idempotencyMethodRefresh :: string where
  "idempotencyMethodRefresh = ''RefreshToken''"

definition idempotencyAbortedMsg :: string where
  "idempotencyAbortedMsg = ''a request with this idempotency key is already in progress; retry''"

definition idempotencyFingerprintMismatchMsg :: string where
  "idempotencyFingerprintMismatchMsg =
     ''this idempotency key was previously used with different request content; use a new key''"

definition idempotencyKeyConflictMsg :: string where
  "idempotencyKeyConflictMsg =
     ''idempotency_key request field and x-idempotency-key metadata header are both set but differ; set only one''"

definition idempotencyEmptyTenantMsg :: string where
  "idempotencyEmptyTenantMsg = ''tenant_id not set; validation interceptor must run first''"

lemma method_names_differ [simp]:
  "grpcMethodIssueToken \<noteq> grpcMethodRefreshToken" "grpcMethodRefreshToken \<noteq> grpcMethodIssueToken"
  by (simp_all add: grpcMethodIssueToken_def grpcMethodRefreshToken_def)

lemma method_tags_differ [simp]:
  "idempotencyMethodIssue \<noteq> idempotencyMethodRefresh"
  "idempotencyMethodRefresh \<noteq> idempotencyMethodIssue"
  by (simp_all add: idempotencyMethodIssue_def idempotencyMethodRefresh_def)


section \<open>The client's key\<close>

definition resolveIdempotencyKey :: "string \<Rightarrow> string \<Rightarrow> go_error + string" where
  "resolveIdempotencyKey headerKey fieldKey =
     (if headerKey = '''' then Inr fieldKey
      else if fieldKey = '''' \<or> headerKey = fieldKey then Inr headerKey
      else Inl (StatusErr InvalidArgument idempotencyKeyConflictMsg))"

definition logIdempotencyKeyFieldUsage ::
  "ctx \<Rightarrow> string \<Rightarrow> string \<Rightarrow> 'a world_scheme \<Rightarrow> 'a world_scheme" where
  "logIdempotencyKeyFieldUsage c fieldKey headerKey s =
     (if fieldKey = '''' then s
      else if headerKey = '''' then
        log_info c ''deprecated idempotency_key request field used; x-idempotency-key header absent'' [] s
      else
        log_info c ''deprecated idempotency_key request field used alongside x-idempotency-key header (values match)'' [] s)"

text \<open>The header, as both handlers read it from the incoming metadata.\<close>

definition header_key :: "ctx \<Rightarrow> string" where
  "header_key c =
     (case incoming_md c of
        None \<Rightarrow> ''''
      | Some md \<Rightarrow> (case md_get md MetadataKeyIdempotencyKey of [] \<Rightarrow> '''' | v # _ \<Rightarrow> v))"

definition idempotency_redis_key :: "string \<Rightarrow> string \<Rightarrow> string \<Rightarrow> string" where
  "idempotency_redis_key tenantID method clientKey =
     idempotencyRedisPrefix @ idempotencyKeySep @ tenantID @ idempotencyKeySep @ method
       @ idempotencyKeySep @ clientKey"

lemma logIdempotencyKeyFieldUsage_frame [simp]:
  "clock (logIdempotencyKeyFieldUsage c f hk s) = clock s"
  "world.more (logIdempotencyKeyFieldUsage c f hk s) = world.more s"
  by (simp_all add: logIdempotencyKeyFieldUsage_def)


section \<open>The claim\<close>

definition idempotency_labels :: "string \<Rightarrow> string \<Rightarrow> string str_map" where
  "idempotency_labels result m = [(''result'', result), (''rpc_method'', m)]"

abbreviation count_idempotency :: "string \<Rightarrow> string \<Rightarrow> 'a world_scheme \<Rightarrow> 'a world_scheme" where
  "count_idempotency result m \<equiv> emit (ECounter MetricIdempotencyTotal (idempotency_labels result m))"

abbreviation aborted :: "go_error + response" where
  "aborted \<equiv> Inl (StatusErr Aborted idempotencyAbortedMsg)"

text \<open>Step 6: the claim was lost; the handler is not an argument.\<close>

definition lost_claim ::
  "codec \<Rightarrow> 'a world_scheme idempotency_store \<Rightarrow> string \<Rightarrow> ctx \<Rightarrow> string \<Rightarrow> string \<Rightarrow>
   'a world_scheme \<Rightarrow> (go_error + response) \<times> 'a world_scheme" where
  "lost_claim pc st m c key fp s =
     (case st_get st c key s of
        (Inl getErr, s1) \<Rightarrow>
          (aborted, log_warn c ''idempotency store Get error after failed claim; treating as concurrent duplicate''
             [AStr ''error'', AErr getErr] s1)
      | (Inr None, s1) \<Rightarrow> (aborted, s1)
      | (Inr (Some cached), s1) \<Rightarrow>
          (case resolveExistingRecord pc cached of
             Inl resolveErr \<Rightarrow>
               (aborted, log_warn c ''idempotency cached record unreadable; treating as concurrent duplicate''
                  [AStr ''error'', AErr resolveErr] s1)
           | Inr None \<Rightarrow> (aborted, s1)
           | Inr (Some (resp, storedFingerprint)) \<Rightarrow>
               if storedFingerprint \<noteq> '''' \<and> storedFingerprint \<noteq> fp then
                 (Inl (StatusErr FailedPrecondition idempotencyFingerprintMismatchMsg),
                  count_idempotency ''mismatch'' m s1)
               else (Inr (PairResp resp), count_idempotency ''hit'' m s1)))"

text \<open>Step 8: promote the claim, if the response is a pair and can be marshalled.\<close>

definition promote ::
  "codec \<Rightarrow> 'a world_scheme idempotency_store \<Rightarrow> ctx \<Rightarrow> string \<Rightarrow> string \<Rightarrow> response \<Rightarrow>
   'a world_scheme \<Rightarrow> 'a world_scheme" where
  "promote pc st c key fp resp s =
     (case resp of
        PairResp p \<Rightarrow>
          (case pb_marshal pc p of
             Inl _ \<Rightarrow> s
           | Inr marshaledBytes \<Rightarrow>
               (case st_set st c key (encodeCompletedRecord marshaledBytes fp) s of
                  (None, s1) \<Rightarrow> s1
                | (Some setErr, s1) \<Rightarrow>
                    log_warn c ''idempotency store Set (promote) error'' [AStr ''error'', AErr setErr] s1))
      | _ \<Rightarrow> s)"

text \<open>Steps 7 and 8: the claim was won, or could not be made.\<close>

definition won_claim ::
  "codec \<Rightarrow> 'a world_scheme idempotency_store \<Rightarrow> string \<Rightarrow> 'a world_scheme handler \<Rightarrow> ctx \<Rightarrow> request \<Rightarrow>
   string \<Rightarrow> string \<Rightarrow> 'a world_scheme \<Rightarrow> (go_error + response) \<times> 'a world_scheme" where
  "won_claim pc st m h c req key fp s =
     (case h c req s of
        (Inl handlerErr, s1) \<Rightarrow> (Inl handlerErr, count_idempotency ''miss'' m s1)
      | (Inr resp, s1) \<Rightarrow> (Inr resp, count_idempotency ''miss'' m (promote pc st c key fp resp s1)))"

text \<open>Steps 5 to 8.\<close>

definition claim_and_run ::
  "codec \<Rightarrow> 'a world_scheme idempotency_store \<Rightarrow> string \<Rightarrow> 'a world_scheme handler \<Rightarrow> ctx \<Rightarrow> request \<Rightarrow>
   string \<Rightarrow> string \<Rightarrow> 'a world_scheme \<Rightarrow> (go_error + response) \<times> 'a world_scheme" where
  "claim_and_run pc st m h c req key fp s =
     (case st_setnx st c key idempotencyPendingRecord s of
        (Inl claimErr, s1) \<Rightarrow>
          won_claim pc st m h c req key fp
            (log_warn c ''idempotency store SetNX (claim) error; proceeding without concurrent-claim protection''
               [AStr ''error'', AErr claimErr] s1)
      | (Inr claimed, s1) \<Rightarrow>
          if claimed then won_claim pc st m h c req key fp s1 else lost_claim pc st m c key fp s1)"


section \<open>The interceptor\<close>

definition handleIssueTokenIdempotency ::
  "codec \<Rightarrow> 'a world_scheme idempotency_store \<Rightarrow> 'a world_scheme interceptor" where
  "handleIssueTokenIdempotency pc st m h c req s =
     (case req of
        IssueReq issueReq \<Rightarrow>
          if i_tenant_id issueReq = '''' then
            (Inl (StatusErr Internal idempotencyEmptyTenantMsg),
             log_error c ''idempotency interceptor: empty tenant_id reached the interceptor; validation must run first''
               [AStr ''method'', AStr m] s)
          else
            let headerKey = header_key c in
            (case resolveIdempotencyKey headerKey (i_idempotency_key issueReq) of
               Inl keyErr \<Rightarrow> (Inl keyErr, s)
             | Inr clientKey \<Rightarrow>
                 let s1 = logIdempotencyKeyFieldUsage c (i_idempotency_key issueReq) headerKey s in
                 if clientKey = '''' then h c req s1
                 else
                   claim_and_run pc st m h c req
                     (idempotency_redis_key (i_tenant_id issueReq) idempotencyMethodIssue clientKey)
                     (computeIssueFingerprint issueReq) s1)
      | _ \<Rightarrow>
          h c req (log_error c ''idempotency interceptor: req type assertion to *IssueTokenRequest failed'' [] s))"

definition handleRefreshTokenIdempotency ::
  "codec \<Rightarrow> 'a world_scheme idempotency_store \<Rightarrow> 'a world_scheme interceptor" where
  "handleRefreshTokenIdempotency pc st m h c req s =
     (case req of
        RefreshReq refreshReq \<Rightarrow>
          if f_tenant_id refreshReq = '''' then
            (Inl (StatusErr Internal idempotencyEmptyTenantMsg),
             log_error c ''idempotency interceptor: empty tenant_id reached the interceptor; validation must run first''
               [AStr ''method'', AStr m] s)
          else
            let headerKey = header_key c in
            (case resolveIdempotencyKey headerKey (f_idempotency_key refreshReq) of
               Inl keyErr \<Rightarrow> (Inl keyErr, s)
             | Inr clientKey \<Rightarrow>
                 let s1 = logIdempotencyKeyFieldUsage c (f_idempotency_key refreshReq) headerKey s in
                 if clientKey = '''' then h c req s1
                 else
                   claim_and_run pc st m h c req
                     (idempotency_redis_key (f_tenant_id refreshReq) idempotencyMethodRefresh clientKey)
                     (computeRefreshFingerprint refreshReq) s1)
      | _ \<Rightarrow>
          h c req (log_error c ''idempotency interceptor: req type assertion to *RefreshTokenRequest failed'' [] s))"

definition NewIdempotencyInterceptor ::
  "codec \<Rightarrow> 'a world_scheme idempotency_store \<Rightarrow> 'a world_scheme interceptor" where
  "NewIdempotencyInterceptor pc st m h c req s =
     (if m \<noteq> grpcMethodIssueToken \<and> m \<noteq> grpcMethodRefreshToken then h c req s
      else if m = grpcMethodIssueToken then handleIssueTokenIdempotency pc st m h c req s
      else handleRefreshTokenIdempotency pc st m h c req s)"


section \<open>The specification of a request's key\<close>

text \<open>
  What a call is to the interceptor: it bypasses it, is refused, or is governed by a store
  key and a fingerprint.
\<close>

datatype idem_class = Bypass | Refused go_error | Keyed string string

definition keyed_by :: "string \<Rightarrow> string \<Rightarrow> string \<Rightarrow> string \<Rightarrow> string \<Rightarrow> idem_class" where
  "keyed_by tenant method hkey fkey fp =
     (if tenant = '''' then Refused (StatusErr Internal idempotencyEmptyTenantMsg)
      else if hkey \<noteq> '''' \<and> fkey \<noteq> '''' \<and> hkey \<noteq> fkey
        then Refused (StatusErr InvalidArgument idempotencyKeyConflictMsg)
      else if hkey = '''' \<and> fkey = '''' then Bypass
      else Keyed (idempotency_redis_key tenant method (if hkey = '''' then fkey else hkey)) fp)"

definition idem_class :: "string \<Rightarrow> ctx \<Rightarrow> request \<Rightarrow> idem_class" where
  "idem_class m c req =
     (case req of
        IssueReq r \<Rightarrow>
          if m = grpcMethodIssueToken
          then keyed_by (i_tenant_id r) idempotencyMethodIssue (header_key c) (i_idempotency_key r)
                 (computeIssueFingerprint r)
          else Bypass
      | RefreshReq r \<Rightarrow>
          if m = grpcMethodRefreshToken
          then keyed_by (f_tenant_id r) idempotencyMethodRefresh (header_key c) (f_idempotency_key r)
                 (computeRefreshFingerprint r)
          else Bypass
      | _ \<Rightarrow> Bypass)"

lemma only_logged_usage [simp]: "only_logged s (logIdempotencyKeyFieldUsage c f hk s)"
  by (simp add: logIdempotencyKeyFieldUsage_def)

lemma resolve_cases:
  "resolveIdempotencyKey hk fk =
     (if hk \<noteq> '''' \<and> fk \<noteq> '''' \<and> hk \<noteq> fk then Inl (StatusErr InvalidArgument idempotencyKeyConflictMsg)
      else Inr (if hk = '''' then fk else hk))"
  by (auto simp: resolveIdempotencyKey_def)

lemma interceptor_bypass:
  assumes "idem_class m c req = Bypass"
  shows "\<exists>s1. only_logged s s1 \<and> NewIdempotencyInterceptor pc st m h c req s = h c req s1"
  using assms
  by (cases req)
    (auto simp: idem_class_def keyed_by_def NewIdempotencyInterceptor_def resolve_cases Let_def
      handleIssueTokenIdempotency_def handleRefreshTokenIdempotency_def split: if_splits
      intro: only_logged_refl only_logged_emit only_logged_usage)

lemma interceptor_refused:
  assumes "idem_class m c req = Refused e"
  shows "\<exists>s1. only_logged s s1 \<and> NewIdempotencyInterceptor pc st m h c req s = (Inl e, s1)"
  using assms
  by (cases req)
    (auto simp: idem_class_def keyed_by_def NewIdempotencyInterceptor_def resolve_cases Let_def
      handleIssueTokenIdempotency_def handleRefreshTokenIdempotency_def split: if_splits
      intro: only_logged_refl only_logged_emit only_logged_usage)

lemma interceptor_keyed:
  assumes "idem_class m c req = Keyed key fp"
  shows "\<exists>s1. only_logged s s1 \<and>
    (\<forall>h. NewIdempotencyInterceptor pc st m h c req s = claim_and_run pc st m h c req key fp s1)"
  using assms
  by (cases req)
    (auto simp: idem_class_def keyed_by_def NewIdempotencyInterceptor_def resolve_cases Let_def
      handleIssueTokenIdempotency_def handleRefreshTokenIdempotency_def split: if_splits
      intro: only_logged_refl only_logged_emit only_logged_usage)


section \<open>Runs of the claim\<close>

text \<open>The response of a governed call that finds the record \<open>v\<close> at its key.\<close>

definition answer :: "codec \<Rightarrow> string \<Rightarrow> bytes \<Rightarrow> go_error + response" where
  "answer pc fp v =
     (case resolveExistingRecord pc v of
        Inl _ \<Rightarrow> aborted
      | Inr None \<Rightarrow> aborted
      | Inr (Some (p, fp')) \<Rightarrow>
          if fp' \<noteq> '''' \<and> fp' \<noteq> fp then Inl (StatusErr FailedPrecondition idempotencyFingerprintMismatchMsg)
          else Inr (PairResp p))"

text \<open>A store whose calls do not fail, and a handler during which time passes.\<close>

definition reachable :: "'s idempotency_store \<Rightarrow> bool" where
  "reachable st \<longleftrightarrow>
     (\<forall>c k v s. (\<exists>r. fst (st_get st c k s) = Inr r) \<and> (\<exists>r. fst (st_setnx st c k v s) = Inr r) \<and>
        fst (st_set st c k v s) = None)"

definition time_passes :: "'a world_scheme handler \<Rightarrow> bool" where
  "time_passes h \<longleftrightarrow> (\<forall>c req s. clock s \<le> clock (snd (h c req s)))"

lemma reachable_get: "reachable st \<Longrightarrow> st_get st c k s = (r, s') \<Longrightarrow> \<exists>v. r = Inr v"
  unfolding reachable_def by (metis fst_conv)

lemma reachable_setnx: "reachable st \<Longrightarrow> st_setnx st c k v s = (r, s') \<Longrightarrow> \<exists>ok. r = Inr ok"
  unfolding reachable_def by (metis fst_conv)

lemma reachable_set: "reachable st \<Longrightarrow> st_set st c k v s = (r, s') \<Longrightarrow> r = None"
  unfolding reachable_def by (metis fst_conv)

text \<open>Whatever the store does, the response of the handler is passed on as it is.\<close>

lemma fst_won_claim: "fst (won_claim pc st m h c req key fp s) = fst (h c req s)"
  by (simp add: won_claim_def split: prod.splits sum.splits)

lemma claim_error_runs_handler:
  assumes "st_setnx st c key idempotencyPendingRecord s = (Inl e, s1)"
  shows "\<exists>s2. only_logged s1 s2 \<and>
    claim_and_run pc st m h c req key fp s = won_claim pc st m h c req key fp s2"
  using assms by (auto simp: claim_and_run_def intro: only_logged_emit)

lemma get_error_aborts:
  assumes "st_setnx st c key idempotencyPendingRecord s = (Inr False, s1)"
    and "st_get st c key s1 = (Inl e, s2)"
  shows "fst (claim_and_run pc st m h c req key fp s) = aborted"
  using assms by (simp add: claim_and_run_def lost_claim_def)

lemma lost_claim_result:
  assumes "st_get st c key s = (Inr (Some v), s1)"
  shows "\<exists>s2. only_logged s1 s2 \<and> lost_claim pc st m c key fp s = (answer pc fp v, s2)"
proof (cases "resolveExistingRecord pc v")
  case (Inl e)
  with assms show ?thesis by (auto simp: lost_claim_def answer_def intro: only_logged_emit)
next
  case (Inr r)
  with assms show ?thesis
    by (cases r) (auto simp: lost_claim_def answer_def intro: only_logged_emit only_logged_refl)
qed

context idempotency_store begin

lemma db_logged: "only_logged s s' \<Longrightarrow> db s' = db s"
  using st_rest [of s' s] by (simp add: only_logged_def)

lemma promote_frame:
  "clock s \<le> clock (promote pc st c key fp resp s)"
proof -
  have "clock s \<le> clock s'" if "st_set st c key v s = (r, s')" for v r s'
    using st_frame(3) [OF that] by (simp add: call_frame_def)
  then show ?thesis
    by (auto simp: promote_def split: response.splits sum.splits prod.splits option.splits)
qed

lemma promote_stores:
  assumes "reachable st" and "pb_marshal pc p = Inr b"
  shows "\<exists>t. clock s \<le> t \<and> db (promote pc st c key fp (PairResp p) s) =
    put_key (db s) key (encodeCompletedRecord b fp) t ttl"
proof -
  obtain r s' where r: "st_set st c key (encodeCompletedRecord b fp) s = (r, s')" by fastforce
  with reachable_set [OF assms(1)] have "r = None" by blast
  with stored r assms(2) show ?thesis by (fastforce simp: promote_def during_def)
qed

lemma won_claim_clock:
  assumes "time_passes h" and "won_claim pc st m h c req key fp s = (r, s')"
  shows "clock s \<le> clock s'"
proof -
  obtain q s1 where q: "h c req s = (q, s1)" by fastforce
  with assms(1) have "clock s \<le> clock s1" unfolding time_passes_def by (metis snd_conv)
  moreover have "clock s1 \<le> clock s'"
    using assms(2) q promote_frame [of s1] by (auto simp: won_claim_def split: sum.splits)
  ultimately show ?thesis by simp
qed

text \<open>On a free key the handler runs, whether or not the claim reached the store.\<close>

lemma free_claim_won:
  assumes "live (db s) (clock s) key = None"
  shows "\<exists>s1. clock s \<le> clock s1 \<and>
    (\<forall>h req. claim_and_run pc st m h c req key fp s = won_claim pc st m h c req key fp s1)"
proof -
  obtain r u where nx: "st_setnx st c key idempotencyPendingRecord s = (r, u)" by fastforce
  then have clock: "clock s \<le> clock u" using st_frame(2) by (simp add: call_frame_def)
  have "r \<noteq> Inr False"
  proof
    assume "r = Inr False"
    with nx have "st_setnx st c key idempotencyPendingRecord s = (Inr False, u)" by simp
    from claim_lost [OF this] obtain t where "clock s \<le> t" "live (db s) t key \<noteq> None"
      by (auto simp: during_def)
    with live_expired [OF assms this(1)] show False by simp
  qed
  show ?thesis
  proof (cases r)
    case (Inl e)
    let ?msg = "''idempotency store SetNX (claim) error; proceeding without concurrent-claim protection''"
    show ?thesis
      by (rule exI [of _ "log_warn c ?msg [AStr ''error'', AErr e] u"])
        (use nx clock Inl in \<open>simp add: claim_and_run_def\<close>)
  next
    case (Inr claimed)
    with \<open>r \<noteq> Inr False\<close> nx have "st_setnx st c key idempotencyPendingRecord s = (Inr True, u)"
      by (cases claimed) simp_all
    with clock show ?thesis by (intro exI [of _ u]) (simp add: claim_and_run_def)
  qed
qed

text \<open>The one that lost the claim leaves the store alone.\<close>

lemma lost_claim_frame:
  assumes "lost_claim pc st m c key fp s = (q, s')"
  shows "clock s \<le> clock s' \<and> db s' = db s"
proof -
  obtain a u where a: "st_get st c key s = (a, u)" by fastforce
  from st_frame(1) [OF a] have "clock s \<le> clock u" "db u = db s" by (simp_all add: call_frame_def)
  moreover have "only_logged u s'"
    using assms a by (auto simp: lost_claim_def split: sum.splits option.splits if_splits)
  ultimately show ?thesis using db_logged [of u s'] by (simp add: only_logged_def)
qed

text \<open>While another request's claim is held, a call that the store answers is aborted.\<close>

lemma held_claim_aborts:
  assumes held: "\<And>t. live (db s) t key = Some idempotencyPendingRecord"
    and nx: "st_setnx st c key idempotencyPendingRecord s = (Inr claimed, u)"
  shows "\<exists>s'. db s' = db s \<and> (\<forall>h req. claim_and_run pc st m h c req key fp s = (aborted, s'))"
proof -
  have "\<not> claimed" using no_claim_while_live [OF _ held] nx by (cases claimed) auto
  with nx have lose: "st_setnx st c key idempotencyPendingRecord s = (Inr False, u)" by simp
  then have dbu: "db u = db s" using claim_lost by blast
  obtain r s' where lost: "lost_claim pc st m c key fp u = (r, s')" by fastforce
  obtain w v where get: "st_get st c key u = (w, v)" by fastforce
  have "r = aborted"
  proof (cases w)
    case (Inr x)
    with read_while_live get held dbu have "x = Some idempotencyPendingRecord" by metis
    with lost get Inr show ?thesis by (simp add: lost_claim_def resolve_pending)
  qed (use lost get in \<open>simp add: lost_claim_def\<close>)
  with lost_claim_frame [OF lost] lost lose dbu show ?thesis
    by (intro exI [of _ s']) (simp add: claim_and_run_def)
qed

text \<open>
  A call that returns while its key is live lost the claim: its response is the answer the
  record gives, the store is as it was, and the handler has no part in it.
\<close>

lemma live_key_answers:
  assumes up: "reachable st" and h: "time_passes h"
    and live: "live (db s) (clock s') key = Some v"
    and run: "claim_and_run pc st m h c req key fp s = (r, s')"
  shows "r = answer pc fp v \<and> db s' = db s \<and>
    (\<forall>h'. claim_and_run pc st m h' c req key fp s = (r, s'))"
proof -
  obtain claimed sA where nx: "st_setnx st c key idempotencyPendingRecord s = (Inr claimed, sA)"
    using reachable_setnx [OF up] by (metis surj_pair)
  have "\<not> claimed"
  proof
    assume claimed
    with run nx have "won_claim pc st m h c req key fp sA = (r, s')"
      by (simp add: claim_and_run_def)
    with won_claim_clock h have "clock sA \<le> clock s'" by blast
    with live have "live (db s) (clock sA) key = Some v" by (rule live_mono)
    from no_claim_while_live [OF _ this] nx \<open>claimed\<close> show False by simp
  qed
  with nx run have lost: "lost_claim pc st m c key fp sA = (r, s')" and
      all: "\<forall>h'. claim_and_run pc st m h' c req key fp s = (r, s')"
    by (simp_all add: claim_and_run_def)
  from claim_lost nx \<open>\<not> claimed\<close> have dbA: "db sA = db s" by fastforce
  obtain w sB where get: "st_get st c key sA = (Inr w, sB)"
    using reachable_get [OF up] by (metis surj_pair)
  have "clock sB \<le> clock s'"
    using lost get by (auto simp: lost_claim_def split: option.splits sum.splits prod.splits if_splits)
  with live have "live (db sA) (clock sB) key = Some v" unfolding dbA by (rule live_mono)
  with read_while_live get have "w = Some v" by blast
  with lost_claim_result get obtain sC where
    "only_logged sB sC" "lost_claim pc st m c key fp sA = (answer pc fp v, sC)" by metis
  with lost all st_frame(1) [OF get] db_logged [of sB sC] dbA show ?thesis by simp
qed

text \<open>A call that returns a pair leaves a record of that pair at its key.\<close>

lemma pair_leaves_record:
  assumes up: "reachable st" and pc: "codec_ok pc" and b: "pb_marshal pc p = Inr b"
    and fp: "valid_utf8 fp" "fp \<noteq> ''''"
    and run: "claim_and_run pc st m h c req key fp s = (Inr (PairResp p), s')"
  shows "\<exists>v dl. db s' key = Some (v, dl) \<and> answer pc fp v = Inr (PairResp p)"
proof -
  obtain claimed sA where nx: "st_setnx st c key idempotencyPendingRecord s = (Inr claimed, sA)"
    using reachable_setnx [OF up] by (metis surj_pair)
  show ?thesis
  proof (cases claimed)
    case True
    with run nx have won: "won_claim pc st m h c req key fp sA = (Inr (PairResp p), s')"
      by (simp add: claim_and_run_def)
    then obtain sH where "h c req sA = (Inr (PairResp p), sH)"
      and s': "s' = count_idempotency ''miss'' m (promote pc st c key fp (PairResp p) sH)"
      by (auto simp: won_claim_def split: prod.splits sum.splits)
    obtain t where "db (promote pc st c key fp (PairResp p) sH) =
        put_key (db sH) key (encodeCompletedRecord b fp) t ttl"
      using promote_stores [OF up b] by blast
    moreover have "db s' = db (promote pc st c key fp (PairResp p) sH)"
      unfolding s' by (intro db_logged only_logged_emit)
    moreover have "answer pc fp (encodeCompletedRecord b fp) = Inr (PairResp p)"
      using resolve_completed [OF pc b fp(1)] by (simp add: answer_def)
    ultimately show ?thesis by (simp add: put_key_def)
  next
    case False
    with run nx have lost: "lost_claim pc st m c key fp sA = (Inr (PairResp p), s')"
      by (simp add: claim_and_run_def)
    obtain w sB where get: "st_get st c key sA = (Inr w, sB)"
      using reachable_get [OF up] by (metis surj_pair)
    with lost obtain v where w: "w = Some v" by (cases w) (simp_all add: lost_claim_def)
    with lost_claim_result get lost obtain sC where
      sC: "only_logged sB sC" "(answer pc fp v, sC) = (Inr (PairResp p), s')" by metis
    from hit get w obtain t where "live (db sA) t key = Some v" by blast
    then obtain dl where "db sA key = Some (v, dl)"
      by (auto simp: live_def split: option.splits if_splits)
    moreover have "db s' = db sA" using sC st_frame(1) [OF get] db_logged [of sB sC] by simp
    ultimately show ?thesis using sC by auto
  qed
qed

text \<open>A claim that is won is on record until the handler has returned.\<close>

lemma won_is_pending:
  assumes "st_setnx st c key idempotencyPendingRecord s = (Inr True, s1)"
  shows "\<exists>t. clock s \<le> t \<and> db s1 key = Some (idempotencyPendingRecord, expiry t pendingTTL)"
  using claim_won [OF assms] by (auto simp: during_def put_key_def)

end

text \<open>A governed call has a proper fingerprint.\<close>

lemma keyed_fingerprint:
  assumes "idem_class m c req = Keyed key fp"
  shows "valid_utf8 fp" and "fp \<noteq> ''''"
proof -
  have "\<exists>v. fp = computeFingerprint v"
    using assms
    by (cases req) (auto simp: idem_class_def keyed_by_def computeIssueFingerprint_def
        computeRefreshFingerprint_def split: if_splits)
  then show "valid_utf8 fp" "fp \<noteq> ''''" by auto
qed

end
