(* ===== verification/Idem_Properties.thy ===== *)
theory Idem_Properties
  imports Idempotency
begin

text \<open>
  The guarantees of the idempotency interceptor, for any store that keeps the contract of
  \<^verbatim>\<open>IdempotencyStore\<close> (the locale \<open>idempotency_store\<close>, interpreted on the Redis store), and
  runs of it on the server in memory.
\<close>


section \<open>Runs in memory\<close>

text \<open>The Redis store on the server in memory, with a day and half a minute of TTL.\<close>

definition mem_store :: "'b mem_world_scheme idempotency_store" where
  "mem_store = NewRedisIdempotencyStore mem_redis (24 * nsHour) (30 * nsSecond)"

interpretation mem_idem: redis_idempotency mem_redis mem_db "24 * nsHour" "30 * nsSecond"
  by unfold_locales (simp add: KeepTTL_def nsHour_def nsMinute_def nsSecond_def)

lemma mem_store_contract: "idempotency_store mem_store mem_db (24 * nsHour) (30 * nsSecond)"
  unfolding mem_store_def by (rule mem_idem.redis_store.idempotency_store_axioms)

lemma mem_store_runs [run_simps]:
  "st_get mem_store c k s = (Inr (live (mem_db s) (clock s) k), s)"
  "st_setnx mem_store c k v s =
     (if live (mem_db s) (clock s) k = None
      then (Inr True, s\<lparr>mem_db := put_key (mem_db s) k v (clock s) (30 * nsSecond)\<rparr>) else (Inr False, s))"
  "st_set mem_store c k v s = (None, s\<lparr>mem_db := put_key (mem_db s) k v (clock s) (24 * nsHour)\<rparr>)"
  by (simp_all add: mem_store_def NewRedisIdempotencyStore_def RedisGet_def RedisSetNX_def
      RedisSet_def mem_redis_def set_key_put [OF mem_idem.own_ttl] split: option.split)

lemma mem_store_reachable: "reachable mem_store"
  by (auto simp: reachable_def run_simps)

definition empty_world :: mem_world where
  "empty_world = \<lparr>clock = 0, trace = [], mem_db = Map.empty\<rparr>"

lemma clock_empty: "clock empty_world = 0"
  by (simp add: empty_world_def)

lemma day_positive: "0 < 24 * nsHour"
  by (simp add: nsHour_def nsMinute_def nsSecond_def)

lemma expiry_day: "expiry 0 (24 * nsHour) = Some (24 * nsHour)"
  by (simp add: expiry_def nsHour_def nsMinute_def nsSecond_def)

definition sample_pair :: token_pair where
  "sample_pair = \<lparr>access_token = ''at'', refresh_token = ''rt'',
     access_token_expires_in = 2, refresh_token_expires_in = 3\<rparr>"

definition other_pair :: token_pair where
  "other_pair = sample_pair\<lparr>access_token := ''xx''\<rparr>"

definition sample_issue :: issue_token_request where
  "sample_issue = \<lparr>i_sub = ''u'', i_tenant_id = ''t'', i_idempotency_key = ''k'', i_claims = None,
     i_audiences = [''b'', ''a'']\<rparr>"

definition returning :: "token_pair \<Rightarrow> 'a world_scheme handler" where
  "returning p c req s = (Inr (PairResp p), s)"

lemma returning_passes: "time_passes (returning p)"
  by (simp add: time_passes_def returning_def)

lemma db_emit [run_simps]: "mem_db (emit e s) = mem_db s"
  by (rule mem_db_rest) simp

text \<open>The key and the state of the sample request.\<close>

lemma sample_keyed:
  "idem_class grpcMethodIssueToken background (IssueReq sample_issue) =
     Keyed (idempotency_redis_key ''t'' idempotencyMethodIssue ''k'') (computeIssueFingerprint sample_issue)"
  by (simp add: idem_class_def keyed_by_def sample_issue_def header_key_def background_def)

definition sample_call ::
  "issue_token_request \<Rightarrow> token_pair \<Rightarrow> mem_world \<Rightarrow> (go_error + response) \<times> mem_world" where
  "sample_call r p s =
     NewIdempotencyInterceptor plain_codec mem_store grpcMethodIssueToken (returning p) background
       (IssueReq r) s"

lemma plain_marshal: "\<exists>b. pb_marshal plain_codec p = Inr b"
  by (simp add: plain_codec_def)

text \<open>A first call on a free key runs its handler, and leaves a record with the full TTL.\<close>

lemma first_call:
  assumes "idem_class m c req = Keyed key fp" and "live (mem_db s) (clock s) key = None"
    and "pb_marshal plain_codec p = Inr b"
  shows "\<exists>s'. NewIdempotencyInterceptor plain_codec mem_store m (returning p) c req s = (Inr (PairResp p), s')
    \<and> clock s' = clock s
    \<and> mem_db s' key = Some (encodeCompletedRecord b fp, expiry (clock s) (24 * nsHour))"
proof -
  from interceptor_keyed [OF assms(1)] obtain s1 where s1: "only_logged s s1"
    "NewIdempotencyInterceptor plain_codec mem_store m (returning p) c req s =
      claim_and_run plain_codec mem_store m (returning p) c req key fp s1" by blast
  have "mem_db s1 = mem_db s" "clock s1 = clock s"
    using s1(1) mem_db_rest by (auto simp: only_logged_def)
  with assms(2,3) show ?thesis
    unfolding s1(2)
    by (simp add: claim_and_run_def won_claim_def returning_def promote_def run_simps put_key_def)
qed

lemma mem_clock:
  "clock (snd (claim_and_run plain_codec mem_store m (returning p) c req key fp s)) = clock s"
  by (simp add: claim_and_run_def won_claim_def lost_claim_def returning_def promote_def run_simps
      plain_codec_def split: option.splits sum.splits prod.splits)

lemma mem_clock_interceptor:
  assumes "idem_class m c req = Keyed key fp"
  shows "clock (snd (NewIdempotencyInterceptor plain_codec mem_store m (returning p) c req s)) = clock s"
  using interceptor_keyed [OF assms, where s = s and st = mem_store and pc = plain_codec]
  by (auto simp: mem_clock only_logged_def)


section \<open>The answer of a live key\<close>

text \<open>
  While the key of a governed call is live, the answer is that of the record, the store is
  left as it is, and the handler has no part in it.
\<close>

lemma governed_answer:
  assumes contract: "idempotency_store st db ttl pendingTTL" and up: "reachable st"
    and keyed: "idem_class m c req = Keyed key fp"
    and run: "NewIdempotencyInterceptor pc st m h c req s = (r, s')" and h: "time_passes h"
    and entry: "db s key = Some (v, dl)" and live: "live (db s) (clock s') key \<noteq> None"
  shows "r = answer pc fp v \<and> db s' = db s \<and>
    (\<forall>h''. NewIdempotencyInterceptor pc st m h'' c req s = (r, s'))"
proof -
  from interceptor_keyed [OF keyed] obtain t where t: "only_logged s t"
    "\<forall>h. NewIdempotencyInterceptor pc st m h c req s = claim_and_run pc st m h c req key fp t"
    by blast
  have dbt: "db t = db s" by (rule idempotency_store.db_logged [OF contract t(1)])
  have "live (db t) (clock s') key = Some v"
    unfolding dbt by (rule live_entry [OF entry live])
  moreover have "claim_and_run pc st m h c req key fp t = (r, s')"
    using run t(2) by metis
  ultimately have "r = answer pc fp v \<and> db s' = db t \<and>
      (\<forall>h''. claim_and_run pc st m h'' c req key fp t = (r, s'))"
    by (rule idempotency_store.live_key_answers [OF contract up h])
  with t(2) dbt show ?thesis by metis
qed


text \<open>The world after the sample call, as the later calls find it.\<close>

abbreviation sample_key :: string where
  "sample_key \<equiv> idempotency_redis_key ''t'' idempotencyMethodIssue ''k''"

definition sample_world :: mem_world where
  "sample_world = snd (sample_call sample_issue sample_pair empty_world)"

lemma empty_free: "live (mem_db empty_world) (clock empty_world) k = None"
  by (simp add: empty_world_def live_def)

lemma sample_first_run:
  "sample_call sample_issue sample_pair empty_world = (Inr (PairResp sample_pair), sample_world) \<and>
   clock sample_world = 0 \<and> (\<exists>v. mem_db sample_world sample_key = Some (v, Some (24 * nsHour)))"
proof -
  obtain b where b: "pb_marshal plain_codec sample_pair = Inr b" using plain_marshal by blast
  from first_call [OF sample_keyed empty_free b]
  show ?thesis unfolding sample_world_def sample_call_def clock_empty expiry_day by auto
qed

lemmas sample_first = sample_first_run [THEN conjunct1]

lemma sample_live:
  assumes "sample_call r p sample_world = (q, s3)"
    and "idem_class grpcMethodIssueToken background (IssueReq r) = Keyed sample_key fp"
  shows "live (mem_db sample_world) (clock s3) sample_key \<noteq> None"
proof -
  have "clock s3 = 0"
    using mem_clock_interceptor [OF assms(2), where s = sample_world and p = p] assms(1) sample_first_run
    by (simp add: sample_call_def)
  with sample_first_run day_positive show ?thesis by (auto simp: live_def)
qed


section \<open>Retries\<close>

lemma retry_answers:
  assumes contract: "idempotency_store st db ttl pendingTTL" and up: "reachable st"
    and pc: "codec_ok pc" "pb_marshal pc p = Inr b"
    and first: "idem_class m c req = Keyed key fp"
      "NewIdempotencyInterceptor pc st m h c req s = (Inr (PairResp p), s1)"
    and retry: "idem_class m c' req' = Keyed key fp"
      "NewIdempotencyInterceptor pc st m h' c' req' s2 = (r, s3)" "time_passes h'"
    and kept: "db s2 key = db s1 key" "live (db s2) (clock s3) key \<noteq> None"
  shows "r = Inr (PairResp p) \<and> (\<forall>h''. NewIdempotencyInterceptor pc st m h'' c' req' s2 = (r, s3))"
proof -
  note fp = keyed_fingerprint [OF first(1)]
  from interceptor_keyed [OF first(1)] first(2) obtain t1 where
    "claim_and_run pc st m h c req key fp t1 = (Inr (PairResp p), s1)" by metis
  from idempotency_store.pair_leaves_record [OF contract up pc fp this] obtain v dl where
    v: "db s1 key = Some (v, dl)" "answer pc fp v = Inr (PairResp p)" by blast
  have "db s2 key = Some (v, dl)" using kept(1) v(1) by simp
  from governed_answer [OF contract up retry this kept(2)] v(2) show ?thesis by simp
qed

text \<open>
  C1: A retry returns the pair of the first call.  If a call with an idempotency key answered
  with a pair, then a later call with the same key and fingerprint, made while the record
  lives, answers with the very same pair, and its handler does not run: the call is the same
  for every handler it could have.
\<close>
theorem idempotent_retry:
  assumes contract: "idempotency_store st db ttl pendingTTL" and up: "reachable st"
    and pc: "codec_ok pc" "pb_marshal pc p = Inr b"
    and first: "idem_class m c req = Keyed key fp"
      "NewIdempotencyInterceptor pc st m h c req s = (Inr (PairResp p), s1)"
    and retry: "idem_class m c' req' = Keyed key fp"
      "NewIdempotencyInterceptor pc st m h' c' req' s2 = (r, s3)" "time_passes h'"
    and kept: "db s2 key = db s1 key" "live (db s2) (clock s3) key \<noteq> None"
  shows "r = Inr (PairResp p) \<and> (\<forall>h''. NewIdempotencyInterceptor pc st m h'' c' req' s2 = (r, s3))"
  by (rule retry_answers [OF assms])

theorem idempotent_retry_witness:
  "fst (sample_call sample_issue other_pair sample_world) = Inr (PairResp sample_pair)"
proof -
  obtain b where b: "pb_marshal plain_codec sample_pair = Inr b" using plain_marshal by blast
  obtain r s3 where r: "sample_call sample_issue other_pair sample_world = (r, s3)" by fastforce
  from idempotent_retry [OF mem_store_contract mem_store_reachable plain_codec_ok b sample_keyed
      sample_first [unfolded sample_call_def] sample_keyed r [unfolded sample_call_def] returning_passes
      refl sample_live [OF r sample_keyed]]
  show ?thesis by (simp add: r)
qed


section \<open>Concurrent and conflicting use of a key\<close>

text \<open>
  C4: A concurrent duplicate fails fast.  While another request holds the claim of the key (it
  won the atomic claim and has not been promoted), a governed call answers with codes.Aborted,
  whatever its content, does not run its handler and leaves the store as it is.
\<close>
theorem concurrent_duplicate_aborts:
  assumes contract: "idempotency_store st db ttl pendingTTL" and up: "reachable st"
    and claimed: "st_setnx st c0 key idempotencyPendingRecord s0 = (Inr True, s1)"
    and dup: "idem_class m c req = Keyed key fp"
      "NewIdempotencyInterceptor pc st m h c req s2 = (r, s3)" "time_passes h"
    and kept: "db s2 key = db s1 key" "live (db s2) (clock s3) key \<noteq> None"
  shows "r = Inl (StatusErr Aborted idempotencyAbortedMsg) \<and> db s3 = db s2 \<and>
    (\<forall>h''. NewIdempotencyInterceptor pc st m h'' c req s2 = (r, s3))"
proof -
  from idempotency_store.won_is_pending [OF contract claimed] kept(1) obtain t where
    "db s2 key = Some (idempotencyPendingRecord, expiry t pendingTTL)" by auto
  from governed_answer [OF contract up dup this kept(2)] show ?thesis
    by (simp add: answer_def resolve_pending)
qed

definition claimed_world :: mem_world where
  "claimed_world = empty_world\<lparr>mem_db :=
     put_key Map.empty (idempotency_redis_key ''t'' idempotencyMethodIssue ''k'') idempotencyPendingRecord 0
       (30 * nsSecond)\<rparr>"

theorem concurrent_duplicate_aborts_witness:
  "fst (sample_call sample_issue sample_pair claimed_world) =
     Inl (StatusErr Aborted idempotencyAbortedMsg)"
proof -
  have won: "st_setnx mem_store background sample_key idempotencyPendingRecord empty_world = (Inr True, claimed_world)"
    by (simp add: run_simps claimed_world_def empty_world_def live_def)
  obtain r s3 where r: "sample_call sample_issue sample_pair claimed_world = (r, s3)" by fastforce
  have "clock s3 = 0"
    using mem_clock_interceptor [OF sample_keyed, where s = claimed_world and p = sample_pair] r
    by (simp add: sample_call_def claimed_world_def clock_empty)
  then have "live (mem_db claimed_world) (clock s3) sample_key \<noteq> None"
    by (simp add: claimed_world_def expiry_def nsSecond_def)
  from concurrent_duplicate_aborts [OF mem_store_contract mem_store_reachable won sample_keyed
      r [unfolded sample_call_def] returning_passes refl this]
  show ?thesis by (simp add: r)
qed

text \<open>
  A call that ran on a free key and answered with a pair leaves the record of that pair, with
  its own fingerprint.
\<close>

lemma fresh_call_record:
  assumes contract: "idempotency_store st db ttl pendingTTL" and up: "reachable st"
    and b: "pb_marshal pc p = Inr b" and keyed: "idem_class m c req = Keyed key fp"
    and free: "live (db s) (clock s) key = None"
    and run: "NewIdempotencyInterceptor pc st m h c req s = (Inr (PairResp p), s1)"
  shows "\<exists>u. db s1 key = Some (encodeCompletedRecord b fp, expiry u ttl) \<and> (time_passes h \<longrightarrow> clock s \<le> u)"
proof -
  note logged = idempotency_store.db_logged [OF contract]
  from interceptor_keyed [OF keyed] run obtain t where t: "only_logged s t"
    "claim_and_run pc st m h c req key fp t = (Inr (PairResp p), s1)" by metis
  have "live (db t) (clock t) key = None"
    using free logged [OF t(1)] t(1) by (simp add: only_logged_def)
  from idempotency_store.free_claim_won [OF contract this, of pc m c fp] t(2) obtain sA where
    sA: "clock t \<le> clock sA" "won_claim pc st m h c req key fp sA = (Inr (PairResp p), s1)" by metis
  then obtain sH where h: "h c req sA = (Inr (PairResp p), sH)"
    and s1: "s1 = count_idempotency ''miss'' m (promote pc st c key fp (PairResp p) sH)"
    by (auto simp: won_claim_def split: prod.splits sum.splits)
  obtain u where u: "clock sH \<le> u" "db (promote pc st c key fp (PairResp p) sH) =
      put_key (db sH) key (encodeCompletedRecord b fp) u ttl"
    using idempotency_store.promote_stores [OF contract up b] by blast
  have "clock s \<le> clock sA" using t(1) sA(1) by (simp add: only_logged_def)
  moreover have "clock sA \<le> clock sH" if "time_passes h"
    using that h unfolding time_passes_def by (metis snd_conv)
  ultimately show ?thesis
    using u s1 logged [OF only_logged_emit] by (fastforce simp: put_key_def)
qed

lemma reuse_refused:
  assumes contract: "idempotency_store st db ttl pendingTTL" and up: "reachable st"
    and pc: "codec_ok pc" "pb_marshal pc p = Inr b"
    and first: "idem_class grpcMethodIssueToken c (IssueReq a) = Keyed key fp"
      "live (db s) (clock s) key = None"
      "NewIdempotencyInterceptor pc st grpcMethodIssueToken h c (IssueReq a) s = (Inr (PairResp p), s1)"
    and reuse: "idem_class grpcMethodIssueToken c' (IssueReq a') = Keyed key fp'"
      "NewIdempotencyInterceptor pc st grpcMethodIssueToken h' c' (IssueReq a') s2 = (r, s3)"
      "time_passes h'"
    and content: "issue_ok a" "issue_ok a'" "issue_content a \<noteq> issue_content a'"
    and kept: "db s2 key = db s1 key" "live (db s2) (clock s3) key \<noteq> None"
  shows "r = Inl (StatusErr FailedPrecondition idempotencyFingerprintMismatchMsg) \<and>
      (\<forall>h''. NewIdempotencyInterceptor pc st grpcMethodIssueToken h'' c' (IssueReq a') s2 = (r, s3))
    \<or> collision (issueFingerprintInput a) (issueFingerprintInput a')"
proof (cases "fp = fp'")
  case True
  have "fp = computeIssueFingerprint a" "fp' = computeIssueFingerprint a'"
    using first(1) reuse(1) by (simp_all add: idem_class_def keyed_by_def split: if_splits)
  with True issue_fingerprint_eq [OF content(1,2)] content(3) show ?thesis by simp
next
  case False
  obtain dl where "db s2 key = Some (encodeCompletedRecord b fp, dl)"
    using fresh_call_record [OF contract up pc(2) first] kept(1) by auto
  from governed_answer [OF contract up reuse this kept(2)]
    resolve_completed [OF pc keyed_fingerprint(1) [OF first(1)]] False keyed_fingerprint(2) [OF first(1)]
  show ?thesis by (simp add: answer_def)
qed

text \<open>
  C3: A key that is reused with different content never serves the other request's tokens.
  After an issuance that ran on a free key, a request that falls on the same store key but
  differs from the first in its subject, tenant, claims or set of audiences is refused with
  codes.FailedPrecondition and its handler does not run, unless the two fingerprint inputs
  are a collision of SHA-256.  The tenants may differ: tokens do not leak across tenants even
  where the store keys of two tenants coincide.
\<close>
theorem reused_key_refused:
  assumes contract: "idempotency_store st db ttl pendingTTL" and up: "reachable st"
    and pc: "codec_ok pc" "pb_marshal pc p = Inr b"
    and first: "idem_class grpcMethodIssueToken c (IssueReq a) = Keyed key fp"
      "live (db s) (clock s) key = None"
      "NewIdempotencyInterceptor pc st grpcMethodIssueToken h c (IssueReq a) s = (Inr (PairResp p), s1)"
    and reuse: "idem_class grpcMethodIssueToken c' (IssueReq a') = Keyed key fp'"
      "NewIdempotencyInterceptor pc st grpcMethodIssueToken h' c' (IssueReq a') s2 = (r, s3)"
      "time_passes h'"
    and content: "issue_ok a" "issue_ok a'" "issue_content a \<noteq> issue_content a'"
    and kept: "db s2 key = db s1 key" "live (db s2) (clock s3) key \<noteq> None"
  shows "r = Inl (StatusErr FailedPrecondition idempotencyFingerprintMismatchMsg) \<and>
      (\<forall>h''. NewIdempotencyInterceptor pc st grpcMethodIssueToken h'' c' (IssueReq a') s2 = (r, s3))
    \<or> collision (issueFingerprintInput a) (issueFingerprintInput a')"
  by (rule reuse_refused [OF assms])

definition other_issue :: issue_token_request where
  "other_issue = sample_issue\<lparr>i_sub := ''v''\<rparr>"

lemma other_keyed:
  "idem_class grpcMethodIssueToken background (IssueReq other_issue) =
     Keyed (idempotency_redis_key ''t'' idempotencyMethodIssue ''k'') (computeIssueFingerprint other_issue)"
  by (simp add: idem_class_def keyed_by_def sample_issue_def other_issue_def header_key_def background_def)

lemma ascii_samples [simp]:
  "valid_utf8 ''u''" "valid_utf8 ''v''" "valid_utf8 ''t''" "valid_utf8 ''a''" "valid_utf8 ''b''"
  by code_simp+

lemma sample_contents:
  "issue_ok sample_issue" "issue_ok other_issue" "issue_content sample_issue \<noteq> issue_content other_issue"
  by (simp_all add: issue_ok_def sample_issue_def other_issue_def claims_ok_def issue_content_def
      del: valid_utf8.simps)

theorem reused_key_refused_witness:
  "fst (sample_call other_issue other_pair sample_world) =
     Inl (StatusErr FailedPrecondition idempotencyFingerprintMismatchMsg) \<or>
   collision (issueFingerprintInput sample_issue) (issueFingerprintInput other_issue)"
proof -
  obtain b where b: "pb_marshal plain_codec sample_pair = Inr b" using plain_marshal by blast
  obtain r s3 where r: "sample_call other_issue other_pair sample_world = (r, s3)" by fastforce
  from reused_key_refused [OF mem_store_contract mem_store_reachable plain_codec_ok b sample_keyed
      empty_free sample_first [unfolded sample_call_def] other_keyed r [unfolded sample_call_def]
      returning_passes sample_contents refl sample_live [OF r other_keyed]]
  show ?thesis by (auto simp: r)
qed


section \<open>Failures of the store\<close>

text \<open>
  C25: What a failing store costs a call.  When the atomic claim itself errs, the governed
  call answers exactly what the handler answers, on a world that differs from the one the
  store left only by a warning; whatever the store does when the claim is promoted, the
  response is the handler's; and when a lost claim cannot be read back, the call answers
  codes.Aborted without running the handler.  Nothing is assumed of the store.
\<close>
theorem store_failures:
  assumes keyed: "idem_class m c req = Keyed key fp"
  shows "\<exists>s1. only_logged s s1 \<and>
    (case st_setnx st c key idempotencyPendingRecord s1 of
       (Inl e, s2) \<Rightarrow>
         (\<exists>s3. only_logged s2 s3 \<and> ELog Warn c
             ''idempotency store SetNX (claim) error; proceeding without concurrent-claim protection''
             [AStr ''error'', AErr e] \<in> set (trace s3) \<and>
           (\<forall>h. fst (NewIdempotencyInterceptor pc st m h c req s) = fst (h c req s3)))
     | (Inr True, s2) \<Rightarrow> (\<forall>h. fst (NewIdempotencyInterceptor pc st m h c req s) = fst (h c req s2))
     | (Inr False, s2) \<Rightarrow>
         (\<forall>h h'. NewIdempotencyInterceptor pc st m h c req s = NewIdempotencyInterceptor pc st m h' c req s) \<and>
         (\<forall>e s3 h. st_get st c key s2 = (Inl e, s3) \<longrightarrow>
            fst (NewIdempotencyInterceptor pc st m h c req s) =
              Inl (StatusErr Aborted idempotencyAbortedMsg)))"
proof -
  from interceptor_keyed [OF keyed] obtain s1 where s1: "only_logged s s1"
    "\<forall>h. NewIdempotencyInterceptor pc st m h c req s = claim_and_run pc st m h c req key fp s1"
    by blast
  obtain r s2 where r: "st_setnx st c key idempotencyPendingRecord s1 = (r, s2)" by fastforce
  show ?thesis
  proof (cases r)
    case (Inl e)
    let ?s3 = "log_warn c ''idempotency store SetNX (claim) error; proceeding without concurrent-claim protection''
      [AStr ''error'', AErr e] s2"
    have run: "claim_and_run pc st m h c req key fp s1 = won_claim pc st m h c req key fp ?s3" for h
      using r Inl by (simp add: claim_and_run_def)
    have "\<exists>s3. only_logged s2 s3 \<and> ELog Warn c
        ''idempotency store SetNX (claim) error; proceeding without concurrent-claim protection''
        [AStr ''error'', AErr e] \<in> set (trace s3) \<and>
        (\<forall>h. fst (NewIdempotencyInterceptor pc st m h c req s) = fst (h c req s3))"
      by (intro exI [of _ ?s3]) (simp add: s1(2) run fst_won_claim)
    with s1(1) r Inl show ?thesis by (intro exI [of _ s1]) simp
  next
    case (Inr claimed)
    show ?thesis
    proof (cases claimed)
      case True
      with r Inr have won: "claim_and_run pc st m h c req key fp s1 = won_claim pc st m h c req key fp s2" for h
        by (simp add: claim_and_run_def)
      show ?thesis by (intro exI [of _ s1]) (simp add: s1 r Inr True won fst_won_claim)
    next
      case False
      with r Inr have lost: "claim_and_run pc st m h c req key fp s1 = lost_claim pc st m c key fp s2" for h
        by (simp add: claim_and_run_def)
      show ?thesis
        by (intro exI [of _ s1]) (auto simp: s1 r Inr False lost lost_claim_def)
    qed
  qed
qed

definition broken_store :: "'s idempotency_store" where
  "broken_store = \<lparr>st_get = (\<lambda>c k s. (Inl (PlainErr [] ''down''), s)),
     st_setnx = (\<lambda>c k v s. (Inl (PlainErr [] ''down''), s)),
     st_set = (\<lambda>c k v s. (Some (PlainErr [] ''down''), s))\<rparr>"

theorem store_failures_witness:
  "fst (NewIdempotencyInterceptor plain_codec broken_store grpcMethodIssueToken (returning sample_pair)
     background (IssueReq sample_issue) empty_world) = Inr (PairResp sample_pair)"
  using store_failures [OF sample_keyed, where s = empty_world and st = broken_store and pc = plain_codec]
  by (auto simp: broken_store_def returning_def)


section \<open>Key resolution\<close>

text \<open>
  The class of a call, for every request, header and field.  A method other than
  IssueToken and RefreshToken, and a request without any idempotency key, go to the handler
  with the store untouched; a header and a field that differ are refused with
  codes.InvalidArgument, and an empty tenant with codes.Internal, before store and handler;
  any other call is governed by the key built from its tenant, its method and the key it
  supplied.
\<close>
theorem call_classes:
  "case idem_class m c req of
     Bypass \<Rightarrow> \<exists>s1. only_logged s s1 \<and> NewIdempotencyInterceptor pc st m h c req s = h c req s1
   | Refused e \<Rightarrow> \<exists>s1. only_logged s s1 \<and> NewIdempotencyInterceptor pc st m h c req s = (Inl e, s1)
   | Keyed key fp \<Rightarrow> \<exists>s1. only_logged s s1 \<and>
       NewIdempotencyInterceptor pc st m h c req s = claim_and_run pc st m h c req key fp s1"
proof (cases "idem_class m c req")
  case Bypass
  with interceptor_bypass [OF this] show ?thesis by simp
next
  case (Refused e)
  with interceptor_refused [OF this] show ?thesis by simp
next
  case (Keyed key fp)
  from interceptor_keyed [OF this] obtain s1 where "only_logged s s1"
    "\<forall>h. NewIdempotencyInterceptor pc st m h c req s = claim_and_run pc st m h c req key fp s1" by blast
  with Keyed show ?thesis by auto
qed

text \<open>The key determines its parts when the tenants hold no separator.\<close>

lemma append_sep_inj:
  assumes "x \<notin> set a" and "x \<notin> set b" and "a @ x # as = b @ x # bs"
  shows "a = b \<and> as = bs"
  using assms
proof (induction a arbitrary: b)
  case Nil
  then show ?case by (cases b) auto
next
  case (Cons y ys)
  then show ?case by (cases b) auto
qed

lemma joined_eq_prefix:
  assumes "c \<notin> set m" and "c # m @ c # k = u @ c # m' @ c # k'" and "u \<noteq> []"
  shows "\<exists>y. u = c # m @ y \<and> c # k = y @ c # m' @ c # k'"
proof -
  obtain v where u: "u = c # v" using assms(2,3) by (cases u) auto
  then have "m @ c # k = v @ c # m' @ c # k'" using assms(2) by simp
  then consider ws where "v = m @ ws" "c # k = ws @ c # m' @ c # k'"
    | ws where "m = v @ ws" "ws @ c # k = c # m' @ c # k'"
    by (auto simp: append_eq_append_conv2)
  then show ?thesis
  proof cases
    case 1
    then show ?thesis using u by auto
  next
    case 2
    then have "ws = []" using assms(1) by (cases ws) auto
    then show ?thesis using u 2 by auto
  qed
qed

lemma joined_eq_iff:
  assumes "c \<notin> set m" and "c \<notin> set m'"
  shows "t @ c # m @ c # k = t' @ c # m' @ c # k' \<longleftrightarrow>
    t = t' \<and> m = m' \<and> k = k' \<or>
    (\<exists>y. t' = t @ c # m @ y \<and> c # k = y @ c # m' @ c # k') \<or>
    (\<exists>y. t = t' @ c # m' @ y \<and> c # k' = y @ c # m @ c # k)" (is "?l \<longleftrightarrow> ?r")
proof
  assume ?l
  then consider u where "t' = t @ u" "c # m @ c # k = u @ c # m' @ c # k'"
    | u where "t = t' @ u" "c # m' @ c # k' = u @ c # m @ c # k"
    by (auto simp: append_eq_append_conv2)
  then show ?r
  proof cases
    case 1
    show ?thesis
    proof (cases "u = []")
      case True
      then show ?thesis using 1 append_sep_inj [OF assms, of k k'] by simp
    next
      case False
      then show ?thesis using 1 joined_eq_prefix [OF assms(1) 1(2)] by auto
    qed
  next
    case 2
    show ?thesis
    proof (cases "u = []")
      case True
      then show ?thesis using 2 append_sep_inj [OF assms, of k k'] by auto
    next
      case False
      then show ?thesis using 2 joined_eq_prefix [OF assms(2) 2(2)] by auto
    qed
  qed
next
  assume ?r
  then show ?l by auto
qed

text \<open>
  Store keys are injective for tenant identifiers without a colon: two calls of the two
  methods share a key only if tenant, method and client key all agree, whatever characters the
  client keys have.
\<close>
theorem redis_key_injective:
  assumes "CHR '':'' \<notin> set t" and "CHR '':'' \<notin> set t'"
    and "method \<in> {idempotencyMethodIssue, idempotencyMethodRefresh}"
    and "method' \<in> {idempotencyMethodIssue, idempotencyMethodRefresh}"
    and "idempotency_redis_key t method k = idempotency_redis_key t' method' k'"
  shows "t = t' \<and> method = method' \<and> k = k'"
proof -
  have eq: "t @ CHR '':'' # (method @ CHR '':'' # k) = t' @ CHR '':'' # (method' @ CHR '':'' # k')"
    using assms(5) by (simp add: idempotency_redis_key_def idempotencyKeySep_def)
  have "CHR '':'' \<notin> set method" "CHR '':'' \<notin> set method'"
    using assms(3,4) by (auto simp: idempotencyMethodIssue_def idempotencyMethodRefresh_def)
  from append_sep_inj [OF this, of k k'] append_sep_inj [OF assms(1,2) eq] show ?thesis by blast
qed

theorem redis_key_injective_witness:
  "idempotency_redis_key ''t'' idempotencyMethodIssue ''a:b'' \<noteq>
   idempotency_redis_key ''u'' idempotencyMethodIssue ''a:b''"
  using redis_key_injective [of "''t''" "''u''" idempotencyMethodIssue idempotencyMethodIssue "''a:b''" "''a:b''"]
  by auto

text \<open>
  C30: When two calls share a Redis key, exactly: they agree on tenant, method and client key, or
  the tenant identifier of one is that of the other continued by a colon and the method (so it has
  a colon of its own), with client keys that make up the difference.  So the tenants' keys are
  apart as long as tenant identifiers have no colon, and the two methods' keys always are for one
  tenant.
\<close>
theorem redis_key_collisions:
  assumes "method \<in> {idempotencyMethodIssue, idempotencyMethodRefresh}"
    and "method' \<in> {idempotencyMethodIssue, idempotencyMethodRefresh}"
  shows "idempotency_redis_key t method k = idempotency_redis_key t' method' k' \<longleftrightarrow>
    t = t' \<and> method = method' \<and> k = k' \<or>
    (\<exists>y. t' = t @ '':'' @ method @ y \<and> '':'' @ k = y @ '':'' @ method' @ '':'' @ k') \<or>
    (\<exists>y. t = t' @ '':'' @ method' @ y \<and> '':'' @ k' = y @ '':'' @ method @ '':'' @ k)"
proof -
  have "CHR '':'' \<notin> set method" "CHR '':'' \<notin> set method'"
    using assms by (auto simp: idempotencyMethodIssue_def idempotencyMethodRefresh_def)
  from joined_eq_iff [OF this, of t k t' k'] show ?thesis
    by (simp add: idempotency_redis_key_def idempotencyKeySep_def)
qed

theorem redis_key_collisions_witness:
  "idempotency_redis_key ''a'' idempotencyMethodIssue ''IssueToken:x'' =
   idempotency_redis_key ''a:IssueToken'' idempotencyMethodIssue ''x''"
  by (subst redis_key_collisions) (simp_all add: idempotencyMethodIssue_def)

text \<open>
  With a colon in a tenant identifier they are not injective: two different tenants can own the
  same store key.
\<close>
theorem tenant_keys_overlap:
  "\<exists>t t' k k'. t \<noteq> t' \<and> k \<noteq> k' \<and>
     idempotency_redis_key t idempotencyMethodIssue k = idempotency_redis_key t' idempotencyMethodIssue k'"
  by (intro exI [of _ "''a''"] exI [of _ "''a:IssueToken''"] exI [of _ "''IssueToken:x''"] exI [of _ "''x''"])
    (simp add: idempotency_redis_key_def idempotencyKeySep_def idempotencyMethodIssue_def)


section \<open>Records and fingerprints\<close>

text \<open>
  C27: The record envelope round trips.  What encodeCompletedRecord writes, JSON with base64
  behind the magic, decodeIdempotencyRecord reads back field for field, for every response and
  every fingerprint that is UTF-8; the pending record decodes to the pending state; and a
  completed record is never taken for a pending one.
\<close>
theorem record_roundtrip:
  assumes "valid_utf8 fp"
  shows "decodeIdempotencyRecord (encodeCompletedRecord response fp) =
      Some \<lparr>State = idempotencyStateCompleted, Response = response, Fingerprint = fp\<rparr> \<and>
    decodeIdempotencyRecord idempotencyPendingRecord =
      Some \<lparr>State = idempotencyStatePending, Response = [], Fingerprint = []\<rparr> \<and>
    encodeCompletedRecord response fp \<noteq> idempotencyPendingRecord"
proof -
  have "decodeIdempotencyRecord (encodeCompletedRecord response fp) \<noteq>
      decodeIdempotencyRecord idempotencyPendingRecord"
    using decode_encode_record [OF assms] decode_pending_record by simp
  then have "encodeCompletedRecord response fp \<noteq> idempotencyPendingRecord" by metis
  with decode_encode_record [OF assms] decode_pending_record show ?thesis
    by (simp add: idempotencyStateCompleted_def idempotencyStatePending_def)
qed

theorem record_roundtrip_witness:
  "decodeIdempotencyRecord (encodeCompletedRecord [CHR 0x00, CHR 0xFF] ''ab'') =
     Some \<lparr>State = idempotencyStateCompleted, Response = [CHR 0x00, CHR 0xFF], Fingerprint = ''ab''\<rparr>"
proof -
  have "valid_utf8 ''ab''" by code_simp
  from record_roundtrip [OF this] show ?thesis by blast
qed

text \<open>
  C29: A fingerprint identifies the content of an IssueToken request.  Two requests have the
  same fingerprint exactly if they agree on subject, tenant, claims as a map and audiences as a
  multiset (their order, and the iteration order of the claims, do not matter), or else their
  canonical encodings are a collision of SHA-256.
\<close>
theorem issue_fingerprint_binds:
  assumes "issue_ok a" and "issue_ok b"
  shows "computeIssueFingerprint a = computeIssueFingerprint b \<longleftrightarrow>
    issue_content a = issue_content b \<or>
    collision (issueFingerprintInput a) (issueFingerprintInput b)"
  by (rule issue_fingerprint_eq [OF assms])

theorem issue_fingerprint_binds_witness:
  "computeIssueFingerprint sample_issue =
     computeIssueFingerprint (sample_issue\<lparr>i_audiences := [''a'', ''b'']\<rparr>)"
proof -
  have "issue_ok (sample_issue\<lparr>i_audiences := [''a'', ''b'']\<rparr>)"
    by (simp add: issue_ok_def sample_issue_def claims_ok_def del: valid_utf8.simps)
  from issue_fingerprint_binds [OF sample_contents(1) this] show ?thesis
    by (simp add: issue_content_def sample_issue_def add_mset_commute)
qed

text \<open>
  A fingerprint identifies the content of a RefreshToken request in the same way, and
  binds the refresh token presented, without the token itself being stored.
\<close>
theorem refresh_fingerprint_binds:
  assumes "refresh_ok a" and "refresh_ok b"
  shows "computeRefreshFingerprint a = computeRefreshFingerprint b \<longleftrightarrow>
    refresh_content a = refresh_content b \<or>
    collision (refreshFingerprintInput a) (refreshFingerprintInput b)"
  by (rule refresh_fingerprint_eq [OF assms])

theorem refresh_fingerprint_binds_witness:
  "let r = \<lparr>f_refresh_token = ''a'', f_tenant_id = ''t'', f_idempotency_key = ''k'',
            f_claims = Some [(''a'', ''u''), (''b'', ''v'')]\<rparr>
   in computeRefreshFingerprint r =
        computeRefreshFingerprint (r\<lparr>f_claims := Some [(''b'', ''v''), (''a'', ''u'')]\<rparr>)"
proof -
  let ?r = "\<lparr>f_refresh_token = ''a'', f_tenant_id = ''t'', f_idempotency_key = ''k'',
            f_claims = Some [(''a'', ''u''), (''b'', ''v'')]\<rparr>"
  let ?r' = "?r\<lparr>f_claims := Some [(''b'', ''v''), (''a'', ''u'')]\<rparr>"
  have ok: "refresh_ok ?r" "refresh_ok ?r'"
    by (simp_all add: refresh_ok_def claims_ok_def del: valid_utf8.simps)
  have "refresh_content ?r = refresh_content ?r'"
    by (simp add: refresh_content_def claims_content_def fun_upd_twist)
  with refresh_fingerprint_binds [OF ok] show ?thesis by simp
qed

end
