(* ===== verification/Idem_Concurrency.thy ===== *)
theory Idem_Concurrency
  imports Idem_Properties
begin

text \<open>
  Concurrent requests on one idempotency key: the store calls of the interceptor
  (\<^verbatim>\<open>SetNX\<close>, then the handler, then \<^verbatim>\<open>Set\<close>) as the atomic steps of many requests that
  interleave with each other, with their handlers, and with the passing of time.

  \<open>claim_and_run\<close> is one request alone; here each request is a number \<open>r\<close> with its context
  and fingerprint, and a state is the world and the phase of every request.
\<close>


section \<open>The steps\<close>

datatype phase =
    Waiting
  | Running int     \<comment> \<open>won the claim with a SetNX that began at this time\<close>
  | Stored int      \<comment> \<open>stored the response with a Set that began at this time\<close>
  | Unstored int    \<comment> \<open>ended with nothing to store; the claim stays\<close>
  | Refused

fun started :: "phase \<Rightarrow> bool" where
  "started Waiting \<longleftrightarrow> False"
| "started Refused \<longleftrightarrow> False"
| "started _ \<longleftrightarrow> True"

text \<open>The real-time condition: a request that won the claim finishes within the pending TTL.\<close>

fun in_time :: "int \<Rightarrow> int \<Rightarrow> phase \<Rightarrow> bool" where
  "in_time pendingTTL now (Running t) \<longleftrightarrow> now < t + lifetime pendingTTL"
| "in_time pendingTTL now _ \<longleftrightarrow> True"

definition timely :: "int \<Rightarrow> int \<Rightarrow> (nat \<Rightarrow> phase) \<Rightarrow> bool" where
  "timely pendingTTL now ph \<longleftrightarrow> (\<forall>r. in_time pendingTTL now (ph r))"

lemma in_time_mono: "in_time pendingTTL now p \<Longrightarrow> now' \<le> now \<Longrightarrow> in_time pendingTTL now' p"
  by (cases p) simp_all

text \<open>
  A request that has ended and whose record is gone: the stored response has outlived its TTL, or
  the claim of a request that stored nothing has outlived the pending TTL.
\<close>

fun lapsed :: "int \<Rightarrow> int \<Rightarrow> int \<Rightarrow> phase \<Rightarrow> bool" where
  "lapsed ttl pendingTTL now (Stored t) \<longleftrightarrow> t + lifetime ttl \<le> now"
| "lapsed ttl pendingTTL now (Unstored t) \<longleftrightarrow> t + lifetime pendingTTL \<le> now"
| "lapsed ttl pendingTTL now _ \<longleftrightarrow> False"

lemma lapsed_mono: "lapsed ttl pendingTTL now p \<Longrightarrow> now \<le> now' \<Longrightarrow> lapsed ttl pendingTTL now' p"
  by (cases p) simp_all

text \<open>A response that the interceptor stores.\<close>

definition storable :: "codec \<Rightarrow> response \<Rightarrow> bool" where
  "storable pc resp \<longleftrightarrow> (\<exists>p b. resp = PairResp p \<and> pb_marshal pc p = Inr b)"

lemma promote_unstorable: "\<not> storable pc resp \<Longrightarrow> promote pc st c key fp resp s = s"
  by (auto simp: promote_def storable_def split: response.split sum.split)

inductive conc ::
  "codec \<Rightarrow> 'a world_scheme idempotency_store \<Rightarrow> ('a world_scheme \<Rightarrow> db) \<Rightarrow> int \<Rightarrow> string \<Rightarrow>
   (nat \<Rightarrow> ctx) \<Rightarrow> (nat \<Rightarrow> string) \<Rightarrow> 'a world_scheme \<Rightarrow> (nat \<Rightarrow> phase) \<Rightarrow> bool"
  for pc st db pendingTTL key c fp where
  conc_init: "conc pc st db pendingTTL key c fp s (\<lambda>_. Waiting)"
| conc_claim:
    "conc pc st db pendingTTL key c fp s ph \<Longrightarrow> ph r = Waiting \<Longrightarrow>
     st_setnx st (c r) key idempotencyPendingRecord s = (Inr True, s') \<Longrightarrow>
     timely pendingTTL (clock s') ph \<Longrightarrow>
     conc pc st db pendingTTL key c fp s' (ph(r := Running (clock s)))"
| conc_lose:
    "conc pc st db pendingTTL key c fp s ph \<Longrightarrow> ph r = Waiting \<Longrightarrow>
     st_setnx st (c r) key idempotencyPendingRecord s = (Inr False, s') \<Longrightarrow>
     timely pendingTTL (clock s') ph \<Longrightarrow>
     conc pc st db pendingTTL key c fp s' (ph(r := Refused))"
| conc_store:
    "conc pc st db pendingTTL key c fp s ph \<Longrightarrow> ph r = Running t0 \<Longrightarrow> storable pc resp \<Longrightarrow>
     promote pc st (c r) key (fp r) resp s = s' \<Longrightarrow>
     timely pendingTTL (clock s') ph \<Longrightarrow>
     conc pc st db pendingTTL key c fp s' (ph(r := Stored (clock s)))"
| conc_end:
    "conc pc st db pendingTTL key c fp s ph \<Longrightarrow> ph r = Running t0 \<Longrightarrow>
     conc pc st db pendingTTL key c fp s (ph(r := Unstored t0))"
| conc_other:
    "conc pc st db pendingTTL key c fp s ph \<Longrightarrow>
     clock s \<le> clock s' \<Longrightarrow> db s' key = db s key \<Longrightarrow>
     timely pendingTTL (clock s') ph \<Longrightarrow>
     conc pc st db pendingTTL key c fp s' ph"

lemma timely_upd:
  "timely pendingTTL now ph \<Longrightarrow> in_time pendingTTL now p \<Longrightarrow> timely pendingTTL now (ph(r := p))"
  by (simp add: timely_def)


section \<open>The invariant\<close>

text \<open>
  Of two started requests one has lapsed, and the record of a started request that has not
  lapsed is what the key holds.
\<close>

definition record_of :: "int \<Rightarrow> int \<Rightarrow> db \<Rightarrow> string \<Rightarrow> phase \<Rightarrow> bool" where
  "record_of ttl pendingTTL d key p \<longleftrightarrow>
     (case p of
        Running t0 \<Rightarrow> \<exists>v t. t0 \<le> t \<and> d key = Some (v, expiry t pendingTTL)
      | Unstored t0 \<Rightarrow> \<exists>v t. t0 \<le> t \<and> d key = Some (v, expiry t pendingTTL)
      | Stored t1 \<Rightarrow> \<exists>v t. t1 \<le> t \<and> d key = Some (v, expiry t ttl)
      | _ \<Rightarrow> True)"

definition conc_inv :: "int \<Rightarrow> int \<Rightarrow> int \<Rightarrow> db \<Rightarrow> string \<Rightarrow> (nat \<Rightarrow> phase) \<Rightarrow> bool" where
  "conc_inv ttl pendingTTL now d key ph \<longleftrightarrow>
     (\<forall>r r'. started (ph r) \<longrightarrow> started (ph r') \<longrightarrow> r \<noteq> r' \<longrightarrow>
        lapsed ttl pendingTTL now (ph r) \<or> lapsed ttl pendingTTL now (ph r')) \<and>
     (\<forall>r. lapsed ttl pendingTTL now (ph r) \<or> record_of ttl pendingTTL d key (ph r))"

lemma record_live:
  assumes "record_of ttl pendingTTL d key p" and "started p"
    and "in_time pendingTTL now p" and "\<not> lapsed ttl pendingTTL now p"
  shows "\<exists>v. live d now key = Some v"
  using assms
  by (cases p) (auto simp: record_of_def live_def expiry_def lifetime_def)

lemma record_of_other [simp]: "\<not> started p \<Longrightarrow> record_of ttl pendingTTL d key p"
  by (cases p) (simp_all add: record_of_def)

text \<open>A step that leaves every started request but one lapsed.\<close>

lemma conc_inv_upd:
  assumes "\<And>x. x \<noteq> r \<Longrightarrow> started (ph x) \<Longrightarrow> lapsed ttl pendingTTL now (ph x)"
    and "record_of ttl pendingTTL d key p"
  shows "conc_inv ttl pendingTTL now d key (ph(r := p))"
  unfolding conc_inv_def using assms record_of_other by (metis fun_upd_apply)

lemma conc_inv_other:
  assumes "conc_inv ttl pendingTTL now d key ph" and "now \<le> now'" and "d' key = d key"
  shows "conc_inv ttl pendingTTL now' d' key ph"
proof -
  have "record_of ttl pendingTTL d' key p = record_of ttl pendingTTL d key p" for p
    using assms(3) by (cases p) (simp_all add: record_of_def)
  with assms(1,2) lapsed_mono show ?thesis unfolding conc_inv_def by metis
qed

context idempotency_store begin

lemma store_puts:
  assumes up: "reachable st" and "storable pc resp" and "promote pc st c key fp resp s = s'"
  shows "\<exists>v t. clock s \<le> t \<and> db s' key = Some (v, expiry t ttl)"
proof -
  obtain p b where p: "resp = PairResp p" "pb_marshal pc p = Inr b"
    using assms(2) by (auto simp: storable_def)
  obtain e u where e: "st_set st c key (encodeCompletedRecord b fp) s = (e, u)" by fastforce
  with reachable_set [OF up] have "e = None" by blast
  with e p assms(3) have "s' = u" by (simp add: promote_def)
  with stored e \<open>e = None\<close> show ?thesis by (fastforce simp: during_def put_key_def)
qed

lemma conc_keeps_inv:
  assumes up: "reachable st"
  shows "conc pc st db pendingTTL key c fp s ph \<Longrightarrow> conc_inv ttl pendingTTL (clock s) (db s) key ph"
proof (induction rule: conc.induct)
  case (conc_init s)
  show ?case by (simp add: conc_inv_def)
next
  case (conc_claim s ph r s')
  obtain t where t: "clock s \<le> t" "t \<le> clock s'" "live (db s) t key = None"
      "db s' = put_key (db s) key idempotencyPendingRecord t pendingTTL"
    using claim_won [OF conc_claim.hyps(3)] by (auto simp: during_def)
  have "lapsed ttl pendingTTL (clock s') (ph x)" if x: "started (ph x)" for x
  proof (rule ccontr)
    assume no: "\<not> lapsed ttl pendingTTL (clock s') (ph x)"
    have "\<not> lapsed ttl pendingTTL (clock s) (ph x)"
      using no lapsed_mono t(1,2) by (meson order_trans)
    then have "record_of ttl pendingTTL (db s) key (ph x)"
      using conc_claim.IH by (auto simp: conc_inv_def)
    moreover have "in_time pendingTTL (clock s') (ph x)"
      using conc_claim.hyps(4) by (simp add: timely_def)
    ultimately obtain v where "live (db s) (clock s') key = Some v"
      using record_live x no by blast
    from live_mono [OF this t(2)] t(3) show False by simp
  qed
  moreover have "record_of ttl pendingTTL (db s') key (Running (clock s))"
    unfolding record_of_def using t(1,4) by (auto simp: put_key_def)
  ultimately show ?case by (intro conc_inv_upd) blast+
next
  case (conc_lose s ph r s')
  have "clock s \<le> clock s'" "db s' = db s"
    using st_frame(2) [OF conc_lose.hyps(3)] claim_lost [OF conc_lose.hyps(3)]
    by (auto simp: call_frame_def)
  with conc_lose.IH have "conc_inv ttl pendingTTL (clock s') (db s') key ph"
    by (auto intro: conc_inv_other)
  then show ?case by (auto simp: conc_inv_def)
next
  case (conc_store s ph r t0 resp s')
  have "clock s \<le> clock s'" using conc_store.hyps(4) promote_frame by metis
  then have others: "lapsed ttl pendingTTL (clock s') (ph x)" if "x \<noteq> r" "started (ph x)" for x
    using conc_store.IH conc_store.hyps(2) that lapsed_mono unfolding conc_inv_def
    by (metis lapsed.simps(4) started.simps(3))
  obtain v t where "clock s \<le> t" "db s' key = Some (v, expiry t ttl)"
    using store_puts [OF up conc_store.hyps(3,4)] by blast
  then have "record_of ttl pendingTTL (db s') key (Stored (clock s))"
    unfolding record_of_def by auto
  with others show ?case by (intro conc_inv_upd)
next
  case (conc_end s ph r t0)
  have others: "lapsed ttl pendingTTL (clock s) (ph x)" if "x \<noteq> r" "started (ph x)" for x
    using conc_end that unfolding conc_inv_def by (metis lapsed.simps(4) started.simps(3))
  have "record_of ttl pendingTTL (db s) key (Unstored t0)"
    using conc_end.IH [unfolded conc_inv_def, THEN conjunct2, rule_format, of r] conc_end.hyps(2)
    by (simp add: record_of_def)
  with others show ?case by (intro conc_inv_upd)
next
  case (conc_other s ph s')
  then show ?case using conc_inv_other by blast
qed

end


section \<open>A request is a sequence of these steps\<close>

text \<open>
  The interceptor's own code, run by a waiting request with nobody in between, is an execution
  of the steps: the claim, the handler, and the promotion of the claim.
\<close>

definition handler_spares :: "('a world_scheme \<Rightarrow> db) \<Rightarrow> string \<Rightarrow> 'a world_scheme handler \<Rightarrow> bool" where
  "handler_spares db key h \<longleftrightarrow>
     (\<forall>c req s. clock s \<le> clock (snd (h c req s)) \<and> db (snd (h c req s)) key = db s key)"

context idempotency_store begin

lemma conc_logged:
  assumes "conc pc st db pendingTTL key c fp s ph" and "only_logged s s'"
    and "timely pendingTTL (clock s) ph"
  shows "conc pc st db pendingTTL key c fp s' ph"
proof (rule conc_other [OF assms(1)])
  have "clock s' = clock s" using assms(2) by (simp add: only_logged_def)
  then show "clock s \<le> clock s'" "timely pendingTTL (clock s') ph" using assms(3) by simp_all
  show "db s' key = db s key" using db_logged [OF assms(2)] by simp
qed

lemma won_run_steps:
  assumes run: "conc pc st db pendingTTL key c fp s ph" and "ph r = Running t0"
    and h: "handler_spares db key h"
    and won: "won_claim pc st m h (c r) req key (fp r) s = (q, s')"
    and ok: "timely pendingTTL (clock s') ph"
  shows "\<exists>p. started p \<and> conc pc st db pendingTTL key c fp s' (ph(r := p))"
proof -
  obtain a u where a: "h (c r) req s = (a, u)" by fastforce
  have u: "clock s \<le> clock u" "db u key = db s key"
    using h a unfolding handler_spares_def by (metis snd_conv)+
  show ?thesis
  proof (cases "\<exists>resp. a = Inr resp \<and> storable pc resp")
    case True
    then obtain resp where resp: "a = Inr resp" "storable pc resp" by blast
    let ?v = "promote pc st (c r) key (fp r) resp u"
    have s': "s' = count_idempotency ''miss'' m ?v" using won a resp(1) by (simp add: won_claim_def)
    then have v: "clock s' = clock ?v" "clock u \<le> clock ?v" by (simp_all add: promote_frame)
    have "conc pc st db pendingTTL key c fp u ph"
      by (rule conc_other [OF run u]) (use ok v in \<open>auto simp: timely_def intro: in_time_mono\<close>)
    then have "conc pc st db pendingTTL key c fp ?v (ph(r := Stored (clock u)))"
      using assms(2) resp(2) refl by (rule conc_store) (use ok v in simp)
    moreover have "timely pendingTTL (clock ?v) (ph(r := Stored (clock u)))"
      using ok v by (intro timely_upd) simp_all
    ultimately have "conc pc st db pendingTTL key c fp s' (ph(r := Stored (clock u)))"
      unfolding s' by (rule conc_logged [OF _ only_logged_emit])
    then show ?thesis by (intro exI [of _ "Stored (clock u)"]) simp
  next
    case False
    have s': "s' = count_idempotency ''miss'' m u"
      using won a False by (cases a) (auto simp: won_claim_def promote_unstorable)
    then have "clock s' = clock u" by simp
    then have "conc pc st db pendingTTL key c fp u ph"
      using ok by (intro conc_other [OF run u]) simp
    then have "conc pc st db pendingTTL key c fp s' ph"
      unfolding s' by (rule conc_logged [OF _ only_logged_emit]) (use ok s' in simp)
    from conc_end [OF this assms(2)] show ?thesis by (intro exI [of _ "Unstored t0"]) simp
  qed
qed

end


context idempotency_store begin

lemma claim_and_run_steps:
  assumes up: "reachable st" and h: "handler_spares db key h"
    and run: "conc pc st db pendingTTL key c fp s ph" and r: "ph r = Waiting"
    and call: "claim_and_run pc st m h (c r) req key (fp r) s = (q, s')"
    and ok: "timely pendingTTL (clock s') ph"
    and soon: "clock s' < clock s + lifetime pendingTTL"
  shows "\<exists>p. conc pc st db pendingTTL key c fp s' (ph(r := p))"
proof -
  obtain claimed u where nx: "st_setnx st (c r) key idempotencyPendingRecord s = (Inr claimed, u)"
    using reachable_setnx [OF up] by (metis surj_pair)
  show ?thesis
  proof (cases claimed)
    case False
    with nx have lose: "st_setnx st (c r) key idempotencyPendingRecord s = (Inr False, u)" by simp
    from call nx False have lost: "lost_claim pc st m (c r) key (fp r) u = (q, s')"
      by (simp add: claim_and_run_def)
    note fr = lost_claim_frame [OF lost]
    have "timely pendingTTL (clock u) ph" using ok fr by (auto simp: timely_def intro: in_time_mono)
    from conc_lose [OF run r lose this] have "conc pc st db pendingTTL key c fp u (ph(r := Refused))" .
    then have "conc pc st db pendingTTL key c fp s' (ph(r := Refused))"
      by (rule conc_other) (use fr ok in \<open>simp_all add: timely_upd\<close>)
    then show ?thesis by blast
  next
    case True
    with nx have win: "st_setnx st (c r) key idempotencyPendingRecord s = (Inr True, u)" by simp
    from call nx True have won: "won_claim pc st m h (c r) req key (fp r) u = (q, s')"
      by (simp add: claim_and_run_def)
    have "time_passes h" using h by (simp add: time_passes_def handler_spares_def)
    then have us: "clock u \<le> clock s'" using won by (rule won_claim_clock)
    have "timely pendingTTL (clock u) ph" using ok us by (auto simp: timely_def intro: in_time_mono)
    from conc_claim [OF run r win this]
    have running: "conc pc st db pendingTTL key c fp u (ph(r := Running (clock s)))" .
    have "timely pendingTTL (clock s') (ph(r := Running (clock s)))"
      using ok soon by (intro timely_upd) simp_all
    moreover have "(ph(r := Running (clock s))) r = Running (clock s)" by simp
    ultimately obtain p where
      "conc pc st db pendingTTL key c fp s' ((ph(r := Running (clock s)))(r := p))"
      using won_run_steps [OF running _ h won] by blast
    then show ?thesis by auto
  qed
qed

end


section \<open>Properties\<close>

text \<open>
  C2: At most one execution per key while its record lasts.  Many requests race on one
  idempotency key, in any interleaving of their store calls, their handlers and the passing of
  time, over a store that keeps the contract and does not fail, where whoever wins the claim
  ends within the pending TTL.  Of any two requests that started their handlers one has ended
  and its record has lapsed: it stored its response a response TTL ago, or it ended with nothing
  stored (an error, or a response that cannot be stored) and claimed the key a pending TTL ago.
  So no two run at once, and none starts while a stored response or a claim is kept.  The steps
  are the code's: a waiting request that runs the interceptor's body within the pending TTL,
  with a handler that leaves the key alone, extends the execution and changes no other
  request's phase.
\<close>
theorem at_most_one_execution:
  assumes "idempotency_store st db ttl pendingTTL" and "reachable st"
    and "conc pc st db pendingTTL key c fp s ph"
  shows "(\<forall>r r'. started (ph r) \<and> started (ph r') \<and> r \<noteq> r' \<longrightarrow>
      lapsed ttl pendingTTL (clock s) (ph r) \<or> lapsed ttl pendingTTL (clock s) (ph r')) \<and>
    (\<forall>r m h req q s'.
       ph r = Waiting \<and> handler_spares db key h \<and>
       claim_and_run pc st m h (c r) req key (fp r) s = (q, s') \<and>
       timely pendingTTL (clock s') ph \<and> clock s' < clock s + lifetime pendingTTL \<longrightarrow>
       (\<exists>p. conc pc st db pendingTTL key c fp s' (ph(r := p))))"
proof (intro conjI allI impI)
  fix r r'
  assume "started (ph r) \<and> started (ph r') \<and> r \<noteq> r'"
  with idempotency_store.conc_keeps_inv [OF assms]
  show "lapsed ttl pendingTTL (clock s) (ph r) \<or> lapsed ttl pendingTTL (clock s) (ph r')"
    by (simp add: conc_inv_def)
next
  fix r m h req q s'
  assume a: "ph r = Waiting \<and> handler_spares db key h \<and>
    claim_and_run pc st m h (c r) req key (fp r) s = (q, s') \<and> timely pendingTTL (clock s') ph \<and>
    clock s' < clock s + lifetime pendingTTL"
  show "\<exists>p. conc pc st db pendingTTL key c fp s' (ph(r := p))"
    by (rule idempotency_store.claim_and_run_steps [OF assms(1,2) _ assms(3)]) (use a in blast)+
qed

text \<open>Two requests on the store in memory: the first wins the claim, the second loses it.\<close>

definition race_world :: mem_world where
  "race_world = snd (st_setnx mem_store background ''k'' idempotencyPendingRecord empty_world)"

lemma race_world:
  "st_setnx mem_store background ''k'' idempotencyPendingRecord empty_world = (Inr True, race_world)"
  "st_setnx mem_store background ''k'' idempotencyPendingRecord race_world = (Inr False, race_world)"
  "clock race_world = 0"
  by (simp_all add: race_world_def run_simps empty_world_def live_def put_key_def expiry_def nsSecond_def)

theorem at_most_one_execution_witness:
  "\<exists>ph. conc plain_codec mem_store mem_db (30 * nsSecond) ''k'' (\<lambda>_. background)
      (\<lambda>_. ''f'') race_world ph \<and> ph 0 = Running 0 \<and> ph 1 = Refused \<and>
    (\<forall>r. started (ph r) \<longrightarrow> r = 0)"
proof -
  let ?conc = "conc plain_codec mem_store mem_db (30 * nsSecond) ''k'' (\<lambda>_. background) (\<lambda>_. ''f'')"
  let ?p = "(\<lambda>_::nat. Waiting)(0 := Running (clock empty_world))"
  have "?conc empty_world (\<lambda>_. Waiting)" by (rule conc_init)
  then have "?conc race_world ?p"
    by (rule conc_claim [OF _ refl race_world(1)]) (simp add: timely_def)
  then have two: "?conc race_world (?p(1 := Refused))"
    by (rule conc_lose [OF _ _ race_world(2)])
      (simp_all add: timely_def race_world(3) clock_empty lifetime_def nsSecond_def)
  note only = at_most_one_execution [OF mem_store_contract mem_store_reachable two, THEN conjunct1]
  have zero: "(?p(1 := Refused)) 0 = Running 0" by (simp add: clock_empty)
  have "r = 0" if "started ((?p(1 := Refused)) r)" for r
    using only [rule_format, of r 0] that zero race_world(3)
    by (cases "(?p(1 := Refused)) r") (auto split: if_splits)
  with two zero show ?thesis by (intro exI [of _ "?p(1 := Refused)"] conjI) simp_all
qed

text \<open>
  C5: How long an abandoned claim is held.  A request has won a claim and does not come back: the
  key is as its claim left it.  If the pending TTL is positive the record expires with it, and
  from then on the next request on the key runs its handler and gives its answer, whether or not
  the store then fails.  If it is zero or negative, which Load accepts of
  TOKEN_ENGINE_LOCK_TTL, a claim that the store took has no expiry, and every later request that
  the store answers is aborted without running its handler, for ever.
\<close>
theorem abandoned_claim_freed:
  assumes "idempotency_store st db ttl pendingTTL"
    and "st_setnx st c0 key idempotencyPendingRecord s0 = (Inr True, s1)"
    and "db s key = db s1 key"
  shows "(0 < pendingTTL \<and> clock s1 + lifetime pendingTTL \<le> clock s \<longrightarrow>
      (\<exists>s2. clock s \<le> clock s2 \<and>
         claim_and_run pc st m h c req key fp s = won_claim pc st m h c req key fp s2 \<and>
         fst (claim_and_run pc st m h c req key fp s) = fst (h c req s2))) \<and>
    (pendingTTL \<le> 0 \<and> st_setnx st c key idempotencyPendingRecord s = (Inr claimed, u) \<longrightarrow>
      (\<exists>s'. db s' = db s \<and> (\<forall>h. claim_and_run pc st m h c req key fp s = (aborted, s'))))"
proof -
  obtain t where t: "t \<le> clock s1" "db s key = Some (idempotencyPendingRecord, expiry t pendingTTL)"
    using idempotency_store.claim_won [OF assms(1,2)] assms(3) by (auto simp: during_def put_key_def)
  show ?thesis
  proof (intro conjI impI)
    assume "0 < pendingTTL \<and> clock s1 + lifetime pendingTTL \<le> clock s"
    with t have "live (db s) (clock s) key = None"
      by (simp add: live_def expiry_def lifetime_def)
    from idempotency_store.free_claim_won [OF assms(1) this, of pc m c fp]
    show "\<exists>s2. clock s \<le> clock s2 \<and>
        claim_and_run pc st m h c req key fp s = won_claim pc st m h c req key fp s2 \<and>
        fst (claim_and_run pc st m h c req key fp s) = fst (h c req s2)"
      by (metis fst_won_claim)
  next
    assume a: "pendingTTL \<le> 0 \<and> st_setnx st c key idempotencyPendingRecord s = (Inr claimed, u)"
    with t(2) have "live (db s) t' key = Some idempotencyPendingRecord" for t'
      by (simp add: live_def expiry_def)
    from idempotency_store.held_claim_aborts [OF assms(1) this] a
    show "\<exists>s'. db s' = db s \<and> (\<forall>h. claim_and_run pc st m h c req key fp s = (aborted, s'))" by metis
  qed
qed

theorem abandoned_claim_freed_witness:
  "fst (claim_and_run plain_codec mem_store grpcMethodIssueToken (\<lambda>c r s. (Inr OtherResp, s)) background
      OtherReq ''k'' ''f'' (race_world\<lparr>clock := 30 * nsSecond\<rparr>)) = Inr OtherResp"
proof -
  have "clock race_world + lifetime (30 * nsSecond) \<le> clock (race_world\<lparr>clock := 30 * nsSecond\<rparr>)"
    by (simp add: race_world(3) lifetime_def nsSecond_def)
  with abandoned_claim_freed [OF mem_store_contract race_world(1), of "race_world\<lparr>clock := 30 * nsSecond\<rparr>"
      plain_codec grpcMethodIssueToken "\<lambda>c r s. (Inr OtherResp, s)" background OtherReq "''f''"]
  show ?thesis by (auto simp: nsSecond_def)
qed

end
