(* ===== verification/Telemetry.thy ===== *)
theory Telemetry
  imports Observability
begin

text \<open>
  The remaining adapters of \<^verbatim>\<open>internal/observability\<close>: the Metrics interface with its
  Prometheus, library and NoOp implementations, and the spans of \<^verbatim>\<open>tracer.go\<close>, which turn the
  service's and the library's calls into calls on an OpenTelemetry span.
\<close>


section \<open>Metrics\<close>

text \<open>The interface over the state of its implementation; a panic is \<open>None\<close>.\<close>

record 'm metrics =
  mt_increment :: "string \<Rightarrow> string str_map \<Rightarrow> 'm \<Rightarrow> 'm option"
  mt_add :: "string \<Rightarrow> rat \<Rightarrow> string str_map \<Rightarrow> 'm \<Rightarrow> 'm option"
  mt_gauge :: "string \<Rightarrow> rat \<Rightarrow> string str_map \<Rightarrow> 'm \<Rightarrow> 'm option"
  mt_histogram :: "string \<Rightarrow> rat \<Rightarrow> string str_map \<Rightarrow> 'm \<Rightarrow> 'm option"
  mt_duration :: "string \<Rightarrow> int \<Rightarrow> string str_map \<Rightarrow> 'm \<Rightarrow> 'm option"

definition PrometheusMetrics :: "prometheus metrics" where
  "PrometheusMetrics =
     \<lparr>mt_increment = prom_increment, mt_add = prom_add_counter, mt_gauge = prom_set_gauge,
      mt_histogram = prom_histogram, mt_duration = prom_duration\<rparr>"

definition NewLibraryPrometheusMetrics :: "'m metrics \<Rightarrow> 'm metrics" where
  "NewLibraryPrometheusMetrics inner =
     \<lparr>mt_increment = (\<lambda>name labels. mt_increment inner name labels),
      mt_add = (\<lambda>name value labels. mt_add inner name value labels),
      mt_gauge = (\<lambda>name value labels. mt_gauge inner name value labels),
      mt_histogram = (\<lambda>name value labels. mt_histogram inner name value labels),
      mt_duration = (\<lambda>name d labels. mt_duration inner name d labels)\<rparr>"

definition NewNoOpMetrics :: "'m metrics" where
  "NewNoOpMetrics =
     \<lparr>mt_increment = (\<lambda>name labels p. Some p), mt_add = (\<lambda>name value labels p. Some p),
      mt_gauge = (\<lambda>name value labels p. Some p), mt_histogram = (\<lambda>name value labels p. Some p),
      mt_duration = (\<lambda>name d labels p. Some p)\<rparr>"

text \<open>Counting \<open>k\<close> times under one name.\<close>

fun increments :: "'m metrics \<Rightarrow> nat \<Rightarrow> string \<Rightarrow> string str_map \<Rightarrow> 'm \<Rightarrow> 'm option" where
  "increments mt 0 n ls p = Some p"
| "increments mt (Suc k) n ls p =
     (case mt_increment mt n ls p of None \<Rightarrow> None | Some p' \<Rightarrow> increments mt k n ls p')"

text \<open>
  The contract of the interface: a call changes no metric of another name, and one on a name
  that has worked keeps working.  The observation \<open>value_of\<close> is what the scraper reads.
\<close>

locale metrics_sink =
  fixes mt :: "'m metrics" and value_of :: "'m \<Rightarrow> string \<Rightarrow> 'v"
  assumes other_names:
    "mt_increment mt n ls p = Some p1 \<Longrightarrow> n' \<noteq> n \<Longrightarrow> value_of p1 n' = value_of p n'"
    "mt_add mt n v ls p = Some p2 \<Longrightarrow> n' \<noteq> n \<Longrightarrow> value_of p2 n' = value_of p n'"
    "mt_gauge mt n v ls p = Some p3 \<Longrightarrow> n' \<noteq> n \<Longrightarrow> value_of p3 n' = value_of p n'"
    "mt_histogram mt n v ls p = Some p4 \<Longrightarrow> n' \<noteq> n \<Longrightarrow> value_of p4 n' = value_of p n'"
    "mt_duration mt n d ls p = Some p5 \<Longrightarrow> n' \<noteq> n \<Longrightarrow> value_of p5 n' = value_of p n'"
begin

lemma increments_other:
  "increments mt k n ls p = Some p' \<Longrightarrow> n' \<noteq> n \<Longrightarrow> value_of p' n' = value_of p n'"
  by (induction k arbitrary: p) (auto split: option.splits dest: other_names(1))

end

definition prom_values :: "prometheus \<Rightarrow> string \<Rightarrow> rat option \<times> rat option \<times> rat list option" where
  "prom_values p n = (map_of (counters p) n, map_of (gauges p) n, map_of (histograms p) n)"

interpretation prom_sink: metrics_sink PrometheusMetrics prom_values
  by unfold_locales
    (auto simp: PrometheusMetrics_def prom_values_def prom_increment_def prom_add_counter_def
      prom_set_gauge_def prom_histogram_def prom_duration_def split: option.splits if_splits)

interpretation library_sink: metrics_sink "NewLibraryPrometheusMetrics PrometheusMetrics" prom_values
  by unfold_locales
    (auto simp: NewLibraryPrometheusMetrics_def dest: prom_sink.other_names)

interpretation noop_sink: metrics_sink NewNoOpMetrics value_of for value_of
  by unfold_locales (simp_all add: NewNoOpMetrics_def)

lemma prom_add_panics:
  "prom_add_counter n v ls p = None \<longleftrightarrow> map_of (counters p) n = None \<or> v < 0"
  by (auto simp: prom_add_counter_def split: option.split)


section \<open>Spans\<close>

text \<open>Calls on an OpenTelemetry span.\<close>

datatype otel_code = OtelOk | OtelError

datatype otel_call =
    OtelStart string
  | OtelStartInternal string
  | OtelSetStatus otel_code string
  | OtelSetAttributes "string str_map"
  | OtelRecordError go_error
  | OtelEnd

definition OtelSpan_SetStatus :: "span_code \<Rightarrow> string \<Rightarrow> otel_call list" where
  "OtelSpan_SetStatus code description =
     (case code of
        StatusOK \<Rightarrow> [OtelSetStatus OtelOk '''']
      | StatusError \<Rightarrow> [OtelSetStatus OtelError description])"

definition OtelSpan_SetAttributes :: "string str_map \<Rightarrow> otel_call list" where
  "OtelSpan_SetAttributes attrs = [OtelSetAttributes (map (\<lambda>(k, v). (k, v)) attrs)]"

definition OtelSpan_RecordError :: "go_error \<Rightarrow> otel_call list" where
  "OtelSpan_RecordError err = [OtelRecordError err]"

definition OtelSpan_End :: "otel_call list" where
  "OtelSpan_End = [OtelEnd]"

definition OtelTracer_Start :: "string \<Rightarrow> otel_call list" where
  "OtelTracer_Start name = [OtelStart name]"

text \<open>What an event of the trace is on the wrapped span; the rest of the trace is not a span call.\<close>

fun otel_calls :: "event \<Rightarrow> otel_call list" where
  "otel_calls (ESpanStart n) = OtelTracer_Start n"
| "otel_calls (ESpanAttr k v) = OtelSpan_SetAttributes [(k, v)]"
| "otel_calls (ESpanError e) = OtelSpan_RecordError e"
| "otel_calls (ESpanStatus code d) = OtelSpan_SetStatus code d"
| "otel_calls ESpanEnd = OtelSpan_End"
| "otel_calls _ = []"

text \<open>The library's span: the same calls, with the attributes redacted and printed.\<close>

definition LibraryOtelSpan_SetAttribute ::
  "(any \<Rightarrow> string) \<Rightarrow> string \<Rightarrow> any \<Rightarrow> otel_call list" where
  "LibraryOtelSpan_SetAttribute sprint key v = [OtelSetAttributes [(key, attr_value sprint key v)]]"

definition LibraryOtelSpan_SetAttributes :: "(any \<Rightarrow> string) \<Rightarrow> any str_map \<Rightarrow> otel_call list" where
  "LibraryOtelSpan_SetAttributes sprint attrs =
     [OtelSetAttributes (map (\<lambda>(k, v). (k, attr_value sprint k v)) attrs)]"

definition LibraryOtelSpan_SetStatus :: "span_code \<Rightarrow> string \<Rightarrow> otel_call list" where
  "LibraryOtelSpan_SetStatus code description =
     (case code of
        StatusOK \<Rightarrow> [OtelSetStatus OtelOk '''']
      | StatusError \<Rightarrow> [OtelSetStatus OtelError description])"

text \<open>The library's tracer starts internal spans; a recorded error and the end go through as they are.\<close>

definition LibraryOtelTracer_Start :: "string \<Rightarrow> otel_call list" where
  "LibraryOtelTracer_Start name = [OtelStartInternal name]"

definition LibraryOtelSpan_RecordError :: "go_error \<Rightarrow> otel_call list" where
  "LibraryOtelSpan_RecordError err = [OtelRecordError err]"

definition LibraryOtelSpan_End :: "otel_call list" where
  "LibraryOtelSpan_End = [OtelEnd]"

text \<open>The same calls on a service span and on a library span, but for the redaction of attributes.\<close>

fun library_calls :: "(any \<Rightarrow> string) \<Rightarrow> event \<Rightarrow> otel_call list" where
  "library_calls sprint (ESpanStart n) = LibraryOtelTracer_Start n"
| "library_calls sprint (ESpanAttr k v) = LibraryOtelSpan_SetAttribute sprint k (AStr v)"
| "library_calls sprint (ESpanError e) = LibraryOtelSpan_RecordError e"
| "library_calls sprint (ESpanStatus code d) = LibraryOtelSpan_SetStatus code d"
| "library_calls sprint ESpanEnd = LibraryOtelSpan_End"
| "library_calls sprint _ = []"

lemma library_calls_agree:
  assumes "\<And>n. e \<noteq> ESpanStart n" and "\<And>k v. e = ESpanAttr k v \<Longrightarrow> \<not> isRedactedKey k"
  shows "library_calls sprint e = otel_calls e"
proof (cases e)
  case (ESpanAttr k v)
  with assms(2) show ?thesis
    by (simp add: LibraryOtelSpan_SetAttribute_def OtelSpan_SetAttributes_def attr_value_def)
next
  case (ESpanStatus code d)
  then show ?thesis by (cases code) (simp_all add: LibraryOtelSpan_SetStatus_def OtelSpan_SetStatus_def)
qed (use assms(1) in \<open>simp_all add: LibraryOtelSpan_RecordError_def OtelSpan_RecordError_def
    LibraryOtelSpan_End_def OtelSpan_End_def\<close>)

text \<open>The NoOp logger keeps nothing, and \<^verbatim>\<open>With\<close> returns it.\<close>

definition NoOpLogger_calls :: "log_level \<Rightarrow> ctx \<Rightarrow> string \<Rightarrow> any list \<Rightarrow> event list" where
  "NoOpLogger_calls level c msg keysAndValues = []"

text \<open>The NoOp tracer and span make no calls.\<close>

definition NoOpSpan_calls :: "event \<Rightarrow> otel_call list" where
  "NoOpSpan_calls e = []"

text \<open>No library attribute under a deny-listed key reaches the span as it was.\<close>

lemma library_attributes_redacted:
  "OtelSetAttributes kvs \<in> set (LibraryOtelSpan_SetAttributes sprint attrs) \<Longrightarrow>
   (k, v) \<in> set kvs \<Longrightarrow> isRedactedKey k \<Longrightarrow> v = redactedValue"
  by (auto simp: LibraryOtelSpan_SetAttributes_def attr_value_redacted)

lemma ok_status_drops_description:
  "OtelSpan_SetStatus StatusOK d = OtelSpan_SetStatus StatusOK d'"
  by (simp add: OtelSpan_SetStatus_def)

end
