(* ===== verification/Grpc_Service.thy ===== *)
theory Grpc_Service
  imports Messages
begin

text \<open>
  \<^verbatim>\<open>gen/v1/token_engine_grpc.pb.go\<close>: the client stub, the server interface with its
  unimplemented default, the method handlers and the service descriptor, as protoc-gen-go-grpc
  wrote them into the repository.

  The connection and the server that routes a call to a method handler are grpc-go, and the
  wire format is the protobuf library's: parameters.  A failed assertion on the dynamic type of
  a request panics; what the runtime makes of that is a parameter too, so whatever is proved
  without a law about it does not depend on it.
\<close>


section \<open>Method names\<close>

definition TokenEngine_ServiceName :: string where
  "TokenEngine_ServiceName = ''token.v1.TokenEngine''"

definition TokenEngine_IssueToken_FullMethodName :: string where
  "TokenEngine_IssueToken_FullMethodName = ''/token.v1.TokenEngine/IssueToken''"

definition TokenEngine_RefreshToken_FullMethodName :: string where
  "TokenEngine_RefreshToken_FullMethodName = ''/token.v1.TokenEngine/RefreshToken''"

definition TokenEngine_RevokeToken_FullMethodName :: string where
  "TokenEngine_RevokeToken_FullMethodName = ''/token.v1.TokenEngine/RevokeToken''"

definition TokenEngine_RevokeAllForAudience_FullMethodName :: string where
  "TokenEngine_RevokeAllForAudience_FullMethodName = ''/token.v1.TokenEngine/RevokeAllForAudience''"

definition TokenEngine_RevokeAllUserTokens_FullMethodName :: string where
  "TokenEngine_RevokeAllUserTokens_FullMethodName = ''/token.v1.TokenEngine/RevokeAllUserTokens''"

definition TokenEngine_RevokeAllForUserAndAudience_FullMethodName :: string where
  "TokenEngine_RevokeAllForUserAndAudience_FullMethodName =
     ''/token.v1.TokenEngine/RevokeAllForUserAndAudience''"

lemmas full_method_names = TokenEngine_IssueToken_FullMethodName_def
  TokenEngine_RefreshToken_FullMethodName_def TokenEngine_RevokeToken_FullMethodName_def
  TokenEngine_RevokeAllForAudience_FullMethodName_def
  TokenEngine_RevokeAllUserTokens_FullMethodName_def
  TokenEngine_RevokeAllForUserAndAudience_FullMethodName_def


section \<open>The client stub\<close>

text \<open>
  \<^verbatim>\<open>ClientConnInterface.Invoke\<close> of a method on a request with the call's metadata.  A reply
  that did not arrive is an error; one that did is a value of the reply type of the method.
\<close>

type_synonym 's client_conn = "string \<Rightarrow> request \<Rightarrow> outgoing \<Rightarrow> 's \<Rightarrow> (go_error + response) \<times> 's"

definition stub_IssueToken :: "'s client_conn \<Rightarrow> issue_token_request \<Rightarrow> outgoing \<Rightarrow> 's \<Rightarrow> (go_error + response) \<times> 's" where
  "stub_IssueToken cc req = cc TokenEngine_IssueToken_FullMethodName (IssueReq req)"

definition stub_RefreshToken :: "'s client_conn \<Rightarrow> refresh_token_request \<Rightarrow> outgoing \<Rightarrow> 's \<Rightarrow> (go_error + response) \<times> 's" where
  "stub_RefreshToken cc req = cc TokenEngine_RefreshToken_FullMethodName (RefreshReq req)"

definition stub_RevokeToken :: "'s client_conn \<Rightarrow> revoke_token_request \<Rightarrow> outgoing \<Rightarrow> 's \<Rightarrow> (go_error + response) \<times> 's" where
  "stub_RevokeToken cc req = cc TokenEngine_RevokeToken_FullMethodName (RevokeReq req)"

definition stub_RevokeAllForAudience ::
  "'s client_conn \<Rightarrow> revoke_audience_request \<Rightarrow> outgoing \<Rightarrow> 's \<Rightarrow> (go_error + response) \<times> 's" where
  "stub_RevokeAllForAudience cc req =
     cc TokenEngine_RevokeAllForAudience_FullMethodName (RevokeAudienceReq req)"

definition stub_RevokeAllUserTokens ::
  "'s client_conn \<Rightarrow> revoke_user_request \<Rightarrow> outgoing \<Rightarrow> 's \<Rightarrow> (go_error + response) \<times> 's" where
  "stub_RevokeAllUserTokens cc req = cc TokenEngine_RevokeAllUserTokens_FullMethodName (RevokeUserReq req)"

definition stub_RevokeAllForUserAndAudience ::
  "'s client_conn \<Rightarrow> revoke_user_and_audience_request \<Rightarrow> outgoing \<Rightarrow> 's \<Rightarrow> (go_error + response) \<times> 's" where
  "stub_RevokeAllForUserAndAudience cc req =
     cc TokenEngine_RevokeAllForUserAndAudience_FullMethodName (RevokeUserAudienceReq req)"


section \<open>The server interface\<close>

record 's token_engine_server =
  srv_IssueToken :: "ctx \<Rightarrow> issue_token_request \<Rightarrow> 's \<Rightarrow> (go_error + token_pair) \<times> 's"
  srv_RefreshToken :: "ctx \<Rightarrow> refresh_token_request \<Rightarrow> 's \<Rightarrow> (go_error + token_pair) \<times> 's"
  srv_RevokeToken :: "ctx \<Rightarrow> revoke_token_request \<Rightarrow> 's \<Rightarrow> (go_error + unit) \<times> 's"
  srv_RevokeAllForAudience :: "ctx \<Rightarrow> revoke_audience_request \<Rightarrow> 's \<Rightarrow> (go_error + unit) \<times> 's"
  srv_RevokeAllUserTokens :: "ctx \<Rightarrow> revoke_user_request \<Rightarrow> 's \<Rightarrow> (go_error + unit) \<times> 's"
  srv_RevokeAllForUserAndAudience ::
    "ctx \<Rightarrow> revoke_user_and_audience_request \<Rightarrow> 's \<Rightarrow> (go_error + unit) \<times> 's"

definition unimplemented :: "string \<Rightarrow> ctx \<Rightarrow> 'q \<Rightarrow> 's \<Rightarrow> (go_error + 'r) \<times> 's" where
  "unimplemented name c req s =
     (Inl (StatusErr Unimplemented (''method '' @ name @ '' not implemented'')), s)"

definition UnimplementedTokenEngineServer :: "'s token_engine_server" where
  "UnimplementedTokenEngineServer =
     \<lparr>srv_IssueToken = unimplemented ''IssueToken'',
      srv_RefreshToken = unimplemented ''RefreshToken'',
      srv_RevokeToken = unimplemented ''RevokeToken'',
      srv_RevokeAllForAudience = unimplemented ''RevokeAllForAudience'',
      srv_RevokeAllUserTokens = unimplemented ''RevokeAllUserTokens'',
      srv_RevokeAllForUserAndAudience = unimplemented ''RevokeAllForUserAndAudience''\<rparr>"


section \<open>The method handlers\<close>

text \<open>A typed reply as a response of the chain.\<close>

definition pair_reply :: "(go_error + token_pair) \<times> 's \<Rightarrow> (go_error + response) \<times> 's" where
  "pair_reply = map_prod (map_sum id PairResp) id"

definition revoke_reply :: "(go_error + unit) \<times> 's \<Rightarrow> (go_error + response) \<times> 's" where
  "revoke_reply = map_prod (map_sum id (\<lambda>_. RevokeResp)) id"

text \<open>
  The shape the six handlers share: decode the request, then either call the server directly or
  hand the interceptor the method's name and a handler that asserts the request's type.
\<close>

definition unary_handler ::
  "string \<Rightarrow> ('q \<Rightarrow> request) \<Rightarrow> 's handler \<Rightarrow> (ctx \<Rightarrow> 'q \<Rightarrow> 's \<Rightarrow> (go_error + response) \<times> 's) \<Rightarrow>
   ctx \<Rightarrow> go_error + 'q \<Rightarrow> 's interceptor option \<Rightarrow> 's \<Rightarrow> (go_error + response) \<times> 's" where
  "unary_handler fullMethod as_any hdl call c dec interceptor s =
     (case dec of
        Inl err \<Rightarrow> (Inl err, s)
      | Inr req \<Rightarrow>
          (case interceptor of
             None \<Rightarrow> call c req s
           | Some i \<Rightarrow> i fullMethod hdl c (as_any req) s))"

definition IssueToken_Handler ::
  "'s handler \<Rightarrow> 's token_engine_server \<Rightarrow> ctx \<Rightarrow> go_error + issue_token_request \<Rightarrow>
   's interceptor option \<Rightarrow> 's \<Rightarrow> (go_error + response) \<times> 's" where
  "IssueToken_Handler panic srv =
     unary_handler TokenEngine_IssueToken_FullMethodName IssueReq
       (\<lambda>c req s. case req of IssueReq r \<Rightarrow> pair_reply (srv_IssueToken srv c r s) | _ \<Rightarrow> panic c req s)
       (\<lambda>c r s. pair_reply (srv_IssueToken srv c r s))"

definition RefreshToken_Handler ::
  "'s handler \<Rightarrow> 's token_engine_server \<Rightarrow> ctx \<Rightarrow> go_error + refresh_token_request \<Rightarrow>
   's interceptor option \<Rightarrow> 's \<Rightarrow> (go_error + response) \<times> 's" where
  "RefreshToken_Handler panic srv =
     unary_handler TokenEngine_RefreshToken_FullMethodName RefreshReq
       (\<lambda>c req s. case req of RefreshReq r \<Rightarrow> pair_reply (srv_RefreshToken srv c r s) | _ \<Rightarrow> panic c req s)
       (\<lambda>c r s. pair_reply (srv_RefreshToken srv c r s))"

definition RevokeToken_Handler ::
  "'s handler \<Rightarrow> 's token_engine_server \<Rightarrow> ctx \<Rightarrow> go_error + revoke_token_request \<Rightarrow>
   's interceptor option \<Rightarrow> 's \<Rightarrow> (go_error + response) \<times> 's" where
  "RevokeToken_Handler panic srv =
     unary_handler TokenEngine_RevokeToken_FullMethodName RevokeReq
       (\<lambda>c req s. case req of RevokeReq r \<Rightarrow> revoke_reply (srv_RevokeToken srv c r s) | _ \<Rightarrow> panic c req s)
       (\<lambda>c r s. revoke_reply (srv_RevokeToken srv c r s))"

definition RevokeAllForAudience_Handler ::
  "'s handler \<Rightarrow> 's token_engine_server \<Rightarrow> ctx \<Rightarrow> go_error + revoke_audience_request \<Rightarrow>
   's interceptor option \<Rightarrow> 's \<Rightarrow> (go_error + response) \<times> 's" where
  "RevokeAllForAudience_Handler panic srv =
     unary_handler TokenEngine_RevokeAllForAudience_FullMethodName RevokeAudienceReq
       (\<lambda>c req s. case req of RevokeAudienceReq r \<Rightarrow> revoke_reply (srv_RevokeAllForAudience srv c r s)
                            | _ \<Rightarrow> panic c req s)
       (\<lambda>c r s. revoke_reply (srv_RevokeAllForAudience srv c r s))"

definition RevokeAllUserTokens_Handler ::
  "'s handler \<Rightarrow> 's token_engine_server \<Rightarrow> ctx \<Rightarrow> go_error + revoke_user_request \<Rightarrow>
   's interceptor option \<Rightarrow> 's \<Rightarrow> (go_error + response) \<times> 's" where
  "RevokeAllUserTokens_Handler panic srv =
     unary_handler TokenEngine_RevokeAllUserTokens_FullMethodName RevokeUserReq
       (\<lambda>c req s. case req of RevokeUserReq r \<Rightarrow> revoke_reply (srv_RevokeAllUserTokens srv c r s)
                            | _ \<Rightarrow> panic c req s)
       (\<lambda>c r s. revoke_reply (srv_RevokeAllUserTokens srv c r s))"

definition RevokeAllForUserAndAudience_Handler ::
  "'s handler \<Rightarrow> 's token_engine_server \<Rightarrow> ctx \<Rightarrow> go_error + revoke_user_and_audience_request \<Rightarrow>
   's interceptor option \<Rightarrow> 's \<Rightarrow> (go_error + response) \<times> 's" where
  "RevokeAllForUserAndAudience_Handler panic srv =
     unary_handler TokenEngine_RevokeAllForUserAndAudience_FullMethodName RevokeUserAudienceReq
       (\<lambda>c req s. case req of RevokeUserAudienceReq r \<Rightarrow> revoke_reply (srv_RevokeAllForUserAndAudience srv c r s)
                            | _ \<Rightarrow> panic c req s)
       (\<lambda>c r s. revoke_reply (srv_RevokeAllForUserAndAudience srv c r s))"

lemmas method_handler_defs = IssueToken_Handler_def RefreshToken_Handler_def RevokeToken_Handler_def
  RevokeAllForAudience_Handler_def RevokeAllUserTokens_Handler_def
  RevokeAllForUserAndAudience_Handler_def


section \<open>The service descriptor\<close>

text \<open>How the protobuf library reads each request type from the wire, and writes a request.\<close>

record wire =
  wr_encode :: "request \<Rightarrow> bytes"
  wr_issue :: "bytes \<Rightarrow> go_error + issue_token_request"
  wr_refresh :: "bytes \<Rightarrow> go_error + refresh_token_request"
  wr_revoke :: "bytes \<Rightarrow> go_error + revoke_token_request"
  wr_revoke_audience :: "bytes \<Rightarrow> go_error + revoke_audience_request"
  wr_revoke_user :: "bytes \<Rightarrow> go_error + revoke_user_request"
  wr_revoke_user_audience :: "bytes \<Rightarrow> go_error + revoke_user_and_audience_request"

text \<open>
  The law of the wire: a message is read as it was written.  It is protobuf's on the requests whose
  strings are valid UTF-8 and whose claims are not a map without entries: protobuf refuses to
  write other strings, and reads an empty map as nil.
\<close>

definition wire_ok :: "wire \<Rightarrow> bool" where
  "wire_ok w \<longleftrightarrow>
     (\<forall>r. wr_issue w (wr_encode w (IssueReq r)) = Inr r) \<and>
     (\<forall>r. wr_refresh w (wr_encode w (RefreshReq r)) = Inr r) \<and>
     (\<forall>r. wr_revoke w (wr_encode w (RevokeReq r)) = Inr r) \<and>
     (\<forall>r. wr_revoke_audience w (wr_encode w (RevokeAudienceReq r)) = Inr r) \<and>
     (\<forall>r. wr_revoke_user w (wr_encode w (RevokeUserReq r)) = Inr r) \<and>
     (\<forall>r. wr_revoke_user_audience w (wr_encode w (RevokeUserAudienceReq r)) = Inr r)"

type_synonym 's method_desc =
  "string \<times> (ctx \<Rightarrow> bytes \<Rightarrow> 's interceptor option \<Rightarrow> 's \<Rightarrow> (go_error + response) \<times> 's)"

definition TokenEngine_Methods :: "wire \<Rightarrow> 's handler \<Rightarrow> 's token_engine_server \<Rightarrow> 's method_desc list" where
  "TokenEngine_Methods w panic srv =
     [(''IssueToken'', \<lambda>c bs. IssueToken_Handler panic srv c (wr_issue w bs)),
      (''RefreshToken'', \<lambda>c bs. RefreshToken_Handler panic srv c (wr_refresh w bs)),
      (''RevokeToken'', \<lambda>c bs. RevokeToken_Handler panic srv c (wr_revoke w bs)),
      (''RevokeAllForAudience'', \<lambda>c bs. RevokeAllForAudience_Handler panic srv c (wr_revoke_audience w bs)),
      (''RevokeAllUserTokens'', \<lambda>c bs. RevokeAllUserTokens_Handler panic srv c (wr_revoke_user w bs)),
      (''RevokeAllForUserAndAudience'',
        \<lambda>c bs. RevokeAllForUserAndAudience_Handler panic srv c (wr_revoke_user_audience w bs))]"

text \<open>
  How grpc-go finds the handler of a full method name among the methods of a registered service:
  by the name behind the service's own.
\<close>

type_synonym 's route = "string \<Rightarrow> 's method_desc list \<Rightarrow> string \<Rightarrow>
  (ctx \<Rightarrow> bytes \<Rightarrow> 's interceptor option \<Rightarrow> 's \<Rightarrow> (go_error + response) \<times> 's) option"

definition routes_by_name :: "'s route \<Rightarrow> bool" where
  "routes_by_name route \<longleftrightarrow>
     (\<forall>service methods name. route service methods (''/'' @ service @ ''/'' @ name) = map_of methods name)"

text \<open>The full method name the stub uses for a request; a request of no method has none.\<close>

fun full_method :: "request \<Rightarrow> string option" where
  "full_method (IssueReq _) = Some TokenEngine_IssueToken_FullMethodName"
| "full_method (RefreshReq _) = Some TokenEngine_RefreshToken_FullMethodName"
| "full_method (RevokeReq _) = Some TokenEngine_RevokeToken_FullMethodName"
| "full_method (RevokeAudienceReq _) = Some TokenEngine_RevokeAllForAudience_FullMethodName"
| "full_method (RevokeUserReq _) = Some TokenEngine_RevokeAllUserTokens_FullMethodName"
| "full_method (RevokeUserAudienceReq _) = Some TokenEngine_RevokeAllForUserAndAudience_FullMethodName"
| "full_method OtherReq = None"

end
