(* ===== verification/Access_Properties.thy ===== *)
theory Access_Properties
  imports Validation Idempotency
begin

text \<open>
  The guarantees of the interceptor chain: who is authenticated, who is authorized, which
  requests are well formed, and what the chain of \<^verbatim>\<open>cmd/token-engine/main.go\<close> makes of the
  five interceptors together.
\<close>


section \<open>The chain\<close>

text \<open>
  The interceptors in the order of main.go: correlation, authentication, caller authorization,
  validation, idempotency.  (The OpenTelemetry interceptor outside them is third-party code.)
\<close>

definition service_chain ::
  "('a world_scheme \<Rightarrow> string \<times> 'a world_scheme) \<Rightarrow> authenticate \<Rightarrow> is_permitted \<Rightarrow> codec \<Rightarrow>
   'a world_scheme idempotency_store \<Rightarrow> 'a world_scheme interceptor list" where
  "service_chain uuid auth isPermitted pc st =
     [NewCorrelationInterceptor uuid,
      NewAuthInterceptor auth,
      NewCallerAuthorizationInterceptor isPermitted,
      NewValidationInterceptor,
      NewIdempotencyInterceptor pc st]"


section \<open>Authentication\<close>

text \<open>
  mTLS authentication.  The rest of the chain runs exactly if the peer presented a client
  certificate whose Common Name is not empty, and then with that name, of the first
  certificate, as the caller identity; any other peer is answered with codes.Unauthenticated
  and nothing runs.
\<close>
theorem mtls_authentication:
  "(\<exists>identity cns. ctx_peer c = Some (TLSInfo (identity # cns)) \<and> identity \<noteq> '''' \<and>
      NewAuthInterceptor MTLSAuthenticate m h c req s = h (WithCallerIdentity c identity) req s) \<or>
   ((\<nexists>identity cns. ctx_peer c = Some (TLSInfo (identity # cns)) \<and> identity \<noteq> '''') \<and>
      (\<exists>msg. NewAuthInterceptor MTLSAuthenticate m h c req s = (Inl (StatusErr Unauthenticated msg), s)))"
proof (cases "MTLSAuthenticate c")
  case (Inl e)
  then have "\<nexists>identity cns. ctx_peer c = Some (TLSInfo (identity # cns)) \<and> identity \<noteq> ''''"
    using mtls_identity [of c] by auto
  with mtls.rejects [OF Inl] show ?thesis by blast
next
  case (Inr identity)
  with mtls_identity [of c identity] show ?thesis by (auto simp: NewAuthInterceptor_def)
qed

text \<open>
  API-key authentication.  The rest of the chain runs exactly if the first x-api-key value
  of the metadata is a configured key, and then as the identity that key maps to; otherwise
  the answer is codes.Unauthenticated and nothing runs.
\<close>
theorem static_key_authentication:
  "(\<exists>md k ks identity. incoming_md c = Some md \<and> md_get md MetadataKeyAPIKey = k # ks \<and>
      map_of keys k = Some identity \<and>
      NewAuthInterceptor (StaticKeyAuthenticate keys) m h c req s = h (WithCallerIdentity c identity) req s) \<or>
   ((\<nexists>md k ks identity. incoming_md c = Some md \<and> md_get md MetadataKeyAPIKey = k # ks \<and>
      map_of keys k = Some identity) \<and>
      (\<exists>msg. NewAuthInterceptor (StaticKeyAuthenticate keys) m h c req s = (Inl (StatusErr Unauthenticated msg), s)))"
proof (cases "StaticKeyAuthenticate keys c")
  case (Inl e)
  then have "\<nexists>md k ks identity. incoming_md c = Some md \<and> md_get md MetadataKeyAPIKey = k # ks \<and>
      map_of keys k = Some identity"
    using static_key_identity [of keys c] by (metis Inl_Inr_False)
  with static_key.rejects [OF Inl] show ?thesis by blast
next
  case (Inr identity)
  with static_key_identity [of keys c identity] show ?thesis by (auto simp: NewAuthInterceptor_def)
qed


section \<open>Authorization\<close>

lemma find_rev_in: "find P (rev es) = Some e \<Longrightarrow> e \<in> set es \<and> P e"
proof -
  assume "find P (rev es) = Some e"
  from find_first_split [OF this] obtain us vs where "rev es = us @ e # vs" "P e" by blast
  moreover have "e \<in> set (us @ e # vs)" by simp
  ultimately show ?thesis by (metis set_rev)
qed

lemma find_unique:
  assumes "distinct (map Identity es)"
  shows "find (\<lambda>e. Identity e = i) (rev es) = Some e \<longleftrightarrow> e \<in> set es \<and> Identity e = i"
proof
  assume "find (\<lambda>e. Identity e = i) (rev es) = Some e"
  then show "e \<in> set es \<and> Identity e = i" by (rule find_rev_in)
next
  assume e: "e \<in> set es \<and> Identity e = i"
  then have "find (\<lambda>e. Identity e = i) (rev es) \<noteq> None" by (auto simp: find_None_iff)
  then obtain e' where e': "find (\<lambda>e. Identity e = i) (rev es) = Some e'" by blast
  from find_rev_in [OF this] e assms have "e' = e" by (auto simp: distinct_map dest: inj_onD)
  with e' show "find (\<lambda>e. Identity e = i) (rev es) = Some e" by simp
qed

lemma static_permits:
  assumes "distinct (map Identity (Callers cfg))" and "t \<noteq> ''''"
  shows "StaticIsPermitted (NewStaticCallerRegistry cfg) i t =
    (if \<exists>e\<in>set (Callers cfg). Identity e = i \<and> t \<in> set (PermittedTenants e) then (True, None)
     else (False, Some (StatusErr PermissionDenied ''caller not authorized'')))"
proof (cases "find (\<lambda>e. Identity e = i) (rev (Callers cfg))")
  case None
  then have "\<not> (\<exists>e\<in>set (Callers cfg). Identity e = i \<and> t \<in> set (PermittedTenants e))"
    by (simp add: find_None_iff)
  with None assms(2) show ?thesis
    by (simp add: StaticIsPermitted_def map_of_static_registry)
next
  case (Some e)
  with find_unique [OF assms(1), of i] have "(\<exists>e'\<in>set (Callers cfg). Identity e' = i \<and> t \<in> set (PermittedTenants e'))
      \<longleftrightarrow> t \<in> set (PermittedTenants e)" by (metis option.inject)
  with Some assms(2) show ?thesis
    by (simp add: StaticIsPermitted_def map_of_static_registry map_of_tenant_set)
qed

text \<open>
  C31: Caller authorization.  Under a caller registry in which no identity occurs twice, a
  request for a tenant, on any method but the health checks', reaches the rest of the chain
  exactly if the registry lists that tenant for the authenticated caller; otherwise the answer
  is codes.PermissionDenied, and nothing runs.
\<close>
theorem caller_authorization:
  assumes "distinct (map Identity (Callers cfg))" and "\<not> has_prefix m grpcHealthPrefix"
    and "CallerIdentityFromContext c = i" and "i \<noteq> ''''"
    and "GetTenantId req = Some t" and "t \<noteq> ''''"
  shows "NewCallerAuthorizationInterceptor (StaticIsPermitted (NewStaticCallerRegistry cfg)) m h c req s =
    (if \<exists>e\<in>set (Callers cfg). Identity e = i \<and> t \<in> set (PermittedTenants e) then h c req s
     else (Inl (StatusErr PermissionDenied ''caller not authorized''), s))"
proof -
  have "NewCallerAuthorizationInterceptor (StaticIsPermitted (NewStaticCallerRegistry cfg)) m h c req s =
      (case StaticIsPermitted (NewStaticCallerRegistry cfg) i t of
         (_, Some e) \<Rightarrow> (Inl e, s) | (True, None) \<Rightarrow> h c req s
       | (False, None) \<Rightarrow> (Inl (StatusErr PermissionDenied ''caller not authorized''), s))"
    using assms(2-5) by (auto simp: NewCallerAuthorizationInterceptor_def Let_def split: option.split bool.split prod.split)
  then show ?thesis unfolding static_permits [OF assms(1,6), of i] by (auto split: if_splits)
qed

definition sample_callers :: caller_registry_config where
  "sample_callers = \<lparr>Version = 1, Callers = [\<lparr>Identity = ''svc'', PermittedTenants = [''t'']\<rparr>]\<rparr>"

theorem caller_authorization_witness:
  "fst (NewCallerAuthorizationInterceptor (StaticIsPermitted (NewStaticCallerRegistry sample_callers))
     grpcMethodIssueToken (\<lambda>c r s. (Inr RevokeResp, s)) (WithCallerIdentity background ''svc'')
     (RevokeReq \<lparr>t_refresh_token = ''rt'', t_tenant_id = ''u''\<rparr>) (\<lparr>clock = 0, trace = []\<rparr> :: world)) =
   Inl (StatusErr PermissionDenied ''caller not authorized'')"
proof -
  have "\<not> has_prefix grpcMethodIssueToken grpcHealthPrefix"
    by (simp add: has_prefix_def grpcMethodIssueToken_def grpcHealthPrefix_def)
  from caller_authorization [where cfg = sample_callers and i = "''svc''" and t = "''u''" and
      c = "WithCallerIdentity background ''svc''" and h = "\<lambda>c r s. (Inr RevokeResp, s)" and
      s = "\<lparr>clock = 0, trace = []\<rparr> :: world" and
      req = "RevokeReq \<lparr>t_refresh_token = ''rt'', t_tenant_id = ''u''\<rparr>", OF _ this]
  show ?thesis by (simp add: sample_callers_def)
qed


section \<open>Validation\<close>

text \<open>
  C32: Validation.  The handler runs exactly on the well-formed requests: a tenant, the fields
  the method needs, and no reserved JWT claim among the custom claims; every other request is
  answered with codes.InvalidArgument, before store, registry or library is touched.
\<close>
theorem validation_exact:
  "(well_formed_request req \<and> NewValidationInterceptor m h c req s = h c req s) \<or>
   (\<not> well_formed_request req \<and>
    (\<exists>msg. NewValidationInterceptor m h c req s = (Inl (StatusErr InvalidArgument msg), s)))"
  using validation_accepts [of req m h c s] validation_rejects [of req m h c s] by blast


section \<open>The whole chain\<close>

text \<open>What lets a call through the three gates.\<close>

definition admitted :: "authenticate \<Rightarrow> is_permitted \<Rightarrow> string \<Rightarrow> ctx \<Rightarrow> request \<Rightarrow> bool" where
  "admitted auth isPermitted m c req \<longleftrightarrow>
     (\<exists>identity. auth c = Inr identity \<and>
       (has_prefix m grpcHealthPrefix \<or>
        (identity \<noteq> '''' \<and> isPermitted identity (case GetTenantId req of None \<Rightarrow> '''' | Some t \<Rightarrow> t) = (True, None)))) \<and>
     well_formed_request req"

lemma guarded_part:
  assumes auth: "\<And>c c'. ctx_peer c = ctx_peer c' \<Longrightarrow> incoming_md c = incoming_md c' \<Longrightarrow> auth c = auth c'"
    and a: "authenticator auth" and p: "caller_registry isPermitted"
    and no: "\<not> admitted auth isPermitted m c req"
    and c': "ctx_peer c' = ctx_peer c" "incoming_md c' = incoming_md c"
  shows "\<exists>e. (\<forall>h s. NewAuthInterceptor auth m (NewCallerAuthorizationInterceptor isPermitted m
      (NewValidationInterceptor m (h :: 'a world_scheme handler))) c' req s = (Inl e, s)) \<and>
    status_code (Some e) \<in> {Unauthenticated, PermissionDenied, Internal, InvalidArgument}"
proof (cases "auth c")
  case (Inl e)
  then have "auth c' = Inl e" using auth c' by metis
  moreover have "status_code (Some e) = Unauthenticated"
    using authenticator.fails_unauthenticated [OF a Inl] by auto
  ultimately show ?thesis by (auto simp: NewAuthInterceptor_def)
next
  case (Inr identity)
  then have auth': "auth c' = Inr identity" using auth c' by metis
  let ?t = "case GetTenantId req of None \<Rightarrow> '''' | Some t \<Rightarrow> t"
  show ?thesis
  proof (cases "has_prefix m grpcHealthPrefix \<or> (identity \<noteq> '''' \<and> isPermitted identity ?t = (True, None))")
    case True
    with no Inr have "\<not> well_formed_request req" by (auto simp: admitted_def)
    then obtain e where e: "validate_request req = Some e"
      using validate_request_None [of req] by auto
    from True e auth' validate_request_Some [OF e] show ?thesis
      by (auto simp: NewAuthInterceptor_def NewCallerAuthorizationInterceptor_def
          NewValidationInterceptor_def Let_def)
  next
    case False
    with caller_registry.permit_or_deny [OF p, of identity ?t] auth' show ?thesis
      by (cases "identity = ''''") (auto simp: NewAuthInterceptor_def NewCallerAuthorizationInterceptor_def Let_def)
  qed
qed

text \<open>The state in which the correlation interceptor hands a call on.\<close>

definition correlated ::
  "('a world_scheme \<Rightarrow> string \<times> 'a world_scheme) \<Rightarrow> ctx \<Rightarrow> 'a world_scheme \<Rightarrow> string \<times> 'a world_scheme" where
  "correlated uuid c s = (if request_correlation_id c = '''' then uuid s else (request_correlation_id c, s))"

lemma correlation_run:
  "\<exists>s1. only_logged (snd (correlated uuid c s)) s1 \<and>
    (\<forall>h. \<exists>s'. only_logged (snd (h (WithCorrelationID c (fst (correlated uuid c s))) req s1)) s' \<and>
      NewCorrelationInterceptor uuid m h c req s =
        (fst (h (WithCorrelationID c (fst (correlated uuid c s))) req s1), s'))"
proof -
  obtain corrID t where ct: "correlated uuid c s = (corrID, t)" by fastforce
  show ?thesis
    by (intro exI [of _ "emit (EHeader MetadataKeyCorrelationID corrID) (emit (ESpanAttr ''correlation_id'' corrID) t)"])
      (auto simp: ct NewCorrelationInterceptor_def correlated_def [symmetric] Let_def split: prod.splits)
qed

lemma correlation_cong:
  assumes "\<And>t. h (WithCorrelationID c (fst (correlated uuid c s))) req t =
    h' (WithCorrelationID c (fst (correlated uuid c s))) req t"
  shows "NewCorrelationInterceptor uuid m h c req s = NewCorrelationInterceptor uuid m h' c req s"
proof -
  obtain corrID t0 where ct: "correlated uuid c s = (corrID, t0)" by fastforce
  with assms have "h (WithCorrelationID c corrID) req t = h' (WithCorrelationID c corrID) req t" for t
    by simp
  then show ?thesis
    by (simp add: NewCorrelationInterceptor_def correlated_def [symmetric] ct Let_def)
qed

text \<open>An authenticator reads nothing of the context but the peer and the metadata.\<close>

definition reads_credentials :: "authenticate \<Rightarrow> bool" where
  "reads_credentials auth \<longleftrightarrow>
     (\<forall>c c'. ctx_peer c = ctx_peer c' \<longrightarrow> incoming_md c = incoming_md c' \<longrightarrow> auth c = auth c')"

lemma credentials_read: "reads_credentials MTLSAuthenticate" "reads_credentials (StaticKeyAuthenticate keys)"
  by (simp_all add: reads_credentials_def MTLSAuthenticate_def StaticKeyAuthenticate_def)

text \<open>
  C8: The chain guards store and handler.  A call that is not authenticated, whose caller is
  not permitted for its tenant, or that is not well formed, is refused with a status of one of
  the four gates' codes; the outcome does not depend on the handler, the idempotency store or
  the codec, and everything behind the interfaces (store, registry, library) is as the
  correlation interceptor found it.  So in particular an invalid request never claims an
  idempotency key.
\<close>
theorem chain_guards:
  assumes "authenticator auth" and "reads_credentials auth" and "caller_registry isPermitted"
    and "\<not> admitted auth isPermitted m c req"
  shows "\<exists>e s'. (\<forall>h pc st. chain (service_chain uuid auth isPermitted pc st) m h c req s = (Inl e, s')) \<and>
    status_code (Some e) \<in> {Unauthenticated, PermissionDenied, Internal, InvalidArgument} \<and>
    only_logged (snd (correlated uuid c s)) s'"
proof -
  let ?c = "WithCorrelationID c (fst (correlated uuid c s))"
  have reads: "auth c = auth c'" if "ctx_peer c = ctx_peer c'" "incoming_md c = incoming_md c'" for c c'
    using assms(2) that unfolding reads_credentials_def by blast
  have c: "ctx_peer ?c = ctx_peer c" "incoming_md ?c = incoming_md c" by simp_all
  from guarded_part [OF reads assms(1,3,4) c] obtain e where
    e: "\<forall>(h :: 'a world_scheme handler) s. NewAuthInterceptor auth m (NewCallerAuthorizationInterceptor isPermitted m
      (NewValidationInterceptor m h)) ?c req s = (Inl e, s)"
      "status_code (Some e) \<in> {Unauthenticated, PermissionDenied, Internal, InvalidArgument}"
    by blast
  obtain s1 where s1: "only_logged (snd (correlated uuid c s)) s1"
    and run: "\<And>h. \<exists>s'. only_logged (snd (h ?c req s1)) s' \<and>
      NewCorrelationInterceptor uuid m h c req s = (fst (h ?c req s1), s')"
    using correlation_run [of uuid c s req m] by blast
  let ?inner = "\<lambda>h. NewAuthInterceptor auth m (NewCallerAuthorizationInterceptor isPermitted m
      (NewValidationInterceptor m h))"
  have chain: "chain (service_chain uuid auth isPermitted pc st) m h =
      NewCorrelationInterceptor uuid m (?inner (NewIdempotencyInterceptor pc st m h))" for pc st h
    by (simp add: service_chain_def)
  have same: "NewCorrelationInterceptor uuid m (?inner h) c req s =
      NewCorrelationInterceptor uuid m (\<lambda>c r s. (Inl e, s)) c req s" for h
    by (rule correlation_cong) (simp add: e(1))
  from run [of "\<lambda>c r s. (Inl e, s)"] obtain s' where s': "only_logged s1 s'"
    "NewCorrelationInterceptor uuid m (\<lambda>c r s. (Inl e, s)) c req s = (Inl e, s')" by auto
  have "\<forall>h pc st. chain (service_chain uuid auth isPermitted pc st) m h c req s = (Inl e, s')"
    unfolding chain same s'(2) by simp
  with e(2) only_logged_trans [OF s1 s'(1)] show ?thesis by blast
qed

theorem chain_guards_witness:
  "\<exists>e s'. (\<forall>h pc st. chain (service_chain (\<lambda>s. (''id'', s)) MTLSAuthenticate NoOpIsPermitted pc st)
      grpcMethodIssueToken h background (RevokeReq \<lparr>t_refresh_token = ''rt'', t_tenant_id = ''t''\<rparr>)
      (\<lparr>clock = 0, trace = []\<rparr> :: world) = (Inl e, s')) \<and>
    status_code (Some e) \<in> {Unauthenticated, PermissionDenied, Internal, InvalidArgument}"
proof -
  have "\<not> admitted MTLSAuthenticate NoOpIsPermitted grpcMethodIssueToken background
      (RevokeReq \<lparr>t_refresh_token = ''rt'', t_tenant_id = ''t''\<rparr>)"
    by (simp add: admitted_def mtls_identity background_def)
  from chain_guards [OF mtls.authenticator_axioms credentials_read(1) noop_reg.caller_registry_axioms this,
      where uuid = "\<lambda>s. (''id'', s)" and s = "\<lparr>clock = 0, trace = []\<rparr> :: world"]
  show ?thesis by blast
qed

text \<open>An admitted call: its answer and its world are the idempotency interceptor's.\<close>

lemma chain_run:
  assumes "reads_credentials auth" and "auth c = Inr identity" and "identity \<noteq> ''''"
    and "isPermitted identity (case GetTenantId req of None \<Rightarrow> '''' | Some t \<Rightarrow> t) = (True, None)"
    and "well_formed_request req"
  shows "\<exists>s1. only_logged (snd (correlated uuid c s)) s1 \<and>
    (let served = NewIdempotencyInterceptor pc st m h
           (WithCallerIdentity (WithCorrelationID c (fst (correlated uuid c s))) identity) req s1;
         run = chain (service_chain uuid auth isPermitted pc st) m h c req s
     in fst run = fst served \<and> only_logged (snd served) (snd run))"
proof -
  let ?c = "WithCorrelationID c (fst (correlated uuid c s))"
  have auth: "auth ?c = Inr identity"
    using assms(1,2) unfolding reads_credentials_def by (metis context_get_set(5,7))
  have inner: "NewAuthInterceptor auth m (NewCallerAuthorizationInterceptor isPermitted m
      (NewValidationInterceptor m h')) ?c req t = h' (WithCallerIdentity ?c identity) req t"
    for h' :: "'a world_scheme handler" and t
    using assms auth validation_accepts [OF assms(5)]
    by (simp add: NewAuthInterceptor_def NewCallerAuthorizationInterceptor_def Let_def)
  obtain s1 where s1: "only_logged (snd (correlated uuid c s)) s1"
    and run: "\<And>h. \<exists>s'. only_logged (snd (h ?c req s1)) s' \<and>
      NewCorrelationInterceptor uuid m h c req s = (fst (h ?c req s1), s')"
    using correlation_run [of uuid c s req m] by blast
  have "fst (chain (service_chain uuid auth isPermitted pc st) m h c req s) =
      fst (NewIdempotencyInterceptor pc st m h (WithCallerIdentity ?c identity) req s1) \<and>
    only_logged (snd (NewIdempotencyInterceptor pc st m h (WithCallerIdentity ?c identity) req s1))
      (snd (chain (service_chain uuid auth isPermitted pc st) m h c req s))"
    unfolding service_chain_def chain.simps
    using run [of "NewAuthInterceptor auth m (NewCallerAuthorizationInterceptor isPermitted m
        (NewValidationInterceptor m (NewIdempotencyInterceptor pc st m h)))", unfolded inner] by auto
  with s1 show ?thesis by (auto simp: Let_def)
qed

text \<open>
  The chain serves what it admits.  An admitted call of a method other than the health
  checks' is answered as the idempotency interceptor answers it, on a context that carries the
  caller identity the authenticator established and the request's correlation ID, and on a
  world that differs from the one the call found only by the correlation events.
\<close>
theorem chain_serves:
  assumes "reads_credentials auth" and "auth c = Inr identity" and "identity \<noteq> ''''"
    and "isPermitted identity (case GetTenantId req of None \<Rightarrow> '''' | Some t \<Rightarrow> t) = (True, None)"
    and "well_formed_request req"
  shows "\<exists>s1. only_logged (snd (correlated uuid c s)) s1 \<and>
    fst (chain (service_chain uuid auth isPermitted pc st) m h c req s) =
      fst (NewIdempotencyInterceptor pc st m h
             (WithCallerIdentity (WithCorrelationID c (fst (correlated uuid c s))) identity) req s1)"
  using chain_run [of auth c identity isPermitted req uuid s pc st m h] assms by (auto simp: Let_def)

theorem chain_serves_witness:
  "fst (chain (service_chain (\<lambda>s. (''id'', s)) MTLSAuthenticate NoOpIsPermitted plain_codec NewNoOpIdempotencyStore)
     ''/token.v1.TokenEngine/RevokeToken'' (\<lambda>c r s. (Inr RevokeResp, s))
     (background\<lparr>ctx_peer := Some (TLSInfo [''svc''])\<rparr>) (RevokeReq \<lparr>t_refresh_token = ''rt'', t_tenant_id = ''t''\<rparr>)
     (\<lparr>clock = 0, trace = []\<rparr> :: world)) = Inr RevokeResp"
proof -
  let ?req = "RevokeReq \<lparr>t_refresh_token = ''rt'', t_tenant_id = ''t''\<rparr>"
  let ?c = "background\<lparr>ctx_peer := Some (TLSInfo [''svc''])\<rparr>"
  have "MTLSAuthenticate ?c = Inr ''svc''" by (simp add: mtls_identity)
  from chain_serves [OF credentials_read(1) this, of NoOpIsPermitted ?req "\<lambda>s. (''id'', s)"
      "\<lparr>clock = 0, trace = []\<rparr> :: world" plain_codec NewNoOpIdempotencyStore "''/token.v1.TokenEngine/RevokeToken''"
      "\<lambda>c r s. (Inr RevokeResp, s)"]
  show ?thesis
    by (auto simp: NoOpIsPermitted_def NewIdempotencyInterceptor_def grpcMethodIssueToken_def
        grpcMethodRefreshToken_def)
qed

end
