(* ===== verification/Audit_Store.thy ===== *)
theory Audit_Store
  imports Observability Messages
begin

text \<open>
  \<^verbatim>\<open>internal/audit\<close>: the revocation event, the Store interface, the slog store and the NoOp
  store.  The contract of a store is the locale \<open>audit_log\<close>: a recording that succeeds adds
  exactly one record, and nothing else adds any.
\<close>


section \<open>Timestamps\<close>

text \<open>
  \<^verbatim>\<open>t.UTC().Format(time.RFC3339)\<close> of a time in nanoseconds since 1970: the proleptic
  Gregorian date, in eras of 400 years that start in March.
\<close>

definition civil :: "int \<Rightarrow> int \<times> int \<times> int" where
  "civil days =
     (let z = days + 719468; era = z div 146097; doe = z mod 146097;
          yoe = (doe - doe div 1460 + doe div 36524 - doe div 146096) div 365;
          doy = doe - (365 * yoe + yoe div 4 - yoe div 100);
          mp = (5 * doy + 2) div 153;
          d = doy - (153 * mp + 2) div 5 + 1;
          m = (if mp < 10 then mp + 3 else mp - 9);
          y = yoe + era * 400 + (if m \<le> 2 then 1 else 0)
      in (y, m, d))"

text \<open>\<^verbatim>\<open>appendInt\<close>: the sign, and the digits padded with zeros to \<open>w\<close>.\<close>

definition append_int :: "int \<Rightarrow> nat \<Rightarrow> string" where
  "append_int i w =
     (let ds = nat_string (nat \<bar>i\<bar>)
      in (if i < 0 then ''-'' else '''') @ replicate (w - length ds) (CHR ''0'') @ ds)"

definition rfc3339 :: "int \<Rightarrow> string" where
  "rfc3339 t =
     (let secs = t div 1000000000; (y, m, d) = civil (secs div 86400); sod = secs mod 86400
      in append_int y 4 @ ''-'' @ append_int m 2 @ ''-'' @ append_int d 2 @ ''T''
           @ append_int (sod div 3600) 2 @ '':'' @ append_int (sod div 60 mod 60) 2 @ '':''
           @ append_int (sod mod 60) 2 @ ''Z'')"


section \<open>Stores\<close>

definition RevocationScopeToken :: string where
  "RevocationScopeToken = ''token''"

definition RevocationScopeAudience :: string where
  "RevocationScopeAudience = ''audience''"

definition RevocationScopeUser :: string where
  "RevocationScopeUser = ''user''"

definition RevocationScopeUserAudience :: string where
  "RevocationScopeUserAudience = ''user_audience''"

record revocation_event =
  ev_TenantID :: string
  ev_CallerIdentity :: string
  ev_TokenRef :: string
  ev_Target :: string
  ev_Scope :: string
  ev_OccurredAt :: int

record 's audit_store =
  au_record :: "ctx \<Rightarrow> revocation_event \<Rightarrow> 's \<Rightarrow> go_error option \<times> 's"
  au_ping :: "ctx \<Rightarrow> 's \<Rightarrow> go_error option \<times> 's"

definition NewNoOpAuditStore :: "'s audit_store" where
  "NewNoOpAuditStore = \<lparr>au_record = (\<lambda>c event s. (None, s)), au_ping = (\<lambda>c s. (None, s))\<rparr>"

text \<open>The line the slog store writes: every field of the event, in declaration order.\<close>

definition audit_fields :: "revocation_event \<Rightarrow> any list" where
  "audit_fields event =
     [AStr ''tenant_id'', AStr (ev_TenantID event),
      AStr ''caller_identity'', AStr (ev_CallerIdentity event),
      AStr ''token_ref'', AStr (ev_TokenRef event),
      AStr ''target'', AStr (ev_Target event),
      AStr ''scope'', AStr (ev_Scope event),
      AStr ''occurred_at'', AStr (rfc3339 (ev_OccurredAt event))]"

definition SlogRecordRevocation ::
  "ctx \<Rightarrow> revocation_event \<Rightarrow> 'a world_scheme \<Rightarrow> go_error option \<times> 'a world_scheme" where
  "SlogRecordRevocation c event s = (None, log_info c ''token revoked'' (audit_fields event) s)"

definition NewSlogAuditStore :: "'a world_scheme audit_store" where
  "NewSlogAuditStore = \<lparr>au_record = SlogRecordRevocation, au_ping = (\<lambda>c s. (None, s))\<rparr>"


section \<open>The contract\<close>

text \<open>The events of the service's own logger that the slog store writes.\<close>

fun audit_line :: "event \<Rightarrow> any list option" where
  "audit_line (ELog Info c msg kvs) = (if msg = ''token revoked'' then Some kvs else None)"
| "audit_line _ = None"

locale audit_log =
  fixes store :: "'a world_scheme audit_store"
    and recorded :: "'a world_scheme \<Rightarrow> 'r list"
    and enc :: "revocation_event \<Rightarrow> 'r"
  assumes ping_keeps: "au_ping store c s = (r, s') \<Longrightarrow> recorded s' = recorded s"
    and record_adds: "au_record store c e s = (None, s') \<Longrightarrow> recorded s' = recorded s @ [enc e]"
    and record_fails: "au_record store c e s = (Some err, s') \<Longrightarrow>
      recorded s' = recorded s \<or> recorded s' = recorded s @ [enc e]"
    and emit_keeps: "audit_line ev = None \<Longrightarrow> recorded (emit ev s) = recorded s"
begin

lemma fail_span_keeps [simp]: "recorded (fail_span e s) = recorded s"
  by (simp add: fail_span_def emit_keeps)

lemma emit_span_keeps [simp]:
  "recorded (emit (ESpanStart n) s) = recorded s" "recorded (emit ESpanEnd s) = recorded s"
  "recorded (emit (ESpanStatus code msg) s) = recorded s"
  "recorded (emit (ELog Error c m kvs) s) = recorded s" "recorded (emit (ELog Warn c m kvs) s) = recorded s"
  by (simp_all add: emit_keeps)

end

definition slog_recorded :: "'a world_scheme \<Rightarrow> any list list" where
  "slog_recorded s = List.map_filter audit_line (trace s)"

interpretation slog_audit: audit_log NewSlogAuditStore slog_recorded audit_fields
  by unfold_locales
    (auto simp: NewSlogAuditStore_def SlogRecordRevocation_def slog_recorded_def List.map_filter_def
      split: option.splits)

end
