(* ===== verification/Token_Ref.thy ===== *)
theory Token_Ref
  imports Sha256
begin

text \<open>
  \<^verbatim>\<open>internal/tokenref\<close>: the reference to a refresh token that logs, spans and audit records
  carry in its place.
\<close>

definition refLen :: nat where
  "refLen = 16"

definition Ref :: "string \<Rightarrow> string" where
  "Ref token = (if token = '''' then '''' else take refLen (hex_encode (sha256 token)))"

lemma Ref_empty [simp]: "Ref '''' = ''''"
  by (simp add: Ref_def)

lemma length_Ref: "token \<noteq> '''' \<Longrightarrow> length (Ref token) = 16"
  by (simp add: Ref_def refLen_def length_hex_encode length_sha256)

lemma Ref_is_hex: "c \<in> set (Ref token) \<Longrightarrow> is_hex c"
  using hex_encode_is_hex [of _ "sha256 token"]
  by (auto simp: Ref_def dest!: in_set_takeD split: if_splits)

lemma length_Ref_le: "length (Ref token) \<le> 16"
  using length_Ref [of token] by (cases "token = ''''") simp_all

lemma Ref_eq_empty [simp]: "Ref token = '''' \<longleftrightarrow> token = ''''"
  using length_Ref [of token] by (cases "token = ''''") auto

text \<open>A token longer than the reference is not its own reference.\<close>

lemma Ref_not_token: "16 < length token \<Longrightarrow> Ref token \<noteq> token"
  using length_Ref_le [of token] by auto

end
