(* ===== verification/Tenant_Registry.thy ===== *)
theory Tenant_Registry
  imports Observability Messages
begin

text \<open>
  \<^verbatim>\<open>internal/registry/multi_tenant.go\<close> and \<^verbatim>\<open>backfill.go\<close>: the tenant registry with its
  add, drain and remove life cycle, its lookups and snapshots, and the start-up backfill.

  Each method holds the registry's mutex for its whole body, so a method is one step on the
  map of tenants (the theory \<open>Registry_Concurrency\<close> proves that the interleaved methods behave
  like these).  A manager, key manager or store that jwtauth builds is an object reference;
  the constructors and the calls on them are parameters, the record \<open>jwtauth\<close>, and act on
  the world, never on the registry's private map, which is a state component of its own.
\<close>


section \<open>Types\<close>

type_synonym obj = nat

record tenant_entry =
  manager :: obj
  km :: obj
  backfiller :: obj
  draining :: bool

type_synonym tenants = "tenant_entry str_map"

record tenant_config =
  cfg_Issuer :: string
  cfg_Audience :: string

record 's jwtauth =
  new_key_store :: "string \<Rightarrow> 's \<Rightarrow> (go_error + obj) \<times> 's"
  new_key_manager :: "obj \<Rightarrow> string \<Rightarrow> 's \<Rightarrow> (go_error + obj) \<times> 's"
  new_refresh_store :: "string \<Rightarrow> 's \<Rightarrow> (go_error + obj) \<times> 's"
  new_library_metrics :: "string \<Rightarrow> 's \<Rightarrow> obj \<times> 's"
  new_token_manager :: "obj \<Rightarrow> obj \<Rightarrow> obj \<Rightarrow> string \<Rightarrow> string \<Rightarrow> string list \<Rightarrow> 's \<Rightarrow> (go_error + obj) \<times> 's"
  tm_start :: "obj \<Rightarrow> ctx \<Rightarrow> 's \<Rightarrow> go_error option \<times> 's"
  km_shutdown :: "obj \<Rightarrow> ctx \<Rightarrow> 's \<Rightarrow> go_error option \<times> 's"
  bf_backfill :: "obj \<Rightarrow> ctx \<Rightarrow> 's \<Rightarrow> (go_error + int \<times> int) \<times> 's"

type_synonym 's registry = "tenants \<times> 's"


section \<open>Life cycle\<close>

definition NewMultiTenantRegistry :: tenants where
  "NewMultiTenantRegistry = []"

definition registry_op_labels :: "string \<Rightarrow> string str_map" where
  "registry_op_labels op = [(''operation'', op)]"

abbreviation count_registry_op :: "string \<Rightarrow> 'a world_scheme \<Rightarrow> 'a world_scheme" where
  "count_registry_op op \<equiv> emit (ECounter MetricRegistryOps (registry_op_labels op))"

abbreviation set_tenant_gauge :: "tenants \<Rightarrow> 'a world_scheme \<Rightarrow> 'a world_scheme" where
  "set_tenant_gauge ts \<equiv> emit (EGauge MetricActiveTenants (int (length ts)) [])"

text \<open>Step 4 of Add: build the stack and start it.\<close>

definition build_stack ::
  "'s jwtauth \<Rightarrow> ctx \<Rightarrow> string \<Rightarrow> tenant_config \<Rightarrow> 's \<Rightarrow> (go_error + tenant_entry) \<times> 's" where
  "build_stack jw c tenantID cfg s =
     (case new_key_store jw tenantID s of
        (Inl err, s1) \<Rightarrow> (Inl (wrap_error (''creating redis key store for tenant '' @ tenantID) err), s1)
      | (Inr keyStore, s1) \<Rightarrow>
     (case new_key_manager jw keyStore tenantID s1 of
        (Inl err, s2) \<Rightarrow> (Inl (wrap_error (''creating key manager for tenant '' @ tenantID) err), s2)
      | (Inr k, s2) \<Rightarrow>
     (case new_refresh_store jw tenantID s2 of
        (Inl err, s3) \<Rightarrow> (Inl (wrap_error (''creating redis refresh store for tenant '' @ tenantID) err), s3)
      | (Inr refreshStore, s3) \<Rightarrow>
     (case new_library_metrics jw tenantID s3 of
        (libMetrics, s4) \<Rightarrow>
     (case new_token_manager jw k refreshStore libMetrics tenantID (cfg_Issuer cfg) [cfg_Audience cfg] s4 of
        (Inl err, s5) \<Rightarrow> (Inl (wrap_error (''creating token manager for tenant '' @ tenantID) err), s5)
      | (Inr m, s5) \<Rightarrow>
     (case tm_start jw m c s5 of
        (Some err, s6) \<Rightarrow> (Inl (wrap_error (''starting token manager for tenant '' @ tenantID) err), s6)
      | (None, s6) \<Rightarrow>
          (Inr \<lparr>manager = m, km = k, backfiller = refreshStore, draining = False\<rparr>, s6)))))))"

definition AddTenant ::
  "'a world_scheme jwtauth \<Rightarrow> ctx \<Rightarrow> string \<Rightarrow> tenant_config \<Rightarrow> 'a world_scheme registry \<Rightarrow>
   go_error option \<times> 'a world_scheme registry" where
  "AddTenant jw c tenantID cfg r =
     (if tenantID = '''' then (Some (StatusErr InvalidArgument ''tenantID must not be empty''), r)
      else if cfg_Issuer cfg = '''' then (Some (StatusErr InvalidArgument ''cfg.Issuer must not be empty''), r)
      else if cfg_Audience cfg = '''' then (Some (StatusErr InvalidArgument ''cfg.Audience must not be empty''), r)
      else
        let (ts, s) = r in
        if map_has ts tenantID then
          (Some (StatusErr AlreadyExists (''tenant '' @ tenantID @ '' is already registered'')), r)
        else
          (case build_stack jw c tenantID cfg s of
             (Inl err, s1) \<Rightarrow> (Some err, (ts, s1))
           | (Inr entry, s1) \<Rightarrow>
               let ts' = map_put tenantID entry ts in
               (None, (ts', count_registry_op ''add'' (set_tenant_gauge ts' s1)))))"

definition DrainTenant ::
  "ctx \<Rightarrow> string \<Rightarrow> 'a world_scheme registry \<Rightarrow> go_error option \<times> 'a world_scheme registry" where
  "DrainTenant c tenantID r =
     (if tenantID = '''' then (Some (StatusErr InvalidArgument ''tenantID must not be empty''), r)
      else
        let (ts, s) = r in
        case map_of ts tenantID of
          None \<Rightarrow> (Some (StatusErr NotFound (''tenant '' @ tenantID @ '' not found'')), r)
        | Some entry \<Rightarrow>
            (None, (map_put tenantID (entry\<lparr>draining := True\<rparr>) ts, count_registry_op ''drain'' s)))"

definition RemoveTenant ::
  "'a world_scheme jwtauth \<Rightarrow> ctx \<Rightarrow> string \<Rightarrow> 'a world_scheme registry \<Rightarrow>
   go_error option \<times> 'a world_scheme registry" where
  "RemoveTenant jw c tenantID r =
     (if tenantID = '''' then (Some (StatusErr InvalidArgument ''tenantID must not be empty''), r)
      else
        let (ts, s) = r in
        case map_of ts tenantID of
          None \<Rightarrow> (Some (StatusErr NotFound (''tenant '' @ tenantID @ '' not found'')), r)
        | Some entry \<Rightarrow>
            if \<not> draining entry then
              (Some (StatusErr FailedPrecondition (''tenant '' @ tenantID @ '' must be drained before removal'')), r)
            else
              let (err, s1) = km_shutdown jw (km entry) c s;
                  s2 = (case err of
                          None \<Rightarrow> s1
                        | Some e \<Rightarrow> log_warn c ''key manager shutdown error during tenant removal''
                                      [AStr ''tenant'', AStr tenantID, AStr ''error'', AErr e] s1);
                  ts' = map_del tenantID ts
              in (None, (ts', count_registry_op ''remove'' (set_tenant_gauge ts' s2))))"


section \<open>Lookups and snapshots\<close>

definition GetTenant :: "tenants \<Rightarrow> ctx \<Rightarrow> string \<Rightarrow> go_error + obj" where
  "GetTenant ts c tenantID =
     (if tenantID = '''' then Inl (StatusErr InvalidArgument ''tenant_id must not be empty'')
      else
        case map_of ts tenantID of
          None \<Rightarrow> Inl (StatusErr NotFound (''tenant '' @ tenantID @ '' not found''))
        | Some entry \<Rightarrow>
            if draining entry then Inl (StatusErr NotFound (''tenant '' @ tenantID @ '' not found''))
            else Inr (manager entry))"

definition AllKeyManagers :: "tenants \<Rightarrow> obj str_map" where
  "AllKeyManagers ts = map (\<lambda>(id, entry). (id, km entry)) ts"

definition AllBackfillers :: "tenants \<Rightarrow> obj str_map" where
  "AllBackfillers ts = map (\<lambda>(id, entry). (id, backfiller entry)) ts"

definition GetAllTenants :: "tenants \<Rightarrow> obj str_map" where
  "GetAllTenants ts =
     map (\<lambda>(id, entry). (id, manager entry)) (filter (\<lambda>(id, entry). \<not> draining entry) ts)"

text \<open>\<^verbatim>\<open>RunExpiryIndexBackfill\<close>: one pass; a failure is logged and the pass goes on.\<close>

fun RunExpiryIndexBackfill ::
  "'a world_scheme jwtauth \<Rightarrow> ctx \<Rightarrow> obj str_map \<Rightarrow> 'a world_scheme \<Rightarrow> 'a world_scheme" where
  "RunExpiryIndexBackfill jw c [] s = s"
| "RunExpiryIndexBackfill jw c ((tenantID, b) # rest) s =
     (case bf_backfill jw b c s of
        (Inl err, s1) \<Rightarrow>
          RunExpiryIndexBackfill jw c rest
            (log_warn c ''expiry index backfill failed''
               [AStr ''tenant_id'', AStr tenantID, AStr ''error'', AErr err] s1)
      | (Inr (removed, indexed), s1) \<Rightarrow>
          RunExpiryIndexBackfill jw c rest
            (log_info c ''expiry index backfill complete''
               [AStr ''tenant_id'', AStr tenantID, AStr ''removed'', AInt removed,
                AStr ''indexed'', AInt indexed] s1))"


section \<open>The specification: a life cycle per tenant\<close>

datatype status = Absent | Active | Draining

definition tenant_status :: "tenants \<Rightarrow> string \<Rightarrow> status" where
  "tenant_status ts tid =
     (case map_of ts tid of
        None \<Rightarrow> Absent
      | Some e \<Rightarrow> if draining e then Draining else Active)"

datatype reg_op = Add_op string tenant_config | Drain_op string | Remove_op string

fun op_tenant :: "reg_op \<Rightarrow> string" where
  "op_tenant (Add_op t cfg) = t"
| "op_tenant (Drain_op t) = t"
| "op_tenant (Remove_op t) = t"

text \<open>
  What an operation does to the status of its tenant.  \<open>built\<close> tells whether jwtauth built
  the stack.
\<close>

fun life_cycle :: "bool \<Rightarrow> reg_op \<Rightarrow> status \<Rightarrow> status" where
  "life_cycle built (Add_op t cfg) Absent =
     (if t \<noteq> '''' \<and> cfg_Issuer cfg \<noteq> '''' \<and> cfg_Audience cfg \<noteq> '''' \<and> built then Active else Absent)"
| "life_cycle built (Drain_op t) Active = (if t \<noteq> '''' then Draining else Active)"
| "life_cycle built (Remove_op t) Draining = (if t \<noteq> '''' then Absent else Draining)"
| "life_cycle built _ st = st"

fun reg_step ::
  "'a world_scheme jwtauth \<Rightarrow> ctx \<Rightarrow> reg_op \<Rightarrow> 'a world_scheme registry \<Rightarrow>
   go_error option \<times> 'a world_scheme registry" where
  "reg_step jw c (Add_op t cfg) r = AddTenant jw c t cfg r"
| "reg_step jw c (Drain_op t) r = DrainTenant c t r"
| "reg_step jw c (Remove_op t) r = RemoveTenant jw c t r"

text \<open>Well-formed registries: no tenant twice, none without a name.\<close>

definition reg_wf :: "tenants \<Rightarrow> bool" where
  "reg_wf ts \<longleftrightarrow> map_wf ts \<and> '''' \<notin> fst ` set ts"

lemma reg_wf_new: "reg_wf NewMultiTenantRegistry"
  by (simp add: reg_wf_def NewMultiTenantRegistry_def)

definition built :: "reg_op \<Rightarrow> 'a world_scheme jwtauth \<Rightarrow> ctx \<Rightarrow> 'a world_scheme registry \<Rightarrow> bool" where
  "built op jw c r =
     (case op of Add_op t cfg \<Rightarrow> \<exists>e. fst (build_stack jw c t cfg (snd r)) = Inr e | _ \<Rightarrow> False)"

lemma build_stack_active:
  "build_stack jw c t cfg s = (Inr e, s') \<Longrightarrow> \<not> draining e"
  by (auto simp: build_stack_def split: prod.splits sum.splits option.splits)

lemma tenant_status_put:
  "tenant_status (map_put t e ts) u =
     (if u = t then (if draining e then Draining else Active) else tenant_status ts u)"
  by (simp add: tenant_status_def)

lemma tenant_status_del:
  "tenant_status (map_del t ts) u = (if u = t then Absent else tenant_status ts u)"
  by (simp add: tenant_status_def)

lemmas status_simps = tenant_status_put tenant_status_del

lemma step_status:
  assumes "reg_step jw c op r = (err, r')"
  shows "tenant_status (fst r') u =
    (if u = op_tenant op then life_cycle (built op jw c r) op (tenant_status (fst r) u)
     else tenant_status (fst r) u)"
proof -
  obtain ts s where r: "r = (ts, s)" by fastforce
  show ?thesis
  proof (cases op)
    case (Add_op t cfg)
    obtain b s1 where b: "build_stack jw c t cfg s = (b, s1)" by fastforce
    show ?thesis
      using assms b r Add_op build_stack_active [of jw c t cfg s _ s1]
      by (cases b; cases "map_of ts t")
        (auto simp: AddTenant_def built_def map_has_def tenant_status_def Let_def split: if_splits)
  next
    case (Drain_op t)
    then show ?thesis
      using assms r
      by (cases "map_of ts t") (auto simp: DrainTenant_def tenant_status_def split: if_splits)
  next
    case (Remove_op t)
    then show ?thesis
      using assms r
      by (cases "map_of ts t") (auto simp: RemoveTenant_def tenant_status_def Let_def split: if_splits prod.splits)
  qed
qed

lemma reg_wf_put: "reg_wf ts \<Longrightarrow> t \<noteq> '''' \<Longrightarrow> reg_wf (map_put t e ts)"
  by (simp add: reg_wf_def)

lemma reg_wf_del: "reg_wf ts \<Longrightarrow> reg_wf (map_del t ts)"
  by (simp add: reg_wf_def)

lemma step_wf:
  assumes "reg_step jw c op r = (err, r')" and "reg_wf (fst r)"
  shows "reg_wf (fst r')"
  using assms
  by (cases op; cases r)
    (auto simp: AddTenant_def DrainTenant_def RemoveTenant_def Let_def intro: reg_wf_put reg_wf_del
      split: if_splits prod.splits sum.splits option.splits)

text \<open>An error leaves the registry as it was.\<close>

lemma step_error:
  assumes "reg_step jw c op r = (Some e, r')"
  shows "fst r' = fst r"
  using assms
  by (cases op; cases r)
    (auto simp: AddTenant_def DrainTenant_def RemoveTenant_def Let_def
      split: if_splits prod.splits sum.splits option.splits)

text \<open>Get and the snapshots in terms of the status.\<close>

lemma get_active: "(\<exists>m. GetTenant ts c t = Inr m) \<longleftrightarrow> t \<noteq> '''' \<and> tenant_status ts t = Active"
  by (auto simp: GetTenant_def tenant_status_def split: option.splits)

lemma get_error:
  "GetTenant ts c t = Inl e \<Longrightarrow>
     if t = '''' then e = StatusErr InvalidArgument ''tenant_id must not be empty''
     else e = StatusErr NotFound (''tenant '' @ t @ '' not found'')"
  by (auto simp: GetTenant_def split: option.splits if_splits)

lemma map_of_filter_values:
  "map_wf ts \<Longrightarrow> map_of (filter (\<lambda>(k, v). P v) ts) k =
     (case map_of ts k of None \<Rightarrow> None | Some v \<Rightarrow> if P v then Some v else None)"
  by (induction ts) (auto simp: map_of_None_keys [symmetric] split: option.splits)

lemma get_all_agrees:
  assumes "reg_wf ts"
  shows "map_of (GetAllTenants ts) t = (case GetTenant ts c t of Inl _ \<Rightarrow> None | Inr m \<Rightarrow> Some m)"
proof -
  have wf: "map_wf ts" and empty: "map_of ts '''' = None"
    using assms by (simp_all add: reg_wf_def map_of_None_keys)
  have m: "map_of (map (\<lambda>(id, entry). (id, manager entry)) xs) t = map_option manager (map_of xs t)" for xs
    by (induction xs) auto
  have "map_of (GetAllTenants ts) t =
      map_option manager (case map_of ts t of None \<Rightarrow> None | Some v \<Rightarrow> if \<not> draining v then Some v else None)"
    unfolding GetAllTenants_def m by (simp only: map_of_filter_values [OF wf])
  with empty show ?thesis by (auto simp: GetTenant_def split: option.splits)
qed


section \<open>The lookup interface\<close>

text \<open>
  What a handler relies on: a lookup refuses with codes.InvalidArgument or codes.NotFound, and
  always refuses the empty tenant.
\<close>

locale tenant_lookup =
  fixes get :: "ctx \<Rightarrow> string \<Rightarrow> go_error + 'm"
  assumes refusal: "get c t = Inl e \<Longrightarrow> \<exists>msg. e = StatusErr InvalidArgument msg \<or> e = StatusErr NotFound msg"
    and empty_refused: "\<exists>e. get c '''' = Inl e"
begin

lemma refusal_code: "get c t = Inl e \<Longrightarrow> status_code (Some e) \<in> {InvalidArgument, NotFound}"
  using refusal by fastforce

lemma found_nonempty: "get c t = Inr m \<Longrightarrow> t \<noteq> ''''"
  using empty_refused [of c] by auto

end

text \<open>The registry's Get, followed by the dereference of the manager it returns.\<close>

definition lookup_manager :: "(obj \<Rightarrow> 'm) \<Rightarrow> tenants \<Rightarrow> ctx \<Rightarrow> string \<Rightarrow> go_error + 'm" where
  "lookup_manager deref ts c t = map_sum id deref (GetTenant ts c t)"

interpretation multi_tenant: tenant_lookup "lookup_manager deref ts" for deref ts
proof (unfold_locales, goal_cases)
  case (1 c t e)
  then have "GetTenant ts c t = Inl e"
    by (cases "GetTenant ts c t") (simp_all add: lookup_manager_def)
  with get_error [of ts c t e] show ?case by (auto split: if_splits)
next
  case (2 c)
  show ?case by (simp add: lookup_manager_def GetTenant_def)
qed


section \<open>Properties\<close>

text \<open>When an operation succeeds.\<close>

fun legal :: "bool \<Rightarrow> reg_op \<Rightarrow> status \<Rightarrow> bool" where
  "legal ok (Add_op t cfg) st \<longleftrightarrow>
     st = Absent \<and> t \<noteq> '''' \<and> cfg_Issuer cfg \<noteq> '''' \<and> cfg_Audience cfg \<noteq> '''' \<and> ok"
| "legal ok (Drain_op t) st \<longleftrightarrow> st \<noteq> Absent \<and> t \<noteq> ''''"
| "legal ok (Remove_op t) st \<longleftrightarrow> st = Draining \<and> t \<noteq> ''''"

lemma step_legal:
  assumes "reg_step jw c op r = (err, r')"
  shows "err = None \<longleftrightarrow> legal (built op jw c r) op (tenant_status (fst r) (op_tenant op))"
proof -
  obtain ts s where r: "r = (ts, s)" by fastforce
  show ?thesis
  proof (cases op)
    case (Add_op t cfg)
    obtain b s1 where b: "build_stack jw c t cfg s = (b, s1)" by fastforce
    show ?thesis
      using assms b r Add_op
      by (cases b; cases "map_of ts t")
        (auto simp: AddTenant_def built_def map_has_def tenant_status_def Let_def split: if_splits)
  next
    case (Drain_op t)
    then show ?thesis
      using assms r
      by (cases "map_of ts t") (auto simp: DrainTenant_def tenant_status_def split: if_splits)
  next
    case (Remove_op t)
    then show ?thesis
      using assms r
      by (cases "map_of ts t") (auto simp: RemoveTenant_def tenant_status_def Let_def split: if_splits prod.splits)
  qed
qed

text \<open>
  C17: The registry implements the tenant life cycle Absent, Active, Draining.  On every
  operation, for every library behaviour: the status of the tenant it names moves as the life
  cycle says (Add starts it, Drain stops it, Remove ends it only after Drain), the status of
  every other tenant stays, the operation succeeds exactly when it is legal, and one that fails
  leaves the registry as it was.
\<close>
theorem registry_refines_life_cycle:
  assumes "reg_step jw c op r = (err, r')"
  shows "(\<forall>u. tenant_status (fst r') u =
      (if u = op_tenant op then life_cycle (built op jw c r) op (tenant_status (fst r) u)
       else tenant_status (fst r) u)) \<and>
    (err = None \<longleftrightarrow> legal (built op jw c r) op (tenant_status (fst r) (op_tenant op))) \<and>
    (err \<noteq> None \<longrightarrow> fst r' = fst r)"
  using step_status [OF assms] step_legal [OF assms] step_error [of jw c op r _ r'] assms by auto

definition idle_jwtauth :: "'s jwtauth" where
  "idle_jwtauth = \<lparr>new_key_store = (\<lambda>t s. (Inr 0, s)), new_key_manager = (\<lambda>k t s. (Inr 1, s)),
     new_refresh_store = (\<lambda>t s. (Inr 2, s)), new_library_metrics = (\<lambda>t s. (3, s)),
     new_token_manager = (\<lambda>k r m t i a s. (Inr 4, s)), tm_start = (\<lambda>m c s. (None, s)),
     km_shutdown = (\<lambda>k c s. (None, s)), bf_backfill = (\<lambda>b c s. (Inr (0, 0), s))\<rparr>"

definition sample_entry :: "bool \<Rightarrow> tenant_entry" where
  "sample_entry d = \<lparr>manager = 1, km = 2, backfiller = 3, draining = d\<rparr>"

theorem registry_refines_life_cycle_witness:
  "tenant_status (fst (snd (reg_step idle_jwtauth background (Drain_op ''t'')
     ([(''t'', sample_entry False)], \<lparr>clock = 0, trace = []\<rparr>)))) ''t'' = Draining"
proof -
  let ?r = "([(''t'', sample_entry False)], \<lparr>clock = 0, trace = []\<rparr> :: world)"
  obtain err r' where step: "reg_step idle_jwtauth background (Drain_op ''t'') ?r = (err, r')"
    using prod.exhaust by blast
  have "tenant_status (fst ?r) ''t'' = Active"
    by (simp add: tenant_status_def sample_entry_def)
  with registry_refines_life_cycle [OF step] step show ?thesis by simp
qed

text \<open>
  The registries the service can be in: those that the operations reach from the empty one,
  with any results of the library.
\<close>

inductive reg_reachable :: "'a world_scheme jwtauth \<Rightarrow> 'a world_scheme registry \<Rightarrow> bool"
  for jw :: "'a world_scheme jwtauth" where
  start: "reg_reachable jw (NewMultiTenantRegistry, s)"
| step: "reg_reachable jw r \<Longrightarrow> reg_step jw c op r = (err, r') \<Longrightarrow> reg_reachable jw r'"
| other: "reg_reachable jw (ts, s) \<Longrightarrow> reg_reachable jw (ts, s')"

inductive_cases reg_reachableE: "reg_reachable jw r"

lemma reachable_wf: "reg_reachable jw r \<Longrightarrow> reg_wf (fst r)"
proof (induction rule: reg_reachable.induct)
  case (start s)
  show ?case by (simp add: reg_wf_new)
next
  case (step r c op err r')
  then show ?case by (blast intro: step_wf)
qed simp

text \<open>
  In every registry the service can be in, Get serves exactly the active tenants, GetAll
  is the same snapshot, and a draining tenant is refused with codes.NotFound although its key
  manager and its backfiller are still listed until it is removed.
\<close>
theorem registry_lookups:
  assumes "reg_reachable jw (ts, s)"
  shows "((\<exists>m. GetTenant ts c t = Inr m) \<longleftrightarrow> tenant_status ts t = Active) \<and>
    map_of (GetAllTenants ts) t = (case GetTenant ts c t of Inl _ \<Rightarrow> None | Inr m \<Rightarrow> Some m) \<and>
    (map_has (AllKeyManagers ts) t \<longleftrightarrow> tenant_status ts t \<noteq> Absent) \<and>
    (map_has (AllBackfillers ts) t \<longleftrightarrow> tenant_status ts t \<noteq> Absent) \<and>
    (tenant_status ts t = Draining \<longrightarrow>
       GetTenant ts c t = Inl (StatusErr NotFound (''tenant '' @ t @ '' not found'')))"
proof -
  have wf: "reg_wf ts" using reachable_wf [OF assms] by simp
  then have empty: "tenant_status ts '''' = Absent"
    by (simp add: reg_wf_def tenant_status_def map_of_None_keys [symmetric])
  have keys: "fst ` set (map (\<lambda>(id, entry). (id, f entry)) ts) = fst ` set ts" for f :: "tenant_entry \<Rightarrow> obj"
    by force
  have present: "t \<in> fst ` set ts \<longleftrightarrow> tenant_status ts t \<noteq> Absent"
    using map_of_None_keys [of ts t] by (auto simp: tenant_status_def split: option.splits)
  have "GetTenant ts c t = Inl (StatusErr NotFound (''tenant '' @ t @ '' not found''))"
    if "tenant_status ts t = Draining"
    using that empty by (auto simp: GetTenant_def tenant_status_def split: option.splits if_splits)
  with get_active [of ts c t] empty get_all_agrees [OF wf] keys present show ?thesis
    by (auto simp: AllKeyManagers_def AllBackfillers_def map_has_iff)
qed

definition one_tenant :: "world registry" where
  "one_tenant = snd (reg_step idle_jwtauth background
     (Add_op ''t'' \<lparr>cfg_Issuer = ''t'', cfg_Audience = ''a''\<rparr>)
     (NewMultiTenantRegistry, \<lparr>clock = 0, trace = []\<rparr>))"

theorem registry_lookups_witness:
  "GetTenant (fst one_tenant) background ''t'' = Inr 4 \<and> map_of (GetAllTenants (fst one_tenant)) ''t'' = Some 4"
proof -
  have "reg_reachable idle_jwtauth one_tenant"
    unfolding one_tenant_def by (rule reg_reachable.step [OF start]) (rule prod.collapse [symmetric])
  then have r: "reg_reachable idle_jwtauth (fst one_tenant, snd one_tenant)" by simp
  have "GetTenant (fst one_tenant) background ''t'' = Inr 4"
    by (simp add: one_tenant_def GetTenant_def AddTenant_def build_stack_def idle_jwtauth_def
        NewMultiTenantRegistry_def map_has_def Let_def)
  with registry_lookups [OF r, of background "''t''"] show ?thesis by simp
qed

text \<open>
  The metrics of the life cycle.  A successful Add or Remove ends with the gauge of active
  tenants set to the number of tenants registered after it, and the counter of its operation; a
  successful Drain counts and leaves the gauge; a failed operation sets neither after the
  library's last call.
\<close>
theorem registry_metrics:
  assumes "reg_reachable jw (ts, s)" and "reg_step jw c op (ts, s) = (None, (ts', s'))"
  shows "\<exists>es. trace s' = es @
    (case op of
       Add_op t cfg \<Rightarrow> [EGauge MetricActiveTenants (int (card (dom (map_of ts')))) [],
                        ECounter MetricRegistryOps [(''operation'', ''add'')]]
     | Drain_op t \<Rightarrow> [ECounter MetricRegistryOps [(''operation'', ''drain'')]]
     | Remove_op t \<Rightarrow> [EGauge MetricActiveTenants (int (card (dom (map_of ts')))) [],
                        ECounter MetricRegistryOps [(''operation'', ''remove'')]])"
proof -
  have "reg_wf ts'" using step_wf [OF assms(2)] reachable_wf [OF assms(1)] by simp
  then have "length ts' = card (dom (map_of ts'))"
    by (simp add: reg_wf_def map_wf_def dom_map_of_conv_image_fst distinct_card flip: set_map)
  with assms(2) show ?thesis
    by (cases op)
      (auto simp: AddTenant_def DrainTenant_def RemoveTenant_def Let_def registry_op_labels_def
        split: if_splits prod.splits sum.splits option.splits)
qed

theorem registry_metrics_witness:
  "\<exists>es. trace (snd one_tenant) = es @ [EGauge MetricActiveTenants 1 [],
     ECounter MetricRegistryOps [(''operation'', ''add'')]]"
proof -
  let ?op = "Add_op ''t'' \<lparr>cfg_Issuer = ''t'', cfg_Audience = ''a''\<rparr>"
  let ?s = "\<lparr>clock = 0, trace = []\<rparr> :: world"
  have "reg_step idle_jwtauth background ?op (NewMultiTenantRegistry, ?s) =
      (None, (fst one_tenant, snd one_tenant))"
    by (simp add: one_tenant_def AddTenant_def build_stack_def idle_jwtauth_def
        NewMultiTenantRegistry_def map_has_def Let_def)
  moreover have "card (dom (map_of (fst one_tenant))) = 1"
    by (simp add: one_tenant_def AddTenant_def build_stack_def idle_jwtauth_def
        NewMultiTenantRegistry_def map_has_def Let_def)
  ultimately show ?thesis
    using registry_metrics [OF start, where jw = idle_jwtauth and s = ?s and c = background and op = ?op] by fastforce
qed

text \<open>
  The start-up backfill visits every tenant exactly once, in order, whatever fails: the
  pass is the composition of the single passes, and it logs one line per tenant, a warning for
  a failed one.
\<close>
theorem backfill_visits_all:
  assumes "\<And>b s. trace (snd (bf_backfill jw b c s)) = trace s"
  shows "\<exists>es. trace (RunExpiryIndexBackfill jw c bs s) = trace s @ es \<and>
    map (\<lambda>e. case e of ELog lvl c' msg kvs \<Rightarrow> kvs ! 1 | _ \<Rightarrow> AOther 0) es = map (\<lambda>(t, b). AStr t) bs"
  using assms
proof (induction jw c bs s rule: RunExpiryIndexBackfill.induct)
  case (1 jw c s)
  show ?case by simp
next
  case (2 jw c t b rest s)
  obtain r s1 where r: "bf_backfill jw b c s = (r, s1)" by fastforce
  with "2.prems" [of b s] have trace: "trace s1 = trace s" by simp
  show ?case
  proof (cases r)
    case (Inl e)
    from "2.IH"(1) [OF r [symmetric] Inl "2.prems"] r Inl trace show ?thesis by auto
  next
    case (Inr p)
    obtain x y where p: "p = (x, y)" by fastforce
    from "2.IH"(2) [OF r [symmetric] Inr p [symmetric] "2.prems"] r Inr p trace show ?thesis by auto
  qed
qed

theorem backfill_visits_all_witness:
  "\<exists>es. trace (RunExpiryIndexBackfill idle_jwtauth background [(''t'', 1), (''u'', 2)]
      \<lparr>clock = 0, trace = []\<rparr>) = es \<and>
    map (\<lambda>e. case e of ELog lvl c' msg kvs \<Rightarrow> kvs ! 1 | _ \<Rightarrow> AOther 0) es = [AStr ''t'', AStr ''u'']"
  using backfill_visits_all [of idle_jwtauth background "[(''t'', 1), (''u'', 2)]" "\<lparr>clock = 0, trace = []\<rparr>"]
  by (simp add: idle_jwtauth_def)

end
