(* ===== verification/Token_Handler.thy ===== *)
theory Token_Handler
  imports Audit_Store Token_Ref Tenant_Registry
begin

text \<open>
  \<^verbatim>\<open>internal/handler/token.go\<close>: the six RPC handlers.

  A jwtauth TokenManager is third-party code: the record \<open>token_manager\<close> of its methods, each
  a function on the world.  The registry is the lookup of a manager by tenant; the audit store
  is the record of \<^verbatim>\<open>internal/audit\<close>.
\<close>


section \<open>The library's TokenManager\<close>

record registered_claims =
  reg_Subject :: string
  reg_Audience :: "string list"
  reg_ExpiresAt :: int

record token_metadata =
  meta_TokenID :: string
  meta_ExpiresAt :: int

text \<open>An issue option is the audience list, absent when no option is passed.\<close>

record 's token_manager =
  tm_issue_pair :: "ctx \<Rightarrow> string \<Rightarrow> string str_map \<Rightarrow> string list option \<Rightarrow> 's \<Rightarrow>
    (go_error + string \<times> string) \<times> 's"
  tm_issue_refresh :: "ctx \<Rightarrow> string \<Rightarrow> string str_map \<Rightarrow> string list option \<Rightarrow> 's \<Rightarrow>
    (go_error + string) \<times> 's"
  tm_refresh_access :: "ctx \<Rightarrow> string \<Rightarrow> string str_map \<Rightarrow> 's \<Rightarrow> (go_error + string) \<times> 's"
  tm_validate :: "ctx \<Rightarrow> string \<Rightarrow> 's \<Rightarrow> (go_error + registered_claims) \<times> 's"
  tm_introspect :: "ctx \<Rightarrow> string \<Rightarrow> 's \<Rightarrow> (go_error + token_metadata) \<times> 's"
  tm_revoke :: "ctx \<Rightarrow> string \<Rightarrow> 's \<Rightarrow> go_error option \<times> 's"
  tm_revoke_audience :: "ctx \<Rightarrow> string \<Rightarrow> 's \<Rightarrow> go_error option \<times> 's"
  tm_revoke_user :: "ctx \<Rightarrow> string \<Rightarrow> 's \<Rightarrow> go_error option \<times> 's"
  tm_revoke_user_audience :: "ctx \<Rightarrow> string \<Rightarrow> string \<Rightarrow> 's \<Rightarrow> go_error option \<times> 's"
  tm_cleanup :: "ctx \<Rightarrow> 's \<Rightarrow> (go_error + int) \<times> 's"

type_synonym 's lookup = "ctx \<Rightarrow> string \<Rightarrow> go_error + 's token_manager"


section \<open>Issuance\<close>

text \<open>The seconds left, truncated to \<^verbatim>\<open>int64\<close>.\<close>

definition expiresInSeconds :: "int \<Rightarrow> 'a world_scheme \<Rightarrow> int" where
  "expiresInSeconds t s =
     (let d = time_until t s in if d \<le> 0 then 0 else \<lfloor>duration_seconds d\<rfloor>)"

text \<open>The copy of the claims into the library's map.\<close>

definition copy_claims :: "claims \<Rightarrow> string str_map" where
  "copy_claims claims = fold (\<lambda>(k, v) acc. map_put k v acc) (ranged claims) []"

text \<open>The error exits of the handlers: record the error on the span, set its status, end it.\<close>

definition fail_with :: "go_error \<Rightarrow> go_error \<Rightarrow> 'a world_scheme \<Rightarrow> (go_error + 'r) \<times> 'a world_scheme" where
  "fail_with ret err s = (Inl ret, span_end (fail_span err s))"

abbreviation fail_mapped :: "go_error \<Rightarrow> 'a world_scheme \<Rightarrow> (go_error + 'r) \<times> 'a world_scheme" where
  "fail_mapped err s \<equiv> fail_with (map_lib err) (map_lib err) s"

definition IssueToken ::
  "'a world_scheme lookup \<Rightarrow> ctx \<Rightarrow> issue_token_request \<Rightarrow> 'a world_scheme \<Rightarrow>
   (go_error + token_pair) \<times> 'a world_scheme" where
  "IssueToken get c req s =
     (let s1 = span_start ''IssueToken'' s in
      case get c (i_tenant_id req) of
        Inl err \<Rightarrow> fail_with err err s1
      | Inr mgr \<Rightarrow>
          let opts = (if i_audiences req = [] then None else Some (i_audiences req));
              customClaims = copy_claims (i_claims req)
          in
          case tm_issue_pair mgr c (i_sub req) customClaims opts s1 of
            (Inl err, s2) \<Rightarrow> fail_mapped err s2
          | (Inr (access, refresh), s2) \<Rightarrow>
          (case tm_validate mgr c access s2 of
            (Inl err, s3) \<Rightarrow>
              fail_with (StatusErr Internal ''issuance: access token validation failed'') err
                (log_error c ''failed to validate access token during issuance''
                  [AStr ''error'', AErr err] s3)
          | (Inr registered, s3) \<Rightarrow>
              let accessExpiresIn = expiresInSeconds (reg_ExpiresAt registered) s3 in
          (case tm_introspect mgr c refresh s3 of
            (Inl err, s4) \<Rightarrow> fail_mapped err s4
          | (Inr refreshMeta, s4) \<Rightarrow>
              let refreshExpiresIn = expiresInSeconds (meta_ExpiresAt refreshMeta) s4 in
              (Inr \<lparr>access_token = access, refresh_token = refresh,
                    access_token_expires_in = accessExpiresIn,
                    refresh_token_expires_in = refreshExpiresIn\<rparr>,
               span_end (span_ok s4)))))"

definition RefreshToken ::
  "'a world_scheme lookup \<Rightarrow> ctx \<Rightarrow> refresh_token_request \<Rightarrow> 'a world_scheme \<Rightarrow>
   (go_error + token_pair) \<times> 'a world_scheme" where
  "RefreshToken get c req s =
     (let s1 = span_start ''RefreshToken'' s in
      case get c (f_tenant_id req) of
        Inl err \<Rightarrow> fail_with err err s1
      | Inr mgr \<Rightarrow>
          let customClaims = copy_claims (f_claims req) in
          case tm_refresh_access mgr c (f_refresh_token req) customClaims s1 of
            (Inl err, s2) \<Rightarrow> fail_mapped err s2
          | (Inr access, s2) \<Rightarrow>
          (case tm_validate mgr c access s2 of
            (Inl err, s3) \<Rightarrow>
              fail_with (StatusErr Internal ''refresh rotation: access token validation failed'') err
                (log_error c ''failed to validate access token during refresh rotation''
                  [AStr ''error'', AErr err] s3)
          | (Inr registered, s3) \<Rightarrow>
              let accessExpiresIn = expiresInSeconds (reg_ExpiresAt registered) s3 in
          (case tm_issue_refresh mgr c (reg_Subject registered) customClaims
                  (Some (reg_Audience registered)) s3 of
            (Inl err, s4) \<Rightarrow> fail_mapped err s4
          | (Inr refresh, s4) \<Rightarrow>
          (case tm_introspect mgr c refresh s4 of
            (Inl err, s5) \<Rightarrow> fail_mapped err s5
          | (Inr refreshMeta, s5) \<Rightarrow>
              let refreshExpiresIn = expiresInSeconds (meta_ExpiresAt refreshMeta) s5 in
              (Inr \<lparr>access_token = access, refresh_token = refresh,
                    access_token_expires_in = accessExpiresIn,
                    refresh_token_expires_in = refreshExpiresIn\<rparr>,
               span_end (span_ok s5))))))"


section \<open>Revocation\<close>

text \<open>The last step of the four revocation handlers: write the audit record.\<close>

definition record_audit ::
  "'a world_scheme audit_store \<Rightarrow> ctx \<Rightarrow> revocation_event \<Rightarrow> 'a world_scheme \<Rightarrow>
   (go_error + unit) \<times> 'a world_scheme" where
  "record_audit auditStore c event s =
     (case au_record auditStore c event s of
        (Some err, s1) \<Rightarrow>
          fail_with (StatusErr Internal ''audit record failed'') err
            (log_error c ''failed to record revocation audit'' [AStr ''error'', AErr err] s1)
      | (None, s1) \<Rightarrow> (Inr (), span_end (span_ok s1)))"

definition auditUnavailable :: go_error where
  "auditUnavailable = StatusErr Unavailable ''audit store unavailable''"

definition RevokeToken ::
  "'a world_scheme lookup \<Rightarrow> 'a world_scheme audit_store \<Rightarrow> ctx \<Rightarrow> revoke_token_request \<Rightarrow>
   'a world_scheme \<Rightarrow> (go_error + unit) \<times> 'a world_scheme" where
  "RevokeToken get auditStore c req s =
     (let s1 = span_start ''RevokeToken'' s in
      case au_ping auditStore c s1 of
        (Some err, s2) \<Rightarrow> fail_with auditUnavailable err s2
      | (None, s2) \<Rightarrow>
      (case get c (t_tenant_id req) of
        Inl err \<Rightarrow> fail_with err err s2
      | Inr mgr \<Rightarrow>
      (case tm_introspect mgr c (t_refresh_token req) s2 of
        (Inl err, s3) \<Rightarrow> fail_mapped err s3
      | (Inr tokenMetadata, s3) \<Rightarrow>
      (case tm_revoke mgr c (meta_TokenID tokenMetadata) s3 of
        (Some err, s4) \<Rightarrow> fail_mapped err s4
      | (None, s4) \<Rightarrow>
          record_audit auditStore c
            \<lparr>ev_TenantID = t_tenant_id req, ev_CallerIdentity = CallerIdentityFromContext c,
             ev_TokenRef = Ref (meta_TokenID tokenMetadata), ev_Target = '''',
             ev_Scope = RevocationScopeToken, ev_OccurredAt = clock s4\<rparr> s4))))"

definition RevokeAllForAudience ::
  "'a world_scheme lookup \<Rightarrow> 'a world_scheme audit_store \<Rightarrow> ctx \<Rightarrow> revoke_audience_request \<Rightarrow>
   'a world_scheme \<Rightarrow> (go_error + unit) \<times> 'a world_scheme" where
  "RevokeAllForAudience get auditStore c req s =
     (let s1 = span_start ''RevokeAllForAudience'' s in
      case au_ping auditStore c s1 of
        (Some err, s2) \<Rightarrow> fail_with auditUnavailable err s2
      | (None, s2) \<Rightarrow>
      (case get c (a_tenant_id req) of
        Inl err \<Rightarrow> fail_with err err s2
      | Inr mgr \<Rightarrow>
      (case tm_revoke_audience mgr c (a_audience req) s2 of
        (Some err, s3) \<Rightarrow> fail_mapped err s3
      | (None, s3) \<Rightarrow>
          record_audit auditStore c
            \<lparr>ev_TenantID = a_tenant_id req, ev_CallerIdentity = CallerIdentityFromContext c,
             ev_TokenRef = '''', ev_Target = a_audience req,
             ev_Scope = RevocationScopeAudience, ev_OccurredAt = clock s3\<rparr> s3)))"

definition RevokeAllUserTokens ::
  "'a world_scheme lookup \<Rightarrow> 'a world_scheme audit_store \<Rightarrow> ctx \<Rightarrow> revoke_user_request \<Rightarrow>
   'a world_scheme \<Rightarrow> (go_error + unit) \<times> 'a world_scheme" where
  "RevokeAllUserTokens get auditStore c req s =
     (let s1 = span_start ''RevokeAllUserTokens'' s in
      case au_ping auditStore c s1 of
        (Some err, s2) \<Rightarrow> fail_with auditUnavailable err s2
      | (None, s2) \<Rightarrow>
      (case get c (u_tenant_id req) of
        Inl err \<Rightarrow> fail_with err err s2
      | Inr mgr \<Rightarrow>
      (case tm_revoke_user mgr c (u_user_id req) s2 of
        (Some err, s3) \<Rightarrow> fail_mapped err s3
      | (None, s3) \<Rightarrow>
          record_audit auditStore c
            \<lparr>ev_TenantID = u_tenant_id req, ev_CallerIdentity = CallerIdentityFromContext c,
             ev_TokenRef = '''', ev_Target = u_user_id req,
             ev_Scope = RevocationScopeUser, ev_OccurredAt = clock s3\<rparr> s3)))"

text \<open>This one pings the audit store before it opens its span.\<close>

definition RevokeAllForUserAndAudience ::
  "'a world_scheme lookup \<Rightarrow> 'a world_scheme audit_store \<Rightarrow> ctx \<Rightarrow> revoke_user_and_audience_request \<Rightarrow>
   'a world_scheme \<Rightarrow> (go_error + unit) \<times> 'a world_scheme" where
  "RevokeAllForUserAndAudience get auditStore c req s =
     (case au_ping auditStore c s of
        (Some err, s1) \<Rightarrow>
          (Inl auditUnavailable,
           log_warn c ''audit store unavailable'' [AStr ''error'', AErr err] s1)
      | (None, s1) \<Rightarrow>
          let s2 = span_start ''RevokeAllForUserAndAudience'' s1 in
      (case get c (ua_tenant_id req) of
        Inl err \<Rightarrow> fail_with err err s2
      | Inr mgr \<Rightarrow>
      (case tm_revoke_user_audience mgr c (ua_user_id req) (ua_audience req) s2 of
        (Some err, s3) \<Rightarrow> fail_mapped err s3
      | (None, s3) \<Rightarrow>
          record_audit auditStore c
            \<lparr>ev_TenantID = ua_tenant_id req, ev_CallerIdentity = CallerIdentityFromContext c,
             ev_TokenRef = '''', ev_Target = ua_user_id req,
             ev_Scope = RevocationScopeUserAudience, ev_OccurredAt = clock s3\<rparr> s3)))"


section \<open>The service\<close>

text \<open>
  The generated server's dispatch: the handler of a request by its type, and its result as a
  response of the chain.  \<open>other\<close> answers what is not a TokenEngine request.
\<close>

definition revoke_response :: "(go_error + unit) \<times> 's \<Rightarrow> (go_error + response) \<times> 's" where
  "revoke_response = map_prod (map_sum id (\<lambda>_. RevokeResp)) id"

definition token_service ::
  "'a world_scheme lookup \<Rightarrow> 'a world_scheme audit_store \<Rightarrow> 'a world_scheme handler \<Rightarrow> 'a world_scheme handler" where
  "token_service get auditStore other c req s =
     (case req of
        IssueReq r \<Rightarrow> map_prod (map_sum id PairResp) id (IssueToken get c r s)
      | RefreshReq r \<Rightarrow> map_prod (map_sum id PairResp) id (RefreshToken get c r s)
      | RevokeReq r \<Rightarrow> revoke_response (RevokeToken get auditStore c r s)
      | RevokeAudienceReq r \<Rightarrow> revoke_response (RevokeAllForAudience get auditStore c r s)
      | RevokeUserReq r \<Rightarrow> revoke_response (RevokeAllUserTokens get auditStore c r s)
      | RevokeUserAudienceReq r \<Rightarrow> revoke_response (RevokeAllForUserAndAudience get auditStore c r s)
      | OtherReq \<Rightarrow> other c req s)"

lemmas handler_defs = IssueToken_def RefreshToken_def RevokeToken_def RevokeAllForAudience_def
  RevokeAllUserTokens_def RevokeAllForUserAndAudience_def record_audit_def fail_with_def Let_def

lemmas handler_splits = prod.splits sum.splits option.splits

fun is_revocation :: "request \<Rightarrow> bool" where
  "is_revocation (RevokeReq r) \<longleftrightarrow> True"
| "is_revocation (RevokeAudienceReq r) \<longleftrightarrow> True"
| "is_revocation (RevokeUserReq r) \<longleftrightarrow> True"
| "is_revocation (RevokeUserAudienceReq r) \<longleftrightarrow> True"
| "is_revocation _ \<longleftrightarrow> False"

end
