(* ===== verification/Rpc.thy ===== *)
theory Rpc
  imports Grpc_Service Access_Properties Token_Handler
begin

text \<open>
  From the wire to a handler: the generated service with the TokenEngine handlers behind it
  (\<^verbatim>\<open>handler.NewTokenHandler\<close> registered by \<^verbatim>\<open>cmd/token-engine/main.go\<close>), and what a call
  runs, which is the interceptor chain under the method's own name around the handler of the
  request's type.
\<close>

definition NewTokenHandler ::
  "'a world_scheme lookup \<Rightarrow> 'a world_scheme audit_store \<Rightarrow> 'a world_scheme token_engine_server" where
  "NewTokenHandler get auditStore =
     \<lparr>srv_IssueToken = IssueToken get,
      srv_RefreshToken = RefreshToken get,
      srv_RevokeToken = RevokeToken get auditStore,
      srv_RevokeAllForAudience = RevokeAllForAudience get auditStore,
      srv_RevokeAllUserTokens = RevokeAllUserTokens get auditStore,
      srv_RevokeAllForUserAndAudience = RevokeAllForUserAndAudience get auditStore\<rparr>"


section \<open>The chain hands on the request it was given\<close>

text \<open>
  The contract of an interceptor: what it does on a request depends on its handler's answers to
  that very request only.
\<close>

locale request_interceptor =
  fixes i :: "'s interceptor"
  assumes passes: "(\<And>c s. h c req s = h' c req s) \<Longrightarrow> i m h c req s = i m h' c req s"

interpretation correlation_icpt: request_interceptor "NewCorrelationInterceptor uuid" for uuid
  by unfold_locales (rule correlation_cong, simp)

interpretation auth_icpt: request_interceptor "NewAuthInterceptor auth" for auth
  by unfold_locales (simp add: NewAuthInterceptor_def split: sum.split)

interpretation authorization_icpt: request_interceptor "NewCallerAuthorizationInterceptor isPermitted"
  for isPermitted
  by unfold_locales (simp add: NewCallerAuthorizationInterceptor_def Let_def split: prod.split option.split)

interpretation validation_icpt: request_interceptor NewValidationInterceptor
  by unfold_locales (simp add: NewValidationInterceptor_def split: option.split)

lemma claim_passes:
  assumes "\<And>c s. h c req s = h' c req s"
  shows "claim_and_run pc st m h c req key fp s = claim_and_run pc st m h' c req key fp s"
  by (simp add: claim_and_run_def won_claim_def assms split: prod.split sum.split)

interpretation idempotency_icpt: request_interceptor "NewIdempotencyInterceptor pc st" for pc st
proof (unfold_locales, goal_cases)
  case (1 h req h' m c s)
  note same = 1
  from same claim_passes [of h req h', OF same] show ?case
    by (cases req) (simp_all add: NewIdempotencyInterceptor_def handleIssueTokenIdempotency_def
        handleRefreshTokenIdempotency_def Let_def split: sum.split)
qed

lemma chain_passes:
  assumes "\<And>i. i \<in> set is \<Longrightarrow> request_interceptor i"
  shows "request_interceptor (chain is)"
proof
  fix h h' :: "'a handler" and req m c s
  assume same: "\<And>c s. h c req s = h' c req s"
  show "chain is m h c req s = chain is m h' c req s"
    using assms
    by (induction "is" arbitrary: c s) (auto intro: request_interceptor.passes same)
qed

lemma service_chain_passes: "request_interceptor (chain (service_chain uuid auth isPermitted pc st))"
proof (rule chain_passes)
  fix i
  assume "i \<in> set (service_chain uuid auth isPermitted pc st)"
  then show "request_interceptor i"
    by (auto simp: service_chain_def correlation_icpt.request_interceptor_axioms
        auth_icpt.request_interceptor_axioms authorization_icpt.request_interceptor_axioms
        validation_icpt.request_interceptor_axioms idempotency_icpt.request_interceptor_axioms)
qed


section \<open>Dispatch\<close>

text \<open>The names the idempotency interceptor looks for are those of the generated code.\<close>

lemma idempotency_method_names:
  "grpcMethodIssueToken = TokenEngine_IssueToken_FullMethodName"
  "grpcMethodRefreshToken = TokenEngine_RefreshToken_FullMethodName"
  by (simp_all only: grpcMethodIssueToken_def grpcMethodRefreshToken_def full_method_names)

text \<open>A full method name is the service's name and the method's.\<close>

lemma split_method_names:
  "TokenEngine_IssueToken_FullMethodName = ''/'' @ TokenEngine_ServiceName @ ''/'' @ ''IssueToken''"
  "TokenEngine_RefreshToken_FullMethodName = ''/'' @ TokenEngine_ServiceName @ ''/'' @ ''RefreshToken''"
  "TokenEngine_RevokeToken_FullMethodName = ''/'' @ TokenEngine_ServiceName @ ''/'' @ ''RevokeToken''"
  "TokenEngine_RevokeAllForAudience_FullMethodName =
     ''/'' @ TokenEngine_ServiceName @ ''/'' @ ''RevokeAllForAudience''"
  "TokenEngine_RevokeAllUserTokens_FullMethodName =
     ''/'' @ TokenEngine_ServiceName @ ''/'' @ ''RevokeAllUserTokens''"
  "TokenEngine_RevokeAllForUserAndAudience_FullMethodName =
     ''/'' @ TokenEngine_ServiceName @ ''/'' @ ''RevokeAllForUserAndAudience''"
  by (simp_all add: full_method_names TokenEngine_ServiceName_def)

lemma method_names_apart:
  "m \<in> {TokenEngine_RefreshToken_FullMethodName, TokenEngine_RevokeToken_FullMethodName,
     TokenEngine_RevokeAllForAudience_FullMethodName, TokenEngine_RevokeAllUserTokens_FullMethodName,
     TokenEngine_RevokeAllForUserAndAudience_FullMethodName} \<Longrightarrow>
   m \<noteq> TokenEngine_IssueToken_FullMethodName"
  "m \<in> {TokenEngine_IssueToken_FullMethodName, TokenEngine_RevokeToken_FullMethodName,
     TokenEngine_RevokeAllForAudience_FullMethodName, TokenEngine_RevokeAllUserTokens_FullMethodName,
     TokenEngine_RevokeAllForUserAndAudience_FullMethodName} \<Longrightarrow>
   m \<noteq> TokenEngine_RefreshToken_FullMethodName"
  by (elim insertE; simp only: split_method_names same_append_eq; simp)+

lemma methods_found:
  "map_of (TokenEngine_Methods w panic srv) ''IssueToken'' =
     Some (\<lambda>c bs. IssueToken_Handler panic srv c (wr_issue w bs))"
  "map_of (TokenEngine_Methods w panic srv) ''RefreshToken'' =
     Some (\<lambda>c bs. RefreshToken_Handler panic srv c (wr_refresh w bs))"
  "map_of (TokenEngine_Methods w panic srv) ''RevokeToken'' =
     Some (\<lambda>c bs. RevokeToken_Handler panic srv c (wr_revoke w bs))"
  "map_of (TokenEngine_Methods w panic srv) ''RevokeAllForAudience'' =
     Some (\<lambda>c bs. RevokeAllForAudience_Handler panic srv c (wr_revoke_audience w bs))"
  "map_of (TokenEngine_Methods w panic srv) ''RevokeAllUserTokens'' =
     Some (\<lambda>c bs. RevokeAllUserTokens_Handler panic srv c (wr_revoke_user w bs))"
  "map_of (TokenEngine_Methods w panic srv) ''RevokeAllForUserAndAudience'' =
     Some (\<lambda>c bs. RevokeAllForUserAndAudience_Handler panic srv c (wr_revoke_user_audience w bs))"
  by (simp_all add: TokenEngine_Methods_def)

lemma routed:
  assumes "routes_by_name route"
  shows "route TokenEngine_ServiceName ms TokenEngine_IssueToken_FullMethodName = map_of ms ''IssueToken''"
    and "route TokenEngine_ServiceName ms TokenEngine_RefreshToken_FullMethodName = map_of ms ''RefreshToken''"
    and "route TokenEngine_ServiceName ms TokenEngine_RevokeToken_FullMethodName = map_of ms ''RevokeToken''"
    and "route TokenEngine_ServiceName ms TokenEngine_RevokeAllForAudience_FullMethodName =
      map_of ms ''RevokeAllForAudience''"
    and "route TokenEngine_ServiceName ms TokenEngine_RevokeAllUserTokens_FullMethodName =
      map_of ms ''RevokeAllUserTokens''"
    and "route TokenEngine_ServiceName ms TokenEngine_RevokeAllForUserAndAudience_FullMethodName =
      map_of ms ''RevokeAllForUserAndAudience''"
  using assms unfolding routes_by_name_def split_method_names by blast+

text \<open>The method handler of a request, with and without an interceptor.\<close>

lemma unary_dispatch:
  assumes "dec = Inr r" and "\<And>c s. call c r s = svc c (con r) s" and "\<And>c s. h c (con r) s = svc c (con r) s"
  shows "unary_handler m con h call c dec None s = svc c (con r) s"
    and "request_interceptor i \<Longrightarrow> unary_handler m con h call c dec (Some i) s = i m svc c (con r) s"
  unfolding unary_handler_def assms(1) sum.case option.case
  by (rule assms(2)) (rule request_interceptor.passes, assumption, rule assms(3))

lemmas service_calls = token_service_def NewTokenHandler_def pair_reply_def revoke_reply_def revoke_response_def

text \<open>A method handler \<open>runs\<close> a request if it gives the chain the service's handler of it.\<close>

definition runs ::
  "(go_error + 'q \<Rightarrow> 'a world_scheme interceptor option \<Rightarrow> 'a world_scheme \<Rightarrow> (go_error + response) \<times> 'a world_scheme) \<Rightarrow>
   'q \<Rightarrow> string \<Rightarrow> 'a world_scheme handler \<Rightarrow> ctx \<Rightarrow> request \<Rightarrow> bool" where
  "runs hdl r m svc c req \<longleftrightarrow>
     (\<forall>s. hdl (Inr r) None s = svc c req s) \<and>
     (\<forall>i s. request_interceptor i \<longrightarrow> hdl (Inr r) (Some i) s = i m svc c req s)"

lemma runsI:
  assumes "\<And>c s. call c r s = svc c (con r) s" and "\<And>c s. h c (con r) s = svc c (con r) s"
  shows "runs (unary_handler m con h call c) r m svc c (con r)"
  unfolding runs_def
  by (intro conjI allI impI; rule unary_dispatch; (rule refl assms | assumption))

lemma handlers_run:
  "runs (IssueToken_Handler panic (NewTokenHandler get a) c) r1
     TokenEngine_IssueToken_FullMethodName (token_service get a other) c (IssueReq r1)"
  "runs (RefreshToken_Handler panic (NewTokenHandler get a) c) r2
     TokenEngine_RefreshToken_FullMethodName (token_service get a other) c (RefreshReq r2)"
  "runs (RevokeToken_Handler panic (NewTokenHandler get a) c) r3
     TokenEngine_RevokeToken_FullMethodName (token_service get a other) c (RevokeReq r3)"
  "runs (RevokeAllForAudience_Handler panic (NewTokenHandler get a) c) r4
     TokenEngine_RevokeAllForAudience_FullMethodName (token_service get a other) c (RevokeAudienceReq r4)"
  "runs (RevokeAllUserTokens_Handler panic (NewTokenHandler get a) c) r5
     TokenEngine_RevokeAllUserTokens_FullMethodName (token_service get a other) c (RevokeUserReq r5)"
  "runs (RevokeAllForUserAndAudience_Handler panic (NewTokenHandler get a) c) r6
     TokenEngine_RevokeAllForUserAndAudience_FullMethodName (token_service get a other) c
     (RevokeUserAudienceReq r6)"
  unfolding method_handler_defs by (rule runsI; simp add: service_calls)+

lemma handler_dispatch:
  assumes "routes_by_name route" and "wire_ok w" and "full_method req = Some m"
  shows "\<exists>hdl. route TokenEngine_ServiceName (TokenEngine_Methods w panic (NewTokenHandler get a)) m = Some hdl \<and>
    (\<forall>c s. hdl c (wr_encode w req) None s = token_service get a other c req s) \<and>
    (\<forall>i c s. request_interceptor i \<longrightarrow>
       hdl c (wr_encode w req) (Some i) s = i m (token_service get a other) c req s)"
proof -
  note wire = assms(2) [unfolded wire_ok_def] and found = routed [OF assms(1)] methods_found option.inject
  show ?thesis
    using assms(3) handlers_run [where panic = panic and get = get and a = a and other = other]
    by (cases req) (simp_all add: found wire runs_def)
qed


fun is_issue :: "request \<Rightarrow> bool" where
  "is_issue (IssueReq _) \<longleftrightarrow> True"
| "is_issue _ \<longleftrightarrow> False"

fun is_refresh :: "request \<Rightarrow> bool" where
  "is_refresh (RefreshReq _) \<longleftrightarrow> True"
| "is_refresh _ \<longleftrightarrow> False"


section \<open>A route and a wire format\<close>

text \<open>
  A router and a wire format with which the laws hold: the method is what follows the service's
  name, and a message is its strings, each byte marked and each string ended.
\<close>

definition name_route :: "'s route" where
  "name_route service methods m = map_of methods (drop (length service + 2) m)"

lemma name_route: "routes_by_name name_route"
  by (simp add: routes_by_name_def name_route_def)

definition put_str :: "string \<Rightarrow> bytes" where
  "put_str s = concat (map (\<lambda>c. [CHR ''1'', c]) s) @ ''0''"

fun get_str :: "bytes \<Rightarrow> string \<times> bytes" where
  "get_str (m # c # bs) =
     (if m = CHR ''1'' then (let (s, r) = get_str bs in (c # s, r)) else ([], c # bs))"
| "get_str bs = ([], [])"

lemma get_put_str: "get_str (put_str s @ bs) = (s, bs)"
proof (induction s)
  case Nil
  then show ?case by (cases bs) (simp_all add: put_str_def)
qed (simp add: put_str_def)

definition put_strs :: "string list \<Rightarrow> bytes" where
  "put_strs ss = replicate (length ss) CHR ''1'' @ CHR ''0'' # concat (map put_str ss)"

fun get_strs_n :: "nat \<Rightarrow> bytes \<Rightarrow> string list \<times> bytes" where
  "get_strs_n 0 bs = ([], bs)"
| "get_strs_n (Suc n) bs =
     (let (s, r) = get_str bs; (ss, r') = get_strs_n n r in (s # ss, r'))"

definition get_strs :: "bytes \<Rightarrow> string list \<times> bytes" where
  "get_strs bs =
     (let n = length (takeWhile (\<lambda>c. c = CHR ''1'') bs) in get_strs_n n (drop (Suc n) bs))"

lemma get_put_strs: "get_strs (put_strs ss @ bs) = (ss, bs)"
proof -
  have "get_strs_n (length ss) (concat (map put_str ss) @ bs) = (ss, bs)"
    by (induction ss) (simp_all add: get_put_str)
  moreover have "takeWhile (\<lambda>c. c = CHR ''1'') (replicate n (CHR ''1'') @ CHR ''0'' # r) = replicate n (CHR ''1'')"
    for n r by (induction n) simp_all
  ultimately show ?thesis by (simp add: get_strs_def put_strs_def Let_def)
qed

definition put_claims :: "claims \<Rightarrow> bytes" where
  "put_claims m =
     (case m of None \<Rightarrow> put_strs [] @ put_strs []
      | Some xs \<Rightarrow> put_strs (''m'' # map fst xs) @ put_strs (map snd xs))"

definition get_claims :: "bytes \<Rightarrow> claims \<times> bytes" where
  "get_claims bs =
     (let (ks, r) = get_strs bs; (vs, r') = get_strs r
      in (case ks of [] \<Rightarrow> None | _ # ks \<Rightarrow> Some (zip ks vs), r'))"

lemma get_put_claims: "get_claims (put_claims m @ bs) = (m, bs)"
  by (simp add: get_claims_def put_claims_def get_put_strs zip_map_fst_snd split: option.split)

fun plain_encode :: "request \<Rightarrow> bytes" where
  "plain_encode (IssueReq r) =
     put_strs ([i_sub r, i_tenant_id r, i_idempotency_key r] @ i_audiences r) @ put_claims (i_claims r)"
| "plain_encode (RefreshReq r) =
     put_strs [f_refresh_token r, f_tenant_id r, f_idempotency_key r] @ put_claims (f_claims r)"
| "plain_encode (RevokeReq r) = put_strs [t_refresh_token r, t_tenant_id r]"
| "plain_encode (RevokeAudienceReq r) = put_strs [a_audience r, a_tenant_id r]"
| "plain_encode (RevokeUserReq r) = put_strs [u_user_id r, u_tenant_id r]"
| "plain_encode (RevokeUserAudienceReq r) = put_strs [ua_user_id r, ua_audience r, ua_tenant_id r]"
| "plain_encode OtherReq = []"

definition plain_wire :: wire where
  "plain_wire =
     \<lparr>wr_encode = plain_encode,
      wr_issue = (\<lambda>bs. let (ss, r) = get_strs bs in
        Inr \<lparr>i_sub = ss ! 0, i_tenant_id = ss ! 1, i_idempotency_key = ss ! 2,
             i_claims = fst (get_claims r), i_audiences = drop 3 ss\<rparr>),
      wr_refresh = (\<lambda>bs. let (ss, r) = get_strs bs in
        Inr \<lparr>f_refresh_token = ss ! 0, f_tenant_id = ss ! 1, f_idempotency_key = ss ! 2,
             f_claims = fst (get_claims r)\<rparr>),
      wr_revoke = (\<lambda>bs. let ss = fst (get_strs bs) in Inr \<lparr>t_refresh_token = ss ! 0, t_tenant_id = ss ! 1\<rparr>),
      wr_revoke_audience = (\<lambda>bs. let ss = fst (get_strs bs) in Inr \<lparr>a_audience = ss ! 0, a_tenant_id = ss ! 1\<rparr>),
      wr_revoke_user = (\<lambda>bs. let ss = fst (get_strs bs) in Inr \<lparr>u_user_id = ss ! 0, u_tenant_id = ss ! 1\<rparr>),
      wr_revoke_user_audience = (\<lambda>bs. let ss = fst (get_strs bs) in
        Inr \<lparr>ua_user_id = ss ! 0, ua_audience = ss ! 1, ua_tenant_id = ss ! 2\<rparr>)\<rparr>"

lemma plain_wire: "wire_ok plain_wire"
proof -
  have strs: "get_strs (put_strs ss) = (ss, [])" for ss
    using get_put_strs [of ss "[]"] by simp
  have claims: "get_claims (put_claims m) = (m, [])" for m
    using get_put_claims [of m "[]"] by simp
  show ?thesis
    unfolding wire_ok_def plain_wire_def
    by (intro conjI allI) (simp_all add: strs get_put_strs claims)
qed


section \<open>Properties\<close>

text \<open>
  C9: Dispatch.  A call that the stub sends for a request arrives at the method of that very
  request: over any router that finds a method by its name and any wire format that reads what
  it wrote, the method's handler decodes the request, and the interceptor chain sees it under
  the stub's method name, with the TokenEngine handler of the request's type behind it; the
  failed type assertions of the generated code are unreachable (the result is the same whatever
  they would do), and the names the idempotency interceptor governs are the stub's.
\<close>
theorem dispatch_by_method:
  assumes "routes_by_name route" and "wire_ok w" and "full_method req = Some m"
  shows "(\<exists>h. route TokenEngine_ServiceName (TokenEngine_Methods w panic (NewTokenHandler get a)) m = Some h \<and>
       (\<forall>c s. h c (wr_encode w req) (Some (chain (service_chain uuid auth isPermitted pc st))) s =
          chain (service_chain uuid auth isPermitted pc st) m (token_service get a other) c req s)) \<and>
    (is_issue req \<longleftrightarrow> m = grpcMethodIssueToken) \<and> (is_refresh req \<longleftrightarrow> m = grpcMethodRefreshToken)"
proof (intro conjI)
  show "is_issue req \<longleftrightarrow> m = grpcMethodIssueToken" "is_refresh req \<longleftrightarrow> m = grpcMethodRefreshToken"
    unfolding idempotency_method_names using assms(3) method_names_apart [of m] by (cases req; auto)+
qed (use handler_dispatch [OF assms, of panic get a other] service_chain_passes in blast)

definition no_store :: "world audit_store" where
  "no_store = NewNoOpAuditStore"

theorem dispatch_by_method_witness:
  "\<exists>h. name_route TokenEngine_ServiceName
      (TokenEngine_Methods plain_wire (\<lambda>c r s. (Inr OtherResp, s)) (NewTokenHandler (\<lambda>c t. Inl (PlainErr [] ''none'')) no_store))
      TokenEngine_RevokeToken_FullMethodName = Some h \<and>
    (\<forall>c s. h c (wr_encode plain_wire (RevokeReq \<lparr>t_refresh_token = ''rt'', t_tenant_id = ''t''\<rparr>))
         (Some (chain (service_chain (\<lambda>s. (''id'', s)) MTLSAuthenticate NoOpIsPermitted plain_codec NewNoOpIdempotencyStore))) s =
       chain (service_chain (\<lambda>s. (''id'', s)) MTLSAuthenticate NoOpIsPermitted plain_codec NewNoOpIdempotencyStore)
         TokenEngine_RevokeToken_FullMethodName
         (token_service (\<lambda>c t. Inl (PlainErr [] ''none'')) no_store (\<lambda>c r s. (Inr OtherResp, s))) c
         (RevokeReq \<lparr>t_refresh_token = ''rt'', t_tenant_id = ''t''\<rparr>) s)"
proof -
  have "full_method (RevokeReq \<lparr>t_refresh_token = ''rt'', t_tenant_id = ''t''\<rparr>) =
      Some TokenEngine_RevokeToken_FullMethodName"
    by (rule full_method.simps)
  from dispatch_by_method [OF name_route plain_wire this] show ?thesis by blast
qed

end
