(* ===== verification/Go_Parse.thy ===== *)
theory Go_Parse
  imports World Go_Float
begin

text \<open>
  The parsers of Go's standard library that the configuration uses: \<^verbatim>\<open>time.ParseDuration\<close>,
  \<^verbatim>\<open>strconv.Atoi\<close> and \<^verbatim>\<open>strconv.ParseBool\<close>, on byte strings.  Unsigned arithmetic that
  the code guards against overflow is over \<open>nat\<close>; the one sum it does not guard wraps at 64 bits
  as the code's does.
\<close>


section \<open>Digits\<close>

definition is_dec :: "char \<Rightarrow> bool" where
  "is_dec c \<longleftrightarrow> 48 \<le> byte_val c \<and> byte_val c \<le> 57"

definition dec_val :: "char \<Rightarrow> nat" where
  "dec_val c = byte_val c - 48"

lemma dec_val_le: "is_dec c \<Longrightarrow> dec_val c \<le> 9"
  unfolding is_dec_def dec_val_def by linarith

text \<open>\<^verbatim>\<open>leadingInt\<close>: the digits at the head and the rest; overflow past \<open>2 ^ 63\<close> is an error.\<close>

fun leading_int :: "nat \<Rightarrow> string \<Rightarrow> (nat \<times> string) option" where
  "leading_int x [] = Some (x, [])"
| "leading_int x (c # s) =
     (if \<not> is_dec c then Some (x, c # s)
      else if 2 ^ 63 div 10 < x then None
      else if 2 ^ 63 < x * 10 + dec_val c then None
      else leading_int (x * 10 + dec_val c) s)"

lemma leading_int_length: "leading_int x s = Some (v, r) \<Longrightarrow> length r \<le> length s"
  by (induction x s rule: leading_int.induct) (auto split: if_splits)

lemma leading_int_bound: "leading_int x s = Some (v, r) \<Longrightarrow> x \<le> 2 ^ 63 \<Longrightarrow> v \<le> 2 ^ 63"
  by (induction x s rule: leading_int.induct) (auto split: if_splits)

lemma leading_int_head: "leading_int x s = Some (v, c # r) \<Longrightarrow> \<not> is_dec c"
  by (induction x s rule: leading_int.induct) (auto split: if_splits)

text \<open>
  \<^verbatim>\<open>leadingFraction\<close>: the digits after a period as a number and the power of ten that scales
  it, a \<^verbatim>\<open>float64\<close>; digits that would overflow are consumed and ignored.
\<close>

fun leading_fraction :: "nat \<Rightarrow> rat \<Rightarrow> bool \<Rightarrow> string \<Rightarrow> nat \<times> rat \<times> string" where
  "leading_fraction x scale overflow [] = (x, scale, [])"
| "leading_fraction x scale overflow (c # s) =
     (if \<not> is_dec c then (x, scale, c # s)
      else if overflow then leading_fraction x scale True s
      else if (2 ^ 63 - 1) div 10 < x then leading_fraction x scale True s
      else if 2 ^ 63 < x * 10 + dec_val c then leading_fraction x scale True s
      else leading_fraction (x * 10 + dec_val c) (fl (scale * 10)) False s)"

lemma leading_fraction_length:
  "leading_fraction x scale ov s = (f, sc, r) \<Longrightarrow> length r \<le> length s"
proof (induction s arbitrary: x scale ov)
  case Nil
  then show ?case by simp
next
  case (Cons c s)
  show ?case
    using Cons.prems by (auto simp del: power.simps split: if_splits dest: Cons.IH)
qed


section \<open>Durations\<close>

datatype duration_error = InvalidDuration | MissingUnit | UnknownUnit string

text \<open>\<^verbatim>\<open>unitMap\<close>; the micro sign and the Greek mu are two bytes each in UTF-8.\<close>

definition unit_map :: "nat str_map" where
  "unit_map =
     [(''ns'', 1), (''us'', 1000), ([char_of (194::nat), char_of (181::nat), CHR ''s''], 1000),
      ([char_of (206::nat), char_of (188::nat), CHR ''s''], 1000), (''ms'', 1000000),
      (''s'', 1000000000), (''m'', 60000000000), (''h'', 3600000000000)]"

text \<open>A number with its optional fraction: value, fraction, scale and rest.\<close>

definition duration_number :: "string \<Rightarrow> (nat \<times> nat \<times> rat \<times> string) option" where
  "duration_number s =
     (case s of
        [] \<Rightarrow> None
      | c # _ \<Rightarrow>
          if \<not> (c = CHR ''.'' \<or> is_dec c) then None
          else
            (case leading_int 0 s of
               None \<Rightarrow> None
             | Some (v, s1) \<Rightarrow>
                 let pre = (length s1 \<noteq> length s) in
                 if s1 \<noteq> [] \<and> hd s1 = CHR ''.'' then
                   (let (f, scale, s3) = leading_fraction 0 1 False (tl s1);
                        post = (length s3 \<noteq> length (tl s1))
                    in if \<not> pre \<and> \<not> post then None else Some (v, f, scale, s3))
                 else if \<not> pre then None else Some (v, 0, 1, s1)))"

lemma duration_number_length:
  "duration_number s = Some (v, f, scale, r) \<Longrightarrow> length r \<le> length s \<and> v \<le> 2 ^ 63"
proof -
  assume "duration_number s = Some (v, f, scale, r)"
  then obtain s1 where s1: "leading_int 0 s = Some (v, s1)"
    and "r = s1 \<or> (\<exists>f' sc'. leading_fraction 0 1 False (tl s1) = (f', sc', r))"
    by (auto simp: duration_number_def Let_def split: list.splits if_splits option.splits prod.splits)
  then have "length r \<le> length s1" using leading_fraction_length by fastforce
  with s1 show ?thesis using leading_int_length [OF s1] leading_int_bound [OF s1] by simp
qed

text \<open>
  The value of a number in its unit, in nanoseconds: the fraction is added in \<^verbatim>\<open>float64\<close> and
  truncated.
\<close>

definition duration_value :: "nat \<Rightarrow> nat \<Rightarrow> rat \<Rightarrow> nat \<Rightarrow> nat option" where
  "duration_value v f scale unit =
     (if 2 ^ 63 div unit < v then None
      else
        let v' = v * unit;
            v'' = (if 0 < f
                   then v' + nat \<lfloor>fl (fl (of_nat f) * fl (of_nat unit / scale))\<rfloor> else v')
        in if 2 ^ 63 < v'' then None else Some v'')"

lemma duration_value_bound: "duration_value v f scale unit = Some w \<Longrightarrow> w \<le> 2 ^ 63"
  by (auto simp: duration_value_def Let_def split: if_splits)

definition is_unit_char :: "char \<Rightarrow> bool" where
  "is_unit_char c \<longleftrightarrow> c \<noteq> CHR ''.'' \<and> \<not> is_dec c"

lemma unit_consumed:
  "duration_number s = Some (v, f, scale, r) \<Longrightarrow> takeWhile is_unit_char r \<noteq> [] \<Longrightarrow>
   length (dropWhile is_unit_char r) < length s"
  using duration_number_length [of s v f scale r]
    arg_cong [OF takeWhile_dropWhile_id [of is_unit_char r], of length]
  by (cases "takeWhile is_unit_char r") auto

text \<open>The loop over the terms; \<open>d\<close> is a \<^verbatim>\<open>uint64\<close>.\<close>

function duration_terms :: "nat \<Rightarrow> string \<Rightarrow> duration_error + nat" where
  "duration_terms d s =
     (if s = [] then Inr d
      else
        (case duration_number s of
           None \<Rightarrow> Inl InvalidDuration
         | Some (v, f, scale, s1) \<Rightarrow>
             let u = takeWhile is_unit_char s1 in
             if u = [] then Inl MissingUnit
             else
               (case map_of unit_map u of
                  None \<Rightarrow> Inl (UnknownUnit u)
                | Some unit \<Rightarrow>
                    (case duration_value v f scale unit of
                       None \<Rightarrow> Inl InvalidDuration
                     | Some w \<Rightarrow>
                         let d' = (d + w) mod 2 ^ 64 in
                         if 2 ^ 63 < d' then Inl InvalidDuration
                         else duration_terms d' (dropWhile is_unit_char s1)))))"
  by pat_completeness auto

termination
  by (relation "measure (\<lambda>(d, s). length s)") (auto intro: unit_consumed)

declare duration_terms.simps [simp del]

lemma duration_terms_bound: "duration_terms d s = Inr w \<Longrightarrow> d \<le> 2 ^ 63 \<Longrightarrow> w \<le> 2 ^ 63"
proof (induction d s rule: duration_terms.induct)
  case (1 d s)
  show ?case
    using "1.prems"
    by (subst (asm) duration_terms.simps)
      (auto simp: Let_def split: if_splits option.splits prod.splits dest!: "1.IH")
qed

definition ParseDuration :: "string \<Rightarrow> duration_error + int" where
  "ParseDuration s0 =
     (let signed = (case s0 of c # _ \<Rightarrow> c = CHR ''-'' \<or> c = CHR ''+'' | [] \<Rightarrow> False);
          neg = (case s0 of c # _ \<Rightarrow> c = CHR ''-'' | [] \<Rightarrow> False);
          s = (if signed then tl s0 else s0)
      in if s = ''0'' then Inr 0
         else if s = [] then Inl InvalidDuration
         else
           (case duration_terms 0 s of
              Inl e \<Rightarrow> Inl e
            | Inr d \<Rightarrow>
                if neg then Inr (- int d)
                else if 2 ^ 63 - 1 < d then Inl InvalidDuration
                else Inr (int d)))"

text \<open>A parsed duration is a \<^verbatim>\<open>time.Duration\<close>.\<close>

lemma ParseDuration_range:
  "ParseDuration s = Inr d \<Longrightarrow> minDuration \<le> d \<and> d \<le> maxDuration"
  by (auto simp: ParseDuration_def Let_def minDuration_def maxDuration_def
      dest!: duration_terms_bound split: if_splits sum.splits)


section \<open>Integers and booleans\<close>

text \<open>
  \<^verbatim>\<open>strconv.Atoi\<close>: an optional sign and decimal digits, within an \<^verbatim>\<open>int\<close> of 64 bits.
\<close>

definition digits_val :: "string \<Rightarrow> nat" where
  "digits_val s = foldl (\<lambda>n c. 10 * n + dec_val c) 0 s"

definition Atoi :: "string \<Rightarrow> int option" where
  "Atoi s0 =
     (let signed = (case s0 of c # _ \<Rightarrow> c = CHR ''-'' \<or> c = CHR ''+'' | [] \<Rightarrow> False);
          neg = (case s0 of c # _ \<Rightarrow> c = CHR ''-'' | [] \<Rightarrow> False);
          s = (if signed then tl s0 else s0);
          n = int (digits_val s)
      in if s = [] \<or> \<not> list_all is_dec s then None
         else if neg then (if 2 ^ 63 < n then None else Some (- n))
         else if 2 ^ 63 - 1 < n then None
         else Some n)"

lemma Atoi_range: "Atoi s = Some n \<Longrightarrow> - (2 ^ 63) \<le> n \<and> n < 2 ^ 63"
  by (auto simp: Atoi_def Let_def split: if_splits)

text \<open>\<^verbatim>\<open>strconv.ParseBool\<close>\<close>

definition ParseBool :: "string \<Rightarrow> bool option" where
  "ParseBool s =
     (if s \<in> set [''1'', ''t'', ''T'', ''TRUE'', ''true'', ''True''] then Some True
      else if s \<in> set [''0'', ''f'', ''F'', ''FALSE'', ''false'', ''False''] then Some False
      else None)"


section \<open>Printing durations\<close>

text \<open>
  \<^verbatim>\<open>fmtFrac\<close>: the fraction of \<open>v\<close> in \<open>prec\<close> decimal places, without trailing zeros and
  without the period if it is zero, and the integer part.
\<close>

fun fmt_frac :: "nat \<Rightarrow> nat \<Rightarrow> bool \<Rightarrow> string \<Rightarrow> string \<times> nat" where
  "fmt_frac v 0 print acc = (if print then CHR ''.'' # acc else acc, v)"
| "fmt_frac v (Suc prec) print acc =
     (let digit = v mod 10; print' = (print \<or> digit \<noteq> 0)
      in fmt_frac (v div 10) prec print' (if print' then char_of (48 + digit) # acc else acc))"

text \<open>\<^verbatim>\<open>Duration.String\<close>\<close>

definition Duration_String :: "int \<Rightarrow> string" where
  "Duration_String d =
     (let u = nat \<bar>d\<bar>; sign = (if d < 0 then ''-'' else '''');
          sub = (\<lambda>prec unit. let (frac, w) = fmt_frac u prec False '''' in nat_string w @ frac @ unit)
      in if u = 0 then ''0s''
         else sign @
           (if u < 1000 then sub 0 ''ns''
            else if u < 1000000 then sub 3 [char_of (194::nat), char_of (181::nat), CHR ''s'']
            else if u < 1000000000 then sub 6 ''ms''
            else
              let (frac, secs) = fmt_frac u 9 False '''';
                  mins = secs div 60; hours = mins div 60
              in (if 0 < hours then nat_string hours @ ''h'' else '''')
                   @ (if 0 < mins then nat_string (mins mod 60) @ ''m'' else '''')
                   @ nat_string (secs mod 60) @ frac @ ''s''))"

text \<open>\<^verbatim>\<open>Duration.Truncate\<close>: towards zero, to a multiple of \<open>m\<close>; unchanged unless \<open>0 < m\<close>.\<close>

definition Truncate :: "int \<Rightarrow> int \<Rightarrow> int" where
  "Truncate d m = (if m \<le> 0 then d else if d < 0 then - (- d div m * m) else d div m * m)"

end
