(* ===== verification/Health.thy ===== *)
theory Health
  imports Audit_Store Redis_Store Json Go_Parse
begin

text \<open>
  \<^verbatim>\<open>internal/health\<close>: the readiness checkers, and the liveness and readiness handlers of the
  HTTP server.

  A checker is its name and its check, a function of the request's context and the world.  What
  a handler writes is an \<open>http_response\<close>: the status, the headers it set, in order, and the body.
\<close>

record http_response =
  status_line :: nat
  headers :: "string str_map"
  body :: bytes

definition StatusOK200 :: nat where
  "StatusOK200 = 200"

definition StatusServiceUnavailable :: nat where
  "StatusServiceUnavailable = 503"

text \<open>\<^verbatim>\<open>json.NewEncoder(w).Encode\<close> ends the document with a newline.\<close>

definition json_encode :: "json \<Rightarrow> bytes" where
  "json_encode j = json_print j @ [CHR 0x0A]"


section \<open>Checkers\<close>

record 's checker =
  checker_name :: string
  check :: "ctx \<Rightarrow> 's \<Rightarrow> go_error option \<times> 's"

definition CheckerNameRedis :: string where
  "CheckerNameRedis = ''redis''"

definition CheckerNameKeyAvailability :: string where
  "CheckerNameKeyAvailability = ''key_availability''"

definition CheckerNameAudit :: string where
  "CheckerNameAudit = ''audit''"

definition CheckerNameReconciler :: string where
  "CheckerNameReconciler = ''reconciler''"

definition NewRedisChecker :: "'s redis_client \<Rightarrow> 's checker" where
  "NewRedisChecker client = \<lparr>checker_name = CheckerNameRedis, check = rc_ping client\<rparr>"

text \<open>
  The two operations of a jwtauth KeyManager the service's HTTP side calls; \<open>'k\<close> is a key of
  the published set, of which only the number matters.
\<close>

record ('s, 'k) key_manager =
  km_key_info :: "ctx \<Rightarrow> 's \<Rightarrow> (go_error + nat) \<times> 's"
  km_jwks :: "ctx \<Rightarrow> 's \<Rightarrow> (go_error + 'k list) \<times> 's"

definition NewKeyAvailabilityChecker :: "('s, 'k) key_manager \<Rightarrow> 's checker" where
  "NewKeyAvailabilityChecker k =
     \<lparr>checker_name = CheckerNameKeyAvailability,
      check = (\<lambda>c s.
        case km_key_info k c s of
          (Inl err, s1) \<Rightarrow> (Some err, s1)
        | (Inr infos, s1) \<Rightarrow>
            if infos = 0 then (Some (PlainErr [] ''no signing keys available''), s1)
            else (None, s1))\<rparr>"

definition NewAuditChecker :: "'s audit_store \<Rightarrow> 's checker" where
  "NewAuditChecker store = \<lparr>checker_name = CheckerNameAudit, check = au_ping store\<rparr>"

text \<open>\<^verbatim>\<open>ReconcilerStatus\<close>: the time of the last successful pass, read from the world.\<close>

type_synonym 's reconciler_status = "'s \<Rightarrow> int"

definition NewReconcilerChecker ::
  "'a world_scheme reconciler_status \<Rightarrow> int \<Rightarrow> 'a world_scheme checker" where
  "NewReconcilerChecker r threshold =
     \<lparr>checker_name = CheckerNameReconciler,
      check = (\<lambda>c s.
        case ctx_err c s of
          Some err \<Rightarrow> (Some err, s)
        | None \<Rightarrow>
            let elapsed = time_since (r s) s in
            if threshold < elapsed
            then (Some (PlainErr []
                   (''no reconciliation pass in '' @ Duration_String (Truncate elapsed nsSecond)
                      @ '' (threshold '' @ Duration_String threshold @ '')'')), s)
            else (None, s))\<rparr>"


section \<open>Handlers\<close>

definition NewLiveHandler :: "ctx \<Rightarrow> 's \<Rightarrow> http_response \<times> 's" where
  "NewLiveHandler c s = (\<lparr>status_line = StatusOK200, headers = [], body = []\<rparr>, s)"

definition ready_response :: "string \<Rightarrow> go_error \<Rightarrow> json" where
  "ready_response name err =
     JObj [(''status'', JStr ''unavailable''), (''failed_check'', JStr name),
           (''reason'', JStr (error_string err))]"

fun NewReadyHandler :: "'s checker list \<Rightarrow> ctx \<Rightarrow> 's \<Rightarrow> http_response \<times> 's" where
  "NewReadyHandler [] c s = (\<lparr>status_line = StatusOK200, headers = [], body = []\<rparr>, s)"
| "NewReadyHandler (ch # checkers) c s =
     (case check ch c s of
        (Some err, s1) \<Rightarrow>
          (\<lparr>status_line = StatusServiceUnavailable,
            headers = [(''Content-Type'', ''application/json'')],
            body = json_encode (ready_response (checker_name ch) err)\<rparr>, s1)
      | (None, s1) \<Rightarrow> NewReadyHandler checkers c s1)"


section \<open>What readiness means\<close>

text \<open>The checks in order, as long as they pass: the first failure and the world after it.\<close>

inductive first_failure ::
  "ctx \<Rightarrow> 's checker list \<Rightarrow> 's \<Rightarrow> (string \<times> go_error) option \<Rightarrow> 's \<Rightarrow> bool" for c where
  all_passed: "first_failure c [] s None s"
| failed: "check ch c s = (Some e, s1) \<Longrightarrow> first_failure c (ch # chs) s (Some (checker_name ch, e)) s1"
| passed: "check ch c s = (None, s1) \<Longrightarrow> first_failure c chs s1 f s2 \<Longrightarrow> first_failure c (ch # chs) s f s2"

inductive_cases first_failure_NilE: "first_failure c [] s f s'"
inductive_cases first_failure_ConsE: "first_failure c (ch # chs) s f s'"

fun ready_answer :: "(string \<times> go_error) option \<Rightarrow> http_response" where
  "ready_answer None = \<lparr>status_line = StatusOK200, headers = [], body = []\<rparr>"
| "ready_answer (Some (name, e)) =
     \<lparr>status_line = StatusServiceUnavailable, headers = [(''Content-Type'', ''application/json'')],
      body = json_encode (ready_response name e)\<rparr>"

lemma ready_handler_exact:
  "NewReadyHandler chs c s = (r, s') \<longleftrightarrow> (\<exists>f. first_failure c chs s f s' \<and> r = ready_answer f)"
proof (induction chs c s rule: NewReadyHandler.induct)
  case (1 c s)
  show ?case by (auto intro: first_failure.intros elim: first_failure_NilE)
next
  case (2 ch chs c s)
  obtain e s1 where e: "check ch c s = (e, s1)" by fastforce
  show ?case
  proof (cases e)
    case None
    with e have "first_failure c (ch # chs) s f s' \<longleftrightarrow> first_failure c chs s1 f s'" for f
      by (auto intro: first_failure.intros elim: first_failure_ConsE)
    with 2 [OF e [symmetric] None] e None show ?thesis by simp
  next
    case (Some err)
    with e have "first_failure c (ch # chs) s f s' \<longleftrightarrow> f = Some (checker_name ch, err) \<and> s' = s1" for f
      by (auto intro: first_failure.intros elim: first_failure_ConsE)
    with e Some show ?thesis by auto
  qed
qed

lemma reconciler_check:
  "fst (check (NewReconcilerChecker r threshold) c s) = None \<longleftrightarrow>
     ctx_err c s = None \<and> time_since (r s) s \<le> threshold"
  by (auto simp: NewReconcilerChecker_def Let_def not_less split: option.split)

lemma key_check:
  "fst (check (NewKeyAvailabilityChecker k) c s) = None \<longleftrightarrow>
     (\<exists>n. fst (km_key_info k c s) = Inr n \<and> n \<noteq> 0)"
  by (auto simp: NewKeyAvailabilityChecker_def split: prod.splits sum.splits)


section \<open>Properties\<close>

text \<open>
  Readiness.  The ready handler runs the checkers in order and stops at the first failure:
  it answers 200 with an empty body exactly if every check passed, each in the world the one
  before it left (in particular with no checkers at all), and otherwise 503 with a JSON body
  that names the first failing check and its error, and no later check is run.
\<close>
theorem readiness_exact:
  "(NewReadyHandler chs c s = (r, s') \<longleftrightarrow> (\<exists>f. first_failure c chs s f s' \<and> r = ready_answer f)) \<and>
   (status_line (fst (NewReadyHandler chs c s)) = 200 \<longleftrightarrow> (\<exists>s'. first_failure c chs s None s'))"
proof -
  obtain r0 s0 where run: "NewReadyHandler chs c s = (r0, s0)" by fastforce
  then obtain f where f: "first_failure c chs s f s0" "r0 = ready_answer f"
    using ready_handler_exact [of chs c s r0 s0] by blast
  have status: "status_line (ready_answer g) = 200 \<longleftrightarrow> g = None" for g
    by (cases g) (auto simp: StatusOK200_def StatusServiceUnavailable_def)
  have "status_line r0 = 200" if "first_failure c chs s None s1" for s1
  proof -
    have "NewReadyHandler chs c s = (ready_answer None, s1)"
      using that ready_handler_exact [of chs c s "ready_answer None" s1] by blast
    with run status [of None] show ?thesis by (simp del: ready_answer.simps)
  qed
  moreover have "first_failure c chs s None s0" if "status_line r0 = 200"
    using that f status [of f] by simp
  ultimately show ?thesis
    using ready_handler_exact [of chs c s r s'] run by auto
qed

end
