(* ===== verification/Config_Load.thy ===== *)
theory Config_Load
  imports Go_Parse
begin

text \<open>
  \<^verbatim>\<open>internal/config\<close>: the configuration record and \<^verbatim>\<open>Load\<close>, which reads it from the
  environment: the fatal validations, the defaults, and the warnings for values that do not
  parse.

  The environment is a function; \<^verbatim>\<open>os.Getenv\<close> of an unset variable is the empty string.
  Durations are nanoseconds.  A warning is the variable it is about: the text goes to the
  standard logger and nothing depends on it.
\<close>

type_synonym env = "string \<Rightarrow> string"

datatype config_error =
    ErrIssuerEmpty
  | ErrAudienceEmpty
  | ErrInvalidTLSMode
  | ErrStaticCallerKeysFormat string
  | ErrStaticCallerKeysEmpty
  | ErrTLSCertFileEmpty
  | ErrTLSKeyFileEmpty
  | ErrTLSCAFileEmpty
  | ErrCallerRegistryPathEmpty

record config =
  GRPCAddr :: string
  HTTPAddr :: string
  TLSMode :: string
  Issuer :: string
  Audience :: string
  OTLPEndpoint :: string
  IdempotencyTTL :: int
  MaxConnectionAge :: int
  MaxConnectionAgeGrace :: int
  StaticCallerKeys :: "string str_map"
  TLSCertFile :: string
  TLSKeyFile :: string
  TLSCAFile :: string
  CallerRegistryPath :: string
  RedisAddr :: string
  RedisPassword :: string
  RedisDB :: int
  JWKSCacheMaxAge :: int
  LockTTL :: int
  ReconciliationInterval :: int
  RotationWindowGuard :: int
  BackfillExpiryIndex :: bool


section \<open>Fatal validations\<close>

text \<open>The loop over the pairs of the static caller keys.\<close>

fun parse_static_keys :: "string list \<Rightarrow> string str_map \<Rightarrow> config_error + string str_map" where
  "parse_static_keys [] acc = Inr acc"
| "parse_static_keys (pair # pairs) acc =
     (let idx = last_index (CHR ''='') pair in
      if idx \<le> 0 \<or> idx = int (length pair) - 1 then Inl (ErrStaticCallerKeysFormat pair)
      else parse_static_keys pairs (map_put (take (nat idx) pair) (drop (nat idx + 1) pair) acc))"

definition load_static_keys :: "string \<Rightarrow> config_error + string str_map" where
  "load_static_keys v = (if v = '''' then Inr [] else parse_static_keys (split_at (CHR '','') v) [])"

definition check_tls_files :: "string \<Rightarrow> env \<Rightarrow> config_error option" where
  "check_tls_files mode env =
     (if mode = ''mtls'' then
        if env ''TOKEN_ENGINE_TLS_CERT_FILE'' = '''' then Some ErrTLSCertFileEmpty
        else if env ''TOKEN_ENGINE_TLS_KEY_FILE'' = '''' then Some ErrTLSKeyFileEmpty
        else if env ''TOKEN_ENGINE_TLS_CA_FILE'' = '''' then Some ErrTLSCAFileEmpty
        else if env ''TOKEN_ENGINE_CALLER_REGISTRY_PATH'' = '''' then Some ErrCallerRegistryPathEmpty
        else None
      else None)"

text \<open>Step 2 in full: the mode and the static keys, once nothing is wrong.\<close>

definition tls_mode :: "env \<Rightarrow> string" where
  "tls_mode env =
     (let v = env ''TOKEN_ENGINE_TLS_MODE'' in if v = '''' then ''mtls'' else v)"

definition validate_env :: "env \<Rightarrow> config_error + string \<times> string str_map" where
  "validate_env env =
     (if env ''TOKEN_ENGINE_ISSUER'' = '''' then Inl ErrIssuerEmpty
      else if env ''TOKEN_ENGINE_AUDIENCE'' = '''' then Inl ErrAudienceEmpty
      else
        let mode = tls_mode env in
        if mode \<noteq> ''mtls'' \<and> mode \<noteq> ''disabled'' then Inl ErrInvalidTLSMode
        else
          (case load_static_keys (env ''TOKEN_ENGINE_STATIC_CALLER_KEYS'') of
             Inl e \<Rightarrow> Inl e
           | Inr keys \<Rightarrow>
               if mode = ''disabled'' \<and> keys = [] then Inl ErrStaticCallerKeysEmpty
               else
                 (case check_tls_files mode env of
                    Some e \<Rightarrow> Inl e
                  | None \<Rightarrow> Inr (mode, keys))))"


section \<open>Defaults\<close>

definition string_default :: "string \<Rightarrow> string \<Rightarrow> string" where
  "string_default v def = (if v = '''' then def else v)"

text \<open>The block each duration field has: the value and the warnings.\<close>

definition load_duration :: "env \<Rightarrow> string \<Rightarrow> int \<Rightarrow> int \<times> string list" where
  "load_duration env name def =
     (let v = env name in
      if v = '''' then (def, [])
      else
        (case ParseDuration v of
           Inl _ \<Rightarrow> (def, [name])
         | Inr d \<Rightarrow> (d, [])))"

definition load_redis_db :: "env \<Rightarrow> int \<times> string list" where
  "load_redis_db env =
     (let v = env ''TOKEN_ENGINE_REDIS_DB'' in
      if v = '''' then (0, [])
      else (case Atoi v of None \<Rightarrow> (0, [''TOKEN_ENGINE_REDIS_DB'']) | Some n \<Rightarrow> (n, [])))"

definition load_backfill :: "env \<Rightarrow> bool \<times> string list" where
  "load_backfill env =
     (let v = env ''TOKEN_ENGINE_BACKFILL_EXPIRY_INDEX'' in
      if v = '''' then (False, [])
      else
        (case ParseBool v of
           None \<Rightarrow> (False, [''TOKEN_ENGINE_BACKFILL_EXPIRY_INDEX''])
         | Some b \<Rightarrow> (b, [])))"

definition Load :: "env \<Rightarrow> (config_error + config) \<times> string list" where
  "Load env =
     (case validate_env env of
        Inl e \<Rightarrow> (Inl e, [])
      | Inr (mode, keys) \<Rightarrow>
          let idem = load_duration env ''TOKEN_ENGINE_IDEMPOTENCY_TTL'' (24 * nsHour);
              age = load_duration env ''TOKEN_ENGINE_MAX_CONNECTION_AGE'' (30 * nsMinute);
              grace = load_duration env ''TOKEN_ENGINE_MAX_CONNECTION_AGE_GRACE'' (5 * nsMinute);
              jwks = load_duration env ''TOKEN_ENGINE_JWKS_CACHE_MAX_AGE'' (5 * nsMinute);
              lock = load_duration env ''TOKEN_ENGINE_LOCK_TTL'' (30 * nsSecond);
              recon = load_duration env ''TOKEN_ENGINE_RECONCILIATION_INTERVAL'' (5 * nsMinute);
              guard = load_duration env ''TOKEN_ENGINE_ROTATION_WINDOW_GUARD'' (1 * nsMinute);
              db = load_redis_db env;
              backfill = load_backfill env
          in (Inr \<lparr>GRPCAddr = string_default (env ''TOKEN_ENGINE_GRPC_ADDR'') '':9090'',
                   HTTPAddr = string_default (env ''TOKEN_ENGINE_HTTP_ADDR'') '':8080'',
                   TLSMode = mode,
                   Issuer = env ''TOKEN_ENGINE_ISSUER'',
                   Audience = env ''TOKEN_ENGINE_AUDIENCE'',
                   OTLPEndpoint = env ''OTEL_EXPORTER_OTLP_ENDPOINT'',
                   IdempotencyTTL = fst idem,
                   MaxConnectionAge = fst age,
                   MaxConnectionAgeGrace = fst grace,
                   StaticCallerKeys = keys,
                   TLSCertFile = env ''TOKEN_ENGINE_TLS_CERT_FILE'',
                   TLSKeyFile = env ''TOKEN_ENGINE_TLS_KEY_FILE'',
                   TLSCAFile = env ''TOKEN_ENGINE_TLS_CA_FILE'',
                   CallerRegistryPath = env ''TOKEN_ENGINE_CALLER_REGISTRY_PATH'',
                   RedisAddr = string_default (env ''TOKEN_ENGINE_REDIS_ADDR'') ''localhost:6379'',
                   RedisPassword = env ''TOKEN_ENGINE_REDIS_PASSWORD'',
                   RedisDB = fst db,
                   JWKSCacheMaxAge = fst jwks,
                   LockTTL = fst lock,
                   ReconciliationInterval = fst recon,
                   RotationWindowGuard = fst guard,
                   BackfillExpiryIndex = fst backfill\<rparr>,
              snd idem @ snd age @ snd grace @ snd jwks @ snd lock @ snd recon @ snd guard
                @ snd db @ snd backfill))"


section \<open>The static caller keys\<close>

text \<open>A pair is a key and an identity, neither empty, around the last equals sign.\<close>

definition is_pair :: "string \<Rightarrow> string \<Rightarrow> string \<Rightarrow> bool" where
  "is_pair pair k i \<longleftrightarrow> pair = k @ CHR ''='' # i \<and> k \<noteq> [] \<and> i \<noteq> [] \<and> CHR ''='' \<notin> set i"

definition well_formed_pair :: "string \<Rightarrow> bool" where
  "well_formed_pair pair \<longleftrightarrow> (\<exists>k i. is_pair pair k i)"

lemma is_pair_index:
  "is_pair pair k i \<Longrightarrow> last_index (CHR ''='') pair = int (length k)"
  by (simp add: is_pair_def last_index_at)

lemma well_formed_pair_index:
  "well_formed_pair pair \<longleftrightarrow>
   \<not> (last_index (CHR ''='') pair \<le> 0 \<or> last_index (CHR ''='') pair = int (length pair) - 1)"
  (is "_ \<longleftrightarrow> \<not> ?bad")
proof
  assume "well_formed_pair pair"
  then obtain k i where p: "is_pair pair k i" by (auto simp: well_formed_pair_def)
  then show "\<not> ?bad" by (simp add: is_pair_index [OF p]) (simp add: is_pair_def)
next
  assume ok: "\<not> ?bad"
  then obtain u v where uv: "pair = u @ CHR ''='' # v" "CHR ''='' \<notin> set v"
    "last_index (CHR ''='') pair = int (length u)"
    using last_index_split [of "CHR ''=''" pair] by fastforce
  with ok have "is_pair pair u v" by (auto simp: is_pair_def)
  then show "well_formed_pair pair" by (auto simp: well_formed_pair_def)
qed

lemma parse_static_pair:
  "is_pair pair k i \<Longrightarrow>
   parse_static_keys (pair # pairs) acc = parse_static_keys pairs (map_put k i acc)"
  using well_formed_pair_index [of pair] is_pair_index [of pair k i]
  by (auto simp: Let_def well_formed_pair_def is_pair_def)

lemma parse_static_bad:
  "\<not> well_formed_pair pair \<Longrightarrow>
   parse_static_keys (pair # pairs) acc = Inl (ErrStaticCallerKeysFormat pair)"
  by (simp add: well_formed_pair_index)

declare parse_static_keys.simps(2) [simp del]

text \<open>The keys are assigned in order: a later pair for the same key wins.\<close>

definition pair_of :: "string \<Rightarrow> string \<times> string" where
  "pair_of pair =
     (take (nat (last_index (CHR ''='') pair)) pair,
      drop (nat (last_index (CHR ''='') pair) + 1) pair)"

lemma pair_of_is_pair: "is_pair pair k i \<Longrightarrow> pair_of pair = (k, i)"
  using is_pair_index [of pair k i] by (auto simp: is_pair_def pair_of_def)

lemma parse_static_keys_eq:
  "parse_static_keys pairs acc =
     (case find (\<lambda>p. \<not> well_formed_pair p) pairs of
        Some p \<Rightarrow> Inl (ErrStaticCallerKeysFormat p)
      | None \<Rightarrow> Inr (fold (\<lambda>p. map_put (fst (pair_of p)) (snd (pair_of p))) pairs acc))"
proof (induction pairs arbitrary: acc)
  case Nil
  then show ?case by simp
next
  case (Cons p ps)
  show ?case
  proof (cases "well_formed_pair p")
    case True
    then obtain k i where "is_pair p k i" by (auto simp: well_formed_pair_def)
    with Cons.IH True show ?thesis
      by (simp add: parse_static_pair pair_of_is_pair split: option.split)
  qed (simp add: parse_static_bad)
qed

lemma find_in: "find P xs = Some x \<Longrightarrow> x \<in> set xs \<and> P x"
  by (induction xs) (auto split: if_splits)

lemma fold_put_wf: "map_wf acc \<Longrightarrow> map_wf (fold (\<lambda>p. map_put (f p) (g p)) ps acc)"
  by (induction ps arbitrary: acc) auto

lemma fold_put_keys:
  "fst ` set (fold (\<lambda>p. map_put (f p) (g p)) ps acc) = f ` set ps \<union> fst ` set acc"
  by (induction ps arbitrary: acc) (auto simp: image_iff)

lemma fold_put_lookup:
  "map_of (fold (\<lambda>p. map_put (f p) (g p)) ps acc) k =
     (case find (\<lambda>p. f p = k) (rev ps) of Some p \<Rightarrow> Some (g p) | None \<Rightarrow> map_of acc k)"
proof (induction ps arbitrary: acc)
  case Nil
  then show ?case by simp
next
  case (Cons p ps)
  have "find Q (us @ [p]) = (case find Q us of Some x \<Rightarrow> Some x | None \<Rightarrow> if Q p then Some p else None)"
    for Q us by (induction us) auto
  with Cons show ?case by (auto split: option.splits)
qed

definition static_keys_ok :: "string \<Rightarrow> bool" where
  "static_keys_ok v \<longleftrightarrow> v = '''' \<or> (\<forall>pair \<in> set (split_at (CHR '','') v). well_formed_pair pair)"

lemma load_static_keys_ok:
  "(\<exists>m. load_static_keys v = Inr m) \<longleftrightarrow> static_keys_ok v"
  by (auto simp: load_static_keys_def static_keys_ok_def parse_static_keys_eq
      find_None_iff split: option.splits dest: find_in)

lemma load_static_keys_pairs:
  "load_static_keys v = Inr m \<Longrightarrow> v \<noteq> '''' \<Longrightarrow>
   m = fold (\<lambda>p. map_put (fst (pair_of p)) (snd (pair_of p))) (split_at (CHR '','') v) [] \<and>
   (\<forall>pair \<in> set (split_at (CHR '','') v). well_formed_pair pair)"
  by (auto simp: load_static_keys_def parse_static_keys_eq find_None_iff split: option.splits)

lemma load_static_keys_wf:
  assumes "load_static_keys v = Inr m"
  shows "map_wf m" and "m = [] \<longleftrightarrow> v = ''''"
    and "map_of m k = Some i \<Longrightarrow> k \<noteq> '''' \<and> i \<noteq> '''' \<and> CHR ''='' \<notin> set i"
proof -
  let ?put = "\<lambda>ps. fold (\<lambda>p. map_put (fst (pair_of p)) (snd (pair_of p))) ps []"
  note m = load_static_keys_pairs [OF assms]
  have empty: "v = '''' \<Longrightarrow> m = []" using assms by (simp add: load_static_keys_def)
  show "map_wf m"
    using empty m by (cases "v = ''''") (simp_all add: fold_put_wf)
  have "m \<noteq> []" if "v \<noteq> ''''"
    using m [OF that] fold_put_keys [of "\<lambda>p. fst (pair_of p)" "\<lambda>p. snd (pair_of p)" "split_at (CHR '','') v" "[]"]
    by auto
  then show "m = [] \<longleftrightarrow> v = ''''" using empty by blast
  assume look: "map_of m k = Some i"
  then have "v \<noteq> ''''" using empty by auto
  with look m obtain p where "p \<in> set (split_at (CHR '','') v)" "well_formed_pair p" "pair_of p = (k, i)"
    by (auto simp: fold_put_lookup prod_eq_iff split: option.splits dest!: find_in)
  then have "is_pair p k i" by (auto simp: well_formed_pair_def pair_of_is_pair)
  then show "k \<noteq> '''' \<and> i \<noteq> '''' \<and> CHR ''='' \<notin> set i"
    by (simp add: is_pair_def)
qed

text \<open>Printing the keys the way the variable is documented, and reading them back.\<close>

definition print_keys :: "string str_map \<Rightarrow> string" where
  "print_keys m = join_with (CHR '','') (map (\<lambda>(k, i). k @ CHR ''='' # i) m)"

definition printable_keys :: "string str_map \<Rightarrow> bool" where
  "printable_keys m \<longleftrightarrow>
     m \<noteq> [] \<and> map_wf m \<and>
     (\<forall>(k, i) \<in> set m. k \<noteq> '''' \<and> i \<noteq> '''' \<and> CHR ''='' \<notin> set i \<and>
        CHR '','' \<notin> set k \<and> CHR '','' \<notin> set i)"

lemma map_put_new: "k \<notin> fst ` set acc \<Longrightarrow> map_put k v acc = acc @ [(k, v)]"
  by (induction k v acc rule: map_put.induct) auto

lemma parse_printed:
  "map_wf (acc @ m) \<Longrightarrow> (\<And>k i. (k, i) \<in> set m \<Longrightarrow> is_pair (k @ CHR ''='' # i) k i) \<Longrightarrow>
   parse_static_keys (map (\<lambda>(k, i). k @ CHR ''='' # i) m) acc = Inr (acc @ m)"
proof (induction m arbitrary: acc)
  case Nil
  then show ?case by simp
next
  case (Cons x m)
  obtain k i where x: "x = (k, i)" by fastforce
  with Cons.prems have p: "is_pair (k @ CHR ''='' # i) k i" by simp
  have "map_put k i acc = acc @ [(k, i)]"
    using Cons.prems(1) by (intro map_put_new) (auto simp: map_wf_def x)
  then show ?case
    using Cons.prems Cons.IH [of "acc @ [(k, i)]"] by (simp add: x parse_static_pair [OF p])
qed


lemma load_printed_keys:
  assumes "printable_keys m"
  shows "load_static_keys (print_keys m) = Inr m"
proof -
  let ?ps = "map (\<lambda>(k, i). k @ CHR ''='' # i) m"
  have pairs: "(k, i) \<in> set m \<Longrightarrow> is_pair (k @ CHR ''='' # i) k i" for k i
    using assms by (auto simp: printable_keys_def is_pair_def)
  have "CHR '','' \<notin> set p" if "p \<in> set ?ps" for p
    using assms that by (auto simp: printable_keys_def)
  then have split: "split_at (CHR '','') (print_keys m) = ?ps"
    unfolding print_keys_def using assms by (intro split_at_join) (auto simp: printable_keys_def)
  have "print_keys m \<noteq> ''''"
  proof
    assume "print_keys m = ''''"
    with split have "?ps = ['''']" by simp
    then show False by auto
  qed
  with split parse_printed [of "[]" m] pairs assms show ?thesis
    by (simp add: load_static_keys_def printable_keys_def)
qed


section \<open>Validation as a whole\<close>

definition env_ok :: "env \<Rightarrow> bool" where
  "env_ok env \<longleftrightarrow>
     env ''TOKEN_ENGINE_ISSUER'' \<noteq> '''' \<and> env ''TOKEN_ENGINE_AUDIENCE'' \<noteq> '''' \<and>
     env ''TOKEN_ENGINE_TLS_MODE'' \<in> {'''', ''mtls'', ''disabled''} \<and>
     static_keys_ok (env ''TOKEN_ENGINE_STATIC_CALLER_KEYS'') \<and>
     (if env ''TOKEN_ENGINE_TLS_MODE'' = ''disabled''
      then env ''TOKEN_ENGINE_STATIC_CALLER_KEYS'' \<noteq> ''''
      else
        env ''TOKEN_ENGINE_TLS_CERT_FILE'' \<noteq> '''' \<and> env ''TOKEN_ENGINE_TLS_KEY_FILE'' \<noteq> '''' \<and>
        env ''TOKEN_ENGINE_TLS_CA_FILE'' \<noteq> '''' \<and> env ''TOKEN_ENGINE_CALLER_REGISTRY_PATH'' \<noteq> '''')"

lemma check_tls_files_iff:
  "check_tls_files mode env = None \<longleftrightarrow>
   (mode = ''mtls'' \<longrightarrow>
      env ''TOKEN_ENGINE_TLS_CERT_FILE'' \<noteq> '''' \<and> env ''TOKEN_ENGINE_TLS_KEY_FILE'' \<noteq> '''' \<and>
      env ''TOKEN_ENGINE_TLS_CA_FILE'' \<noteq> '''' \<and> env ''TOKEN_ENGINE_CALLER_REGISTRY_PATH'' \<noteq> '''')"
  by (simp add: check_tls_files_def)

lemma validate_env_Inr:
  "validate_env env = Inr (mode, keys) \<longleftrightarrow>
     env ''TOKEN_ENGINE_ISSUER'' \<noteq> '''' \<and> env ''TOKEN_ENGINE_AUDIENCE'' \<noteq> '''' \<and>
     mode = tls_mode env \<and> mode \<in> {''mtls'', ''disabled''} \<and>
     load_static_keys (env ''TOKEN_ENGINE_STATIC_CALLER_KEYS'') = Inr keys \<and>
     (mode = ''disabled'' \<longrightarrow> keys \<noteq> []) \<and> check_tls_files mode env = None"
  by (auto simp: validate_env_def Let_def split: sum.splits option.splits if_splits)

lemma tls_mode_cases:
  "tls_mode env = ''disabled'' \<longleftrightarrow> env ''TOKEN_ENGINE_TLS_MODE'' = ''disabled''"
  "tls_mode env = ''mtls'' \<longleftrightarrow> env ''TOKEN_ENGINE_TLS_MODE'' \<in> {'''', ''mtls''}"
  by (auto simp: tls_mode_def Let_def)

lemma validate_env_ok: "(\<exists>r. validate_env env = Inr r) \<longleftrightarrow> env_ok env"
proof
  assume "\<exists>r. validate_env env = Inr r"
  then obtain keys where "validate_env env = Inr (tls_mode env, keys)"
    using validate_env_Inr [of env] by fastforce
  then show "env_ok env"
    using load_static_keys_ok [of "env ''TOKEN_ENGINE_STATIC_CALLER_KEYS''"]
      load_static_keys_wf(2) [of "env ''TOKEN_ENGINE_STATIC_CALLER_KEYS''" keys]
    by (auto simp: validate_env_Inr env_ok_def tls_mode_cases check_tls_files_iff)
next
  assume ok: "env_ok env"
  then obtain keys where keys: "load_static_keys (env ''TOKEN_ENGINE_STATIC_CALLER_KEYS'') = Inr keys"
    using load_static_keys_ok by (auto simp: env_ok_def)
  then have "validate_env env = Inr (tls_mode env, keys)"
    using ok load_static_keys_wf(2) [OF keys]
    by (auto simp: validate_env_Inr env_ok_def tls_mode_cases check_tls_files_iff)
  then show "\<exists>r. validate_env env = Inr r" by blast
qed

lemma Load_result:
  "fst (Load env) = Inl e \<longleftrightarrow> validate_env env = Inl e"
  "(\<exists>c. fst (Load env) = Inr c) \<longleftrightarrow> (\<exists>r. validate_env env = Inr r)"
  by (auto simp: Load_def Let_def split: sum.splits prod.splits)

text \<open>The seven durations: variable, default and field.\<close>

definition duration_settings :: "(string \<times> int \<times> (config \<Rightarrow> int)) list" where
  "duration_settings =
     [(''TOKEN_ENGINE_IDEMPOTENCY_TTL'', 24 * nsHour, IdempotencyTTL),
      (''TOKEN_ENGINE_MAX_CONNECTION_AGE'', 30 * nsMinute, MaxConnectionAge),
      (''TOKEN_ENGINE_MAX_CONNECTION_AGE_GRACE'', 5 * nsMinute, MaxConnectionAgeGrace),
      (''TOKEN_ENGINE_JWKS_CACHE_MAX_AGE'', 5 * nsMinute, JWKSCacheMaxAge),
      (''TOKEN_ENGINE_LOCK_TTL'', 30 * nsSecond, LockTTL),
      (''TOKEN_ENGINE_RECONCILIATION_INTERVAL'', 5 * nsMinute, ReconciliationInterval),
      (''TOKEN_ENGINE_ROTATION_WINDOW_GUARD'', 1 * nsMinute, RotationWindowGuard)]"

definition bad_duration :: "env \<Rightarrow> string \<Rightarrow> bool" where
  "bad_duration env name \<longleftrightarrow> env name \<noteq> '''' \<and> (\<exists>e. ParseDuration (env name) = Inl e)"

lemma load_duration_value:
  "fst (load_duration env name def) = (case ParseDuration (env name) of Inl _ \<Rightarrow> def | Inr d \<Rightarrow> d)"
  by (simp add: load_duration_def Let_def ParseDuration_def split: sum.split)

lemma load_duration_warns:
  "snd (load_duration env name def) = (if bad_duration env name then [name] else [])"
  by (simp add: load_duration_def Let_def bad_duration_def split: sum.split)

lemma load_duration_range:
  "minDuration \<le> def \<Longrightarrow> def \<le> maxDuration \<Longrightarrow>
   minDuration \<le> fst (load_duration env name def) \<and> fst (load_duration env name def) \<le> maxDuration"
  by (auto simp: load_duration_value dest: ParseDuration_range split: sum.split)

lemma load_redis_db_range: "- (2 ^ 63) \<le> fst (load_redis_db env) \<and> fst (load_redis_db env) < 2 ^ 63"
  by (auto simp: load_redis_db_def Let_def split: option.split dest: Atoi_range)

text \<open>What \<open>Load\<close> returns, field by field.\<close>

lemma Load_Inr:
  assumes "Load env = (Inr c, ws)"
  shows "validate_env env = Inr (TLSMode c, StaticCallerKeys c)"
    and "(name, def, field) \<in> set duration_settings \<Longrightarrow>
         field c = fst (load_duration env name def)"
    and "RedisDB c = fst (load_redis_db env)"
    and "BackfillExpiryIndex c = fst (load_backfill env)"
    and "ws = concat (map (\<lambda>(name, def, field). snd (load_duration env name def)) duration_settings)
                @ snd (load_redis_db env) @ snd (load_backfill env)"
    and "CallerRegistryPath c = env ''TOKEN_ENGINE_CALLER_REGISTRY_PATH''"
    and "Issuer c = env ''TOKEN_ENGINE_ISSUER''" and "Audience c = env ''TOKEN_ENGINE_AUDIENCE''"
  using assms
  by (auto simp: Load_def Let_def duration_settings_def string_default_def
      split: sum.splits prod.splits)

lemma Load_addresses:
  assumes "Load env = (Inr c, ws)"
  shows "GRPCAddr c \<noteq> ''''" and "HTTPAddr c \<noteq> ''''" and "RedisAddr c \<noteq> ''''"
proof -
  have "string_default v def \<noteq> ''''" if "def \<noteq> ''''" for v def
    using that by (simp add: string_default_def)
  then show "GRPCAddr c \<noteq> ''''" "HTTPAddr c \<noteq> ''''" "RedisAddr c \<noteq> ''''"
    using assms by (auto simp: Load_def Let_def split: sum.splits prod.splits)
qed


section \<open>Properties\<close>

text \<open>
  C33: Which configurations are accepted.  Load succeeds exactly if the issuer and the audience
  are set, the TLS mode is mtls (also when unset) or disabled, the static caller keys, if any,
  are pairs with a non-empty key before and a non-empty identity after their last equals sign,
  and, with TLS disabled, there are static keys, while under mtls the certificate, key, CA and
  caller registry files are all named; a refused configuration logs no warning.
\<close>
theorem config_accepts:
  "((\<exists>c. fst (Load env) = Inr c) \<longleftrightarrow> env_ok env) \<and>
   ((\<exists>e. Load env = (Inl e, [])) \<longleftrightarrow> \<not> env_ok env)"
proof -
  have "(\<exists>c. fst (Load env) = Inr c) \<longleftrightarrow> env_ok env"
    by (simp only: Load_result(2) validate_env_ok)
  moreover have "\<exists>e. Load env = (Inl e, [])" if "\<not> env_ok env"
    using that validate_env_ok [of env] by (cases "validate_env env") (auto simp: Load_def)
  moreover have "fst (Load env) \<noteq> Inr c" if "Load env = (Inl e, [])" for e c
    using that by simp
  ultimately show ?thesis by blast
qed

text \<open>
  C34: An accepted configuration is well typed.  Its mode is mtls or disabled, the issuer, the
  audience and the three addresses are not empty, the static caller keys form a map from
  non-empty keys to non-empty identities without an equals sign, empty only under mtls, every
  duration is within the range of time.Duration, and the Redis database number is an int of 64
  bits.
\<close>
theorem config_well_typed:
  assumes "Load env = (Inr c, ws)"
  shows "TLSMode c \<in> {''mtls'', ''disabled''} \<and> Issuer c \<noteq> '''' \<and> Audience c \<noteq> '''' \<and>
    GRPCAddr c \<noteq> '''' \<and> HTTPAddr c \<noteq> '''' \<and> RedisAddr c \<noteq> '''' \<and>
    map_wf (StaticCallerKeys c) \<and>
    (\<forall>k i. map_of (StaticCallerKeys c) k = Some i \<longrightarrow> k \<noteq> '''' \<and> i \<noteq> '''' \<and> CHR ''='' \<notin> set i) \<and>
    (TLSMode c = ''disabled'' \<longrightarrow> StaticCallerKeys c \<noteq> []) \<and>
    (TLSMode c = ''mtls'' \<longrightarrow> CallerRegistryPath c \<noteq> '''') \<and>
    (\<forall>(name, def, field) \<in> set duration_settings. minDuration \<le> field c \<and> field c \<le> maxDuration) \<and>
    - (2 ^ 63) \<le> RedisDB c \<and> RedisDB c < 2 ^ 63"
proof -
  note valid = Load_Inr(1) [OF assms, unfolded validate_env_Inr]
  have defaults: "minDuration \<le> def \<and> def \<le> maxDuration"
    if "(name, def, field) \<in> set duration_settings" for name def field
    using that by (auto simp: duration_settings_def minDuration_def maxDuration_def
        nsHour_def nsMinute_def nsSecond_def)
  have "minDuration \<le> field c \<and> field c \<le> maxDuration"
    if "(name, def, field) \<in> set duration_settings" for name def field
    using Load_Inr(2) [OF assms that] load_duration_range [of def env name] defaults [OF that] by simp
  moreover have "TLSMode c = ''mtls'' \<Longrightarrow> CallerRegistryPath c \<noteq> ''''"
    using valid Load_Inr(6) [OF assms] by (simp add: check_tls_files_iff)
  ultimately show ?thesis
    using valid Load_Inr(3,7,8) [OF assms] Load_addresses [OF assms] load_redis_db_range [of env]
      load_static_keys_wf [of "env ''TOKEN_ENGINE_STATIC_CALLER_KEYS''" "StaticCallerKeys c"]
    by auto
qed

definition sample_env :: env where
  "sample_env name =
     (case map_of
        [(''TOKEN_ENGINE_ISSUER'', ''iss''), (''TOKEN_ENGINE_AUDIENCE'', ''aud''),
         (''TOKEN_ENGINE_TLS_MODE'', ''disabled''),
         (''TOKEN_ENGINE_STATIC_CALLER_KEYS'', ''a==svc,b=ops''),
         (''TOKEN_ENGINE_LOCK_TTL'', ''soon''),
         (''TOKEN_ENGINE_ROTATION_WINDOW_GUARD'', ''0'')] name
      of None \<Rightarrow> '''' | Some v \<Rightarrow> v)"

lemma sample_durations:
  "ParseDuration '''' = Inl InvalidDuration"
  "ParseDuration ''0'' = Inr 0"
  "ParseDuration ''soon'' = Inl InvalidDuration"
  by code_simp+

lemma sample_keys:
  "load_static_keys ''a==svc,b=ops'' = Inr [(''a='', ''svc''), (''b'', ''ops'')]"
  by code_simp

lemma sample_env_values:
  "sample_env ''TOKEN_ENGINE_ISSUER'' = ''iss''"
  "sample_env ''TOKEN_ENGINE_AUDIENCE'' = ''aud''"
  "sample_env ''TOKEN_ENGINE_TLS_MODE'' = ''disabled''"
  "sample_env ''TOKEN_ENGINE_STATIC_CALLER_KEYS'' = ''a==svc,b=ops''"
  "sample_env ''TOKEN_ENGINE_LOCK_TTL'' = ''soon''"
  "sample_env ''TOKEN_ENGINE_ROTATION_WINDOW_GUARD'' = ''0''"
  by code_simp+

lemma sample_validates:
  "validate_env sample_env = Inr (''disabled'', [(''a='', ''svc''), (''b'', ''ops'')])"
proof -
  have "tls_mode sample_env = ''disabled''"
    by (simp add: tls_mode_cases sample_env_values)
  moreover have "check_tls_files ''disabled'' sample_env = None"
    by (simp add: check_tls_files_def)
  ultimately show ?thesis
    unfolding validate_env_Inr by (simp add: sample_env_values sample_keys)
qed

lemma sample_loads: "\<exists>c ws. Load sample_env = (Inr c, ws)"
  unfolding Load_def sample_validates sum.case prod.case Let_def by blast

theorem config_well_typed_witness:
  "\<exists>c ws. Load sample_env = (Inr c, ws) \<and> TLSMode c \<in> {''mtls'', ''disabled''}"
proof -
  from sample_loads obtain c ws where c: "Load sample_env = (Inr c, ws)" by blast
  show ?thesis by (intro exI conjI, rule c) (rule config_well_typed [OF c, THEN conjunct1])
qed

text \<open>
  Values that do not parse fall back to the default, with a warning.  In an accepted
  configuration each of the seven durations is the parsed value of its variable, or its default
  if the variable is unset or does not parse; the Redis database is the parsed integer or 0,
  the backfill flag the parsed boolean or false; and the warnings name exactly the variables
  that are set and do not parse.
\<close>
theorem config_defaults:
  assumes "Load env = (Inr c, ws)"
  shows "(\<forall>(name, def, field) \<in> set duration_settings.
      field c = (case ParseDuration (env name) of Inl _ \<Rightarrow> def | Inr d \<Rightarrow> d)) \<and>
    RedisDB c = (case Atoi (env ''TOKEN_ENGINE_REDIS_DB'') of None \<Rightarrow> 0 | Some n \<Rightarrow> n) \<and>
    BackfillExpiryIndex c =
      (case ParseBool (env ''TOKEN_ENGINE_BACKFILL_EXPIRY_INDEX'') of None \<Rightarrow> False | Some b \<Rightarrow> b) \<and>
    set ws =
      {name \<in> fst ` set duration_settings. bad_duration env name} \<union>
      {name. name = ''TOKEN_ENGINE_REDIS_DB'' \<and> env name \<noteq> '''' \<and> Atoi (env name) = None} \<union>
      {name. name = ''TOKEN_ENGINE_BACKFILL_EXPIRY_INDEX'' \<and> env name \<noteq> '''' \<and>
             ParseBool (env name) = None}"
proof -
  have db: "fst (load_redis_db env) =
      (case Atoi (env ''TOKEN_ENGINE_REDIS_DB'') of None \<Rightarrow> 0 | Some n \<Rightarrow> n)"
    by (simp add: load_redis_db_def Let_def Atoi_def split: option.split)
  have bf: "fst (load_backfill env) =
      (case ParseBool (env ''TOKEN_ENGINE_BACKFILL_EXPIRY_INDEX'') of None \<Rightarrow> False | Some b \<Rightarrow> b)"
    by (simp add: load_backfill_def Let_def ParseBool_def split: option.split)
  have "set (concat (map (\<lambda>(name, def, field). snd (load_duration env name def)) duration_settings)) =
      {name \<in> fst ` set duration_settings. bad_duration env name}"
    by (auto simp: duration_settings_def load_duration_warns)
  then have "set ws =
      {name \<in> fst ` set duration_settings. bad_duration env name} \<union>
      set (snd (load_redis_db env)) \<union> set (snd (load_backfill env))"
    unfolding Load_Inr(5) [OF assms] set_append by (simp only: Un_assoc)
  moreover have "set (snd (load_redis_db env)) =
      {name. name = ''TOKEN_ENGINE_REDIS_DB'' \<and> env name \<noteq> '''' \<and> Atoi (env name) = None}"
    by (auto simp: load_redis_db_def Let_def split: option.split)
  moreover have "set (snd (load_backfill env)) =
      {name. name = ''TOKEN_ENGINE_BACKFILL_EXPIRY_INDEX'' \<and> env name \<noteq> '''' \<and>
             ParseBool (env name) = None}"
    by (auto simp: load_backfill_def Let_def split: option.split)
  ultimately have warns: "set ws =
      {name \<in> fst ` set duration_settings. bad_duration env name} \<union>
      {name. name = ''TOKEN_ENGINE_REDIS_DB'' \<and> env name \<noteq> '''' \<and> Atoi (env name) = None} \<union>
      {name. name = ''TOKEN_ENGINE_BACKFILL_EXPIRY_INDEX'' \<and> env name \<noteq> '''' \<and>
             ParseBool (env name) = None}"
    by (simp only:)
  have "field c = (case ParseDuration (env name) of Inl _ \<Rightarrow> def | Inr d \<Rightarrow> d)"
    if "(name, def, field) \<in> set duration_settings" for name def field
    using Load_Inr(2) [OF assms that] by (simp add: load_duration_value)
  then have fields: "\<forall>(name, def, field) \<in> set duration_settings.
      field c = (case ParseDuration (env name) of Inl _ \<Rightarrow> def | Inr d \<Rightarrow> d)" by blast
  show ?thesis
    unfolding Load_Inr(3,4) [OF assms] db bf by (rule conjI [OF fields conjI [OF refl conjI [OF refl warns]]])
qed

theorem config_defaults_witness:
  "\<exists>c ws. Load sample_env = (Inr c, ws) \<and> LockTTL c = 30 * nsSecond \<and>
     ''TOKEN_ENGINE_LOCK_TTL'' \<in> set ws"
proof -
  from sample_loads obtain c ws where c: "Load sample_env = (Inr c, ws)" by blast
  have setting: "(''TOKEN_ENGINE_LOCK_TTL'', 30 * nsSecond, LockTTL) \<in> set duration_settings"
    by (simp add: duration_settings_def)
  have bad: "bad_duration sample_env ''TOKEN_ENGINE_LOCK_TTL''"
    by (simp add: bad_duration_def sample_env_values sample_durations)
  note defaults = config_defaults [OF c]
  have "LockTTL c = 30 * nsSecond"
    using bspec [OF defaults [THEN conjunct1] setting]
    by (simp only: prod.case sample_env_values sample_durations sum.case)
  moreover have "''TOKEN_ENGINE_LOCK_TTL'' \<in> set ws"
    unfolding defaults [THEN conjunct2, THEN conjunct2, THEN conjunct2]
    by (intro UnI1 CollectI conjI bad) (rule image_eqI [OF _ setting], rule fst_conv [symmetric])
  ultimately show ?thesis using c by blast
qed

text \<open>
  C35: Static keys are read back as they are written.  A non-empty key map printed as
  key1=identity1,key2=identity2, whose keys and identities are not empty and hold no comma, and
  whose identities hold no equals sign, is loaded as that same map, in order, even when keys
  contain equals signs; and every accepted value is a map from non-empty keys to non-empty
  identities without an equals sign.
\<close>
theorem static_keys_roundtrip:
  assumes "printable_keys m"
  shows "load_static_keys (print_keys m) = Inr m \<and>
    (\<forall>v m' k i. load_static_keys v = Inr m' \<and> map_of m' k = Some i \<longrightarrow>
       k \<noteq> '''' \<and> i \<noteq> '''' \<and> CHR ''='' \<notin> set i)"
  using load_printed_keys [OF assms] load_static_keys_wf(3) by blast

theorem static_keys_roundtrip_witness:
  "load_static_keys (print_keys [(''a='', ''svc''), (''b'', ''ops'')]) =
     Inr [(''a='', ''svc''), (''b'', ''ops'')]"
  by (rule static_keys_roundtrip [THEN conjunct1]) (simp add: printable_keys_def)

end
