(* ===== verification/Jwks_Handler.thy ===== *)
theory Jwks_Handler
  imports Health Token_Handler Config_Load
begin

text \<open>
  \<^verbatim>\<open>internal/handler/jwks.go\<close>: the handler of the public key set.  What jwtauth's key set
  prints to as JSON is a parameter, as is the key manager.
\<close>

definition jwksCacheControlHeader :: string where
  "jwksCacheControlHeader = ''Cache-Control''"

definition jwksContentTypeJSON :: string where
  "jwksContentTypeJSON = ''application/json''"

text \<open>\<^verbatim>\<open>int(d.Seconds())\<close> of a duration of either sign: truncated towards zero.\<close>

definition int_seconds :: "int \<Rightarrow> int" where
  "int_seconds d = (if d < 0 then - \<lfloor>duration_seconds (- d)\<rfloor> else \<lfloor>duration_seconds d\<rfloor>)"

definition jwks_error :: "string \<Rightarrow> http_response" where
  "jwks_error reason =
     \<lparr>status_line = StatusServiceUnavailable, headers = [(''Content-Type'', jwksContentTypeJSON)],
      body = json_encode (JObj [(''error'', JStr reason)])\<rparr>"

definition JWKSHandler ::
  "('k list \<Rightarrow> bytes) \<Rightarrow> ('a world_scheme, 'k) key_manager \<Rightarrow> string \<Rightarrow> config \<Rightarrow> ctx \<Rightarrow>
   'a world_scheme \<Rightarrow> http_response \<times> 'a world_scheme" where
  "JWKSHandler encode k tenantID cfg c s =
     (let (infos, s1) = km_key_info k c s;
          s2 = (case infos of
                  Inr n \<Rightarrow> emit (EGauge MetricJWKSKeyCount (int n) [(''tenant_id'', tenantID)]) s1
                | Inl _ \<Rightarrow> s1)
      in case km_jwks k c s2 of
           (Inl err, s3) \<Rightarrow> (jwks_error ''key manager unavailable'', s3)
         | (Inr keys, s3) \<Rightarrow>
             if keys = [] then (jwks_error ''no signing keys available'', s3)
             else
               (\<lparr>status_line = StatusOK200,
                 headers = [(''Content-Type'', jwksContentTypeJSON),
                            (jwksCacheControlHeader,
                             ''public, max-age='' @ int_string (int_seconds (JWKSCacheMaxAge cfg)))],
                 body = encode keys @ [CHR 0x0A]\<rparr>, s3))"

lemma int_seconds_whole:
  assumes "0 \<le> n" and "n < 2 ^ 53"
  shows "int_seconds (n * nsSecond) = n"
proof -
  have "duration_seconds (n * nsSecond) = fl (of_int n + fl 0)"
    by (simp add: duration_seconds_def nsSecond_def)
  also have "fl 0 = 0" by (simp add: fl_def)
  finally have secs: "duration_seconds (n * nsSecond) = fl (of_int n)" by simp
  have "fl (of_int n) = of_int n"
  proof (cases "n = 0")
    case True
    then show ?thesis by (simp add: fl_def)
  next
    case False
    have pos: "1 / 2 ^ 64 \<le> (of_int n :: rat)"
    proof -
      have "(1::rat) / 2 ^ 64 \<le> 1" by simp
      also have "1 \<le> (of_int n :: rat)" using False assms(1) by simp
      finally show ?thesis .
    qed
    have less: "(of_int n :: rat) < 2 ^ 53"
      using assms(2) by (metis of_int_less_iff of_int_numeral of_int_power)
    from fl_ge_int [OF pos less order_refl] fl_le_int [OF pos less order_refl] show ?thesis by simp
  qed
  then have "\<lfloor>fl (of_int n)\<rfloor> = n" by simp
  moreover have "\<not> n * nsSecond < 0" using assms by (simp add: nsSecond_def)
  ultimately show ?thesis by (simp add: int_seconds_def secs)
qed

text \<open>
  The response as a function of the key set: an error, no keys, keys.
\<close>

theorem jwks_responses:
  assumes "km_key_info k c s = (infos, s1)"
    and "km_jwks k c
           (case infos of Inr n \<Rightarrow> emit (EGauge MetricJWKSKeyCount (int n) [(''tenant_id'', tenantID)]) s1
                        | Inl _ \<Rightarrow> s1) = (res, s3)"
  shows "snd (JWKSHandler encode k tenantID cfg c s) = s3 \<and>
    (status_line (fst (JWKSHandler encode k tenantID cfg c s)) = 200 \<longleftrightarrow>
       (\<exists>keys. res = Inr keys \<and> keys \<noteq> [])) \<and>
    (map_has (headers (fst (JWKSHandler encode k tenantID cfg c s))) jwksCacheControlHeader \<longleftrightarrow>
       status_line (fst (JWKSHandler encode k tenantID cfg c s)) = 200) \<and>
    map_of (headers (fst (JWKSHandler encode k tenantID cfg c s))) ''Content-Type'' = Some ''application/json''"
  using assms
  by (auto simp: JWKSHandler_def jwks_error_def StatusOK200_def StatusServiceUnavailable_def
      map_has_def jwksCacheControlHeader_def jwksContentTypeJSON_def split: sum.splits)

end
