(* ===== verification/Dist_Lock.thy ===== *)
theory Dist_Lock
  imports Redis_Store
begin

text \<open>
  \<^verbatim>\<open>internal/lock\<close>: the Locker and Lock interfaces, the Redis lock (SET NX PX to acquire, a
  compare-and-delete script to release) and the NoOp lock.

  A held lock is what \<^verbatim>\<open>Acquire\<close> returns: the function its \<^verbatim>\<open>Release\<close> runs.  The token
  of a holder is a fresh UUID, drawn by a third-party generator: a parameter \<open>uuid\<close> that
  reads, and may change, the world.
\<close>

type_synonym 's lock = "ctx \<Rightarrow> 's \<Rightarrow> go_error option \<times> 's"

type_synonym 's locker = "ctx \<Rightarrow> string \<Rightarrow> int \<Rightarrow> 's \<Rightarrow> (go_error + 's lock) \<times> 's"

definition release_script :: lua where
  "release_script = LIfEq (LGet (LKey 1)) (LArg 1) (LDel (LKey 1)) (LNum 0)"

definition RedisRelease :: "'s redis_client \<Rightarrow> string \<Rightarrow> string \<Rightarrow> 's lock" where
  "RedisRelease client key token c s = rc_eval client c release_script [key] [token] s"

definition RedisAcquire :: "'s redis_client \<Rightarrow> ('s \<Rightarrow> string \<times> 's) \<Rightarrow> 's locker" where
  "RedisAcquire client uuid c key ttl s =
     (let (token, s1) = uuid s in
      case rc_setargs_nx client c key token ttl s1 of
        (Inl err, s2) \<Rightarrow> (Inl err, s2)
      | (Inr reply, s2) \<Rightarrow>
          if reply \<noteq> ''OK'' then (Inl (PlainErr [] ''lock: already held''), s2)
          else (Inr (RedisRelease client key token), s2))"

definition NoOpRelease :: "'s lock" where
  "NoOpRelease c s = (None, s)"

definition NoOpAcquire :: "'s locker" where
  "NoOpAcquire c key ttl s = (Inr NoOpRelease, s)"


section \<open>The effect of the release script\<close>

text \<open>Compare and delete: the key goes exactly if it is live and holds the token.\<close>

lemma release_script_effect:
  "snd (lua_eval release_script [key] [token] t d) =
     (if live d t key = Some token then d(key := None) else d)"
  by (simp add: release_script_def lua_index_def split: option.split)

lemma release_script_keeps:
  "k \<noteq> key \<or> live d t k \<noteq> Some token \<Longrightarrow>
   snd (lua_eval release_script [key] [token] t d) k = d k"
  by (auto simp: release_script_effect)

lemma release_script_live:
  "live (snd (lua_eval release_script [key] [token] t d)) t' k =
     (if k = key \<and> live d t key = Some token then None else live d t' k)"
  by (simp add: release_script_effect)


section \<open>The contract of a lock\<close>

text \<open>
  A \<open>locker\<close> never changes a key other than its own, and neither does the lock it gives
  out.  Both implementations keep this much, the NoOp lock trivially.
\<close>

locale locker =
  fixes acquire :: "'a world_scheme locker" and db :: "'a world_scheme \<Rightarrow> db"
  assumes acquire_frame:
      "acquire c key ttl s = (r, s') \<Longrightarrow> k \<noteq> key \<Longrightarrow> db s' k = db s k"
    and release_frame:
      "acquire c key ttl s = (Inr rel, s') \<Longrightarrow> rel c' u = (e, u') \<Longrightarrow> k \<noteq> key \<Longrightarrow> db u' k = db u k"

text \<open>
  An \<open>exclusive_locker\<close> gives the lock out only while nobody holds it, and a release frees
  the key only if its holder's own value is still there.
\<close>

locale exclusive_locker = locker +
  assumes acquired:
      "acquire c key ttl s = (Inr rel, s') \<Longrightarrow>
       \<exists>t token. clock s \<le> t \<and> t \<le> clock s' \<and> live (db s) t key = None \<and>
         db s' = put_key (db s) key token t ttl \<and>
         (\<forall>c' u e u'. rel c' u = (e, u') \<longrightarrow>
            db u' = db u \<or> (\<exists>t'. live (db u) t' key = Some token \<and> db u' = (db u)(key := None)))"
begin

text \<open>While a key is live it cannot be acquired.\<close>

lemma not_while_held:
  assumes "live (db s) (clock s') key = Some token"
  shows "acquire c key ttl s \<noteq> (Inr rel, s')"
proof
  assume "acquire c key ttl s = (Inr rel, s')"
  from acquired [OF this] obtain t where "t \<le> clock s'" "live (db s) t key = None" by blast
  with live_mono [OF assms, of t] show False by simp
qed

end


section \<open>The implementations\<close>

interpretation noop_lock: locker NoOpAcquire db for db
  by unfold_locales (auto simp: NoOpAcquire_def NoOpRelease_def)

text \<open>A generator of tokens that takes no time to speak of and leaves the server alone.\<close>

locale token_source =
  fixes uuid :: "'a world_scheme \<Rightarrow> string \<times> 'a world_scheme" and db :: "'a world_scheme \<Rightarrow> db"
  assumes uuid_frame: "uuid s = (token, s') \<Longrightarrow> clock s \<le> clock s' \<and> db s' = db s"

locale redis_locking = redis_server rc db + token_source uuid db
  for rc :: "'a world_scheme redis_client" and db and uuid
begin

lemma acquire_ok:
  assumes "RedisAcquire rc uuid c key ttl s = (Inr rel, s')"
  obtains t token where "clock s \<le> t" and "t \<le> clock s'" and "live (db s) t key = None"
    and "db s' = put_key (db s) key token t ttl" and "rel = RedisRelease rc key token"
    and "token = fst (uuid s)"
proof -
  obtain token s1 where u: "uuid s = (token, s1)" by fastforce
  with assms have "rc_setargs_nx rc c key token ttl s1 = (Inr ''OK'', s')"
    and rel: "rel = RedisRelease rc key token"
    by (auto simp: RedisAcquire_def split: prod.splits sum.splits if_splits)
  from setargs_ok [OF this(1)] obtain t where
    "during s1 s' t" "live (db s1) t key = None" "db s' = put_key (db s1) key token t ttl" by blast
  with uuid_frame [OF u] u rel show ?thesis
    by (intro that [of t token]) (auto simp: during_def)
qed

lemma acquire_fails:
  assumes "RedisAcquire rc uuid c key ttl s = (Inl e, s')" and "k \<noteq> key"
  shows "db s' k = db s k"
proof -
  obtain token s1 where u: "uuid s = (token, s1)" by fastforce
  with assms(1) obtain r where r: "rc_setargs_nx rc c key token ttl s1 = (r, s')"
      and "r = Inl e \<or> (\<exists>reply. r = Inr reply \<and> reply \<noteq> ''OK'')"
    by (auto simp: RedisAcquire_def split: prod.splits sum.splits if_splits)
  then show ?thesis
    using setargs_err [of c key token ttl s1 e s'] setargs_other [of c key token ttl s1 _ s']
      uuid_frame [OF u] assms(2)
    by (auto simp: put_key_def)
qed

lemma release_effect:
  assumes "RedisRelease rc key token c s = (e, s')"
  shows "db s' = db s \<or>
    (\<exists>t. during s s' t \<and> live (db s) t key = Some token \<and> db s' = (db s)(key := None))"
proof -
  have r: "rc_eval rc c release_script [key] [token] s = (e, s')"
    using assms by (simp add: RedisRelease_def)
  have "db s' = db s \<or> (\<exists>t. during s s' t \<and> db s' = snd (lua_eval release_script [key] [token] t (db s)))"
    using eval_ok [of c release_script "[key]" "[token]" s s'] eval_err [of c release_script "[key]" "[token]" s _ s'] r
    by (cases e) auto
  then show ?thesis by (auto simp: release_script_effect split: if_splits)
qed

end

sublocale redis_locking < redis_lock: exclusive_locker "RedisAcquire rc uuid" db
proof (unfold_locales, goal_cases)
  case (1 c key ttl s r s' k)
  show ?case
  proof (cases r)
    case (Inl e)
    with 1 show ?thesis using acquire_fails by blast
  next
    case (Inr rel)
    with 1 obtain t token where "db s' = put_key (db s) key token t ttl"
      using acquire_ok by metis
    with 1 show ?thesis by (simp add: put_key_def)
  qed
next
  case (2 c key ttl s rel s' c' u e u' k)
  then obtain token where "rel = RedisRelease rc key token" using acquire_ok by metis
  with 2 release_effect [of key token c' u e u'] show ?case by auto
next
  case (3 c key ttl s rel s')
  then obtain t token where t: "clock s \<le> t" "t \<le> clock s'" "live (db s) t key = None"
      "db s' = put_key (db s) key token t ttl" and rel: "rel = RedisRelease rc key token"
    by (rule acquire_ok)
  have "db u' = db u \<or> (\<exists>t'. live (db u) t' key = Some token \<and> db u' = (db u)(key := None))"
    if "rel c' u = (e, u')" for c' u e u'
    using release_effect [of key token c' u e u'] that unfolding rel by blast
  with t show ?case by blast
qed


section \<open>Mutual exclusion\<close>

text \<open>
  What the other replicas do with the lock service between two instants: they acquire
  locks, whether they get them or not, and release locks by the tokens they were given.
\<close>

datatype lock_op = OpAcquire ctx string int | OpRelease ctx string string

fun lock_step ::
  "'s redis_client \<Rightarrow> ('s \<Rightarrow> string \<times> 's) \<Rightarrow> lock_op \<Rightarrow> 's \<Rightarrow> 's" where
  "lock_step rc uuid (OpAcquire c key ttl) s = snd (RedisAcquire rc uuid c key ttl s)"
| "lock_step rc uuid (OpRelease c key token) s = snd (RedisRelease rc key token c s)"

definition lock_run ::
  "'s redis_client \<Rightarrow> ('s \<Rightarrow> string \<times> 's) \<Rightarrow> lock_op list \<Rightarrow> 's \<Rightarrow> 's" where
  "lock_run rc uuid ops s = fold (lock_step rc uuid) ops s"

fun releases :: "string \<Rightarrow> string \<Rightarrow> lock_op \<Rightarrow> bool" where
  "releases key token (OpRelease c k t) \<longleftrightarrow> k = key \<and> t = token"
| "releases key token (OpAcquire c k ttl) \<longleftrightarrow> False"

context redis_locking begin

lemma clock_acquire: "clock s \<le> clock (snd (RedisAcquire rc uuid c key ttl s))"
proof -
  obtain token s1 where u: "uuid s = (token, s1)" by fastforce
  obtain r s2 where r: "rc_setargs_nx rc c key token ttl s1 = (r, s2)" by fastforce
  have "clock s1 \<le> clock s2" using frame(4) [OF r] by (simp add: call_frame_def)
  with u r uuid_frame [OF u] show ?thesis by (auto simp: RedisAcquire_def split: sum.splits)
qed

lemma clock_release: "clock s \<le> clock (snd (RedisRelease rc key token c s))"
proof -
  obtain e s' where "rc_eval rc c release_script [key] [token] s = (e, s')" by fastforce
  with frame(5) [OF this] show ?thesis by (simp add: RedisRelease_def call_frame_def)
qed

lemma clock_step: "clock s \<le> clock (lock_step rc uuid op s)"
  using clock_acquire clock_release by (cases op) simp_all

lemma clock_run: "clock s \<le> clock (lock_run rc uuid ops s)"
proof (induction ops arbitrary: s)
  case (Cons op ops)
  then show ?case using clock_step [of s op] order_trans by (fastforce simp: lock_run_def)
qed (simp add: lock_run_def)

text \<open>A live entry survives every step but the release by its own token.\<close>

lemma step_keeps_held:
  assumes held: "live (db s) (clock (lock_step rc uuid op s)) key = Some token"
    and other: "\<not> releases key token op"
  shows "db (lock_step rc uuid op s) key = db s key"
proof (cases op)
  case (OpAcquire c k ttl)
  obtain r s' where r: "RedisAcquire rc uuid c k ttl s = (r, s')" by fastforce
  show ?thesis
  proof (cases "k = key \<and> \<not> (\<exists>e. r = Inl e)")
    case True
    then obtain rel where "r = Inr rel" by (cases r) auto
    with redis_lock.not_while_held [of s s' key token c ttl rel] r held OpAcquire True
    show ?thesis by simp
  next
    case False
    then consider "k \<noteq> key" | e where "r = Inl e" "k = key" by blast
    then show ?thesis
    proof cases
      case 1
      with redis_lock.acquire_frame [OF r, of key] r OpAcquire show ?thesis by simp
    next
      case 2
      obtain tk s1 where u: "uuid s = (tk, s1)" by fastforce
      with r 2 obtain q where q: "rc_setargs_nx rc c k tk ttl s1 = (q, s')"
          and q_cases: "q = Inl e \<or> (\<exists>reply. q = Inr reply \<and> reply \<noteq> ''OK'')"
        by (auto simp: RedisAcquire_def split: prod.splits sum.splits if_splits)
      have dbs: "db s1 = db s" using uuid_frame [OF u] by simp
      have "live (db s) (clock s') key = Some token" using held OpAcquire r by simp
      then have busy: "live (db s1) t k \<noteq> None" if "during s1 s' t" for t
        using live_mono [of "db s" "clock s'" key token t] that 2 dbs by (auto simp: during_def)
      from q_cases have "db s' = db s1"
      proof
        assume "q = Inl e"
        with setargs_err [of c k tk ttl s1 e s'] q busy show ?thesis by blast
      next
        assume "\<exists>reply. q = Inr reply \<and> reply \<noteq> ''OK''"
        with setargs_other [of c k tk ttl s1 _ s'] q show ?thesis by blast
      qed
      then have "db s' = db s" using dbs by simp
      with r OpAcquire show ?thesis by simp
    qed
  qed
next
  case (OpRelease c k tk)
  obtain e s' where r: "RedisRelease rc k tk c s = (e, s')" by fastforce
  have live: "live (db s) (clock s') key = Some token" using held OpRelease r by simp
  show ?thesis
  proof (cases "db s' = db s")
    case False
    with release_effect [OF r] obtain t where
      t: "t \<le> clock s'" "live (db s) t k = Some tk" "db s' = (db s)(k := None)"
      by (auto simp: during_def)
    with live_mono [OF live t(1)] other OpRelease r show ?thesis by auto
  qed (use OpRelease r in simp)
qed

lemma run_keeps_held:
  assumes "live (db s) (clock (lock_run rc uuid ops s)) key = Some token"
    and "\<forall>op\<in>set ops. \<not> releases key token op"
  shows "db (lock_run rc uuid ops s) key = db s key"
  using assms
proof (induction ops arbitrary: s)
  case Nil
  then show ?case by (simp add: lock_run_def)
next
  case (Cons op ops)
  let ?s1 = "lock_step rc uuid op s"
  have run: "lock_run rc uuid (op # ops) s = lock_run rc uuid ops ?s1" by (simp add: lock_run_def)
  have "clock ?s1 \<le> clock (lock_run rc uuid ops ?s1)" by (rule clock_run)
  with Cons.prems run have "live (db s) (clock ?s1) key = Some token" by (auto intro: live_mono)
  then have same: "db ?s1 key = db s key" using Cons.prems by (intro step_keeps_held) auto
  then have "live (db ?s1) t key = live (db s) t key" for t by (simp add: live_def)
  with Cons run same show ?case by simp
qed

text \<open>
  Between the acquisition and the deadline of the key, nobody else acquires it, whatever
  they do, as long as they do not hold the token.
\<close>

lemma mutual_exclusion:
  assumes got: "RedisAcquire rc uuid c key ttl s = (Inr rel, s1)"
    and others: "\<forall>op\<in>set ops. \<not> releases key (fst (uuid s)) op"
    and again: "RedisAcquire rc uuid c' key ttl' (lock_run rc uuid ops s1) = (Inr rel', s2)"
  shows "0 < ttl \<and> clock s + max 1000000 (ttl div 1000000 * 1000000) \<le> clock s2"
proof (rule ccontr)
  obtain t where t: "clock s \<le> t" "db s1 = put_key (db s) key (fst (uuid s)) t ttl"
    using acquire_ok [OF got] by metis
  let ?u = "lock_run rc uuid ops s1"
  assume "\<not> (0 < ttl \<and> clock s + max 1000000 (ttl div 1000000 * 1000000) \<le> clock s2)"
  then have early: "ttl \<le> 0 \<or> clock s2 < t + max 1000000 (ttl div 1000000 * 1000000)"
    using t(1) by auto
  have s2: "clock ?u \<le> clock s2" using clock_acquire [of ?u c' key ttl'] again by simp
  have held: "live (db s1) t' key = Some (fst (uuid s))" if "t' \<le> clock s2" for t'
    using early that t(2) by (auto simp: expiry_def)
  have "db ?u key = db s1 key"
    using held [OF s2] others by (rule run_keeps_held)
  then have "live (db ?u) (clock s2) key = Some (fst (uuid s))"
    using held [of "clock s2"] by (simp add: live_def)
  with redis_lock.not_while_held again show False by blast
qed

end

context redis_locking begin

lemma release_other_keys:
  assumes "RedisRelease rc key token c s = (e, s')"
  shows "\<forall>k. k \<noteq> key \<longrightarrow> db s' k = db s k"
  using release_effect [OF assms] by auto

lemma release_spares:
  assumes "RedisRelease rc key token c s = (e, s')"
  shows "\<forall>other. live (db s) (clock s') key = Some other \<longrightarrow> other \<noteq> token \<longrightarrow> db s' key = db s key"
proof (intro allI impI)
  fix other
  assume live: "live (db s) (clock s') key = Some other" and other: "other \<noteq> token"
  from release_effect [OF assms] show "db s' key = db s key"
  proof
    assume "\<exists>t. during s s' t \<and> live (db s) t key = Some token \<and> db s' = (db s)(key := None)"
    then obtain t where "t \<le> clock s'" "live (db s) t key = Some token" by (auto simp: during_def)
    with live_mono [OF live, of t] other show ?thesis by simp
  qed simp
qed

lemma release_removes:
  assumes "RedisRelease rc key token c s = (None, s')"
  shows "\<forall>t. clock s' \<le> t \<longrightarrow> live (db s') t key \<noteq> Some token"
proof (intro allI impI)
  fix t assume t: "clock s' \<le> t"
  have "rc_eval rc c release_script [key] [token] s = (None, s')"
    using assms by (simp add: RedisRelease_def)
  from eval_ok [OF this] obtain u where u: "u \<le> clock s'"
    "db s' = snd (lua_eval release_script [key] [token] u (db s))" by (auto simp: during_def)
  show "live (db s') t key \<noteq> Some token"
  proof (cases "live (db s) u key = Some token")
    case True
    with u(2) show ?thesis by (simp add: release_script_effect)
  next
    case False
    with u live_mono [of "db s" t key token u] t show ?thesis by (auto simp: release_script_effect)
  qed
qed

end


section \<open>On the server in memory\<close>

text \<open>A generator that counts, next to the keyspace in memory.\<close>

record lock_world = mem_world +
  mem_seq :: nat

definition mem_uuid :: "'b lock_world_scheme \<Rightarrow> string \<times> 'b lock_world_scheme" where
  "mem_uuid s = (replicate (Suc (mem_seq s)) (CHR ''u''), s\<lparr>mem_seq := Suc (mem_seq s)\<rparr>)"

interpretation mem_lock: redis_locking mem_redis mem_db mem_uuid
  by unfold_locales (auto simp: mem_uuid_def)



section \<open>Properties\<close>

text \<open>
  C20: Mutual exclusion.  After an acquisition, whatever other holders do, acquire and release
  any locks but release this key by this token, the same key is not acquired again before the
  lock's TTL (in whole milliseconds, at least one) has passed since the acquisition began.
\<close>
theorem lock_mutual_exclusion:
  assumes "redis_locking rc db uuid"
    and "RedisAcquire rc uuid c key ttl s = (Inr rel, s1)"
    and "\<forall>op\<in>set ops. \<not> releases key (fst (uuid s)) op"
    and "RedisAcquire rc uuid c' key ttl' (lock_run rc uuid ops s1) = (Inr rel', s2)"
  shows "0 < ttl \<and> clock s + max 1000000 (ttl div 1000000 * 1000000) \<le> clock s2"
  by (rule redis_locking.mutual_exclusion [OF assms])

definition lock_start :: lock_world where
  "lock_start = \<lparr>clock = 0, trace = [], mem_db = Map.empty, mem_seq = 0\<rparr>"

definition held_world :: lock_world where
  "held_world = snd (RedisAcquire mem_redis mem_uuid background ''k'' (5 * nsSecond) lock_start)"

lemma held_world: "RedisAcquire mem_redis mem_uuid background ''k'' (5 * nsSecond) lock_start =
  (Inr (RedisRelease mem_redis ''k'' ''u''), held_world)"
  by (simp add: held_world_def RedisAcquire_def mem_uuid_def mem_redis_def lock_start_def live_def)

theorem lock_mutual_exclusion_witness:
  "\<forall>rel' s2. RedisAcquire mem_redis mem_uuid background ''k'' nsSecond held_world \<noteq> (Inr rel', s2)"
proof (intro allI notI)
  fix rel' s2
  assume again: "RedisAcquire mem_redis mem_uuid background ''k'' nsSecond held_world = (Inr rel', s2)"
  have "clock held_world = 0"
    by (simp add: held_world_def RedisAcquire_def mem_uuid_def mem_redis_def lock_start_def live_def)
  with again have "clock s2 = 0"
    by (auto simp: RedisAcquire_def mem_uuid_def mem_redis_def split: if_splits)
  moreover have "lock_run mem_redis mem_uuid [] held_world = held_world"
    by (simp add: lock_run_def)
  ultimately show False
    using lock_mutual_exclusion [OF mem_lock.redis_locking_axioms held_world, of "[]" background nsSecond rel' s2] again
    by (simp add: nsSecond_def lock_start_def)
qed

text \<open>
  Release frees only what is held.  Release touches no other key; it leaves the key alone
  while another holder's token is live there; after it has succeeded its own token is live
  nowhere, so a second release, or one after the TTL, is harmless.
\<close>
theorem lock_release_own_only:
  assumes "redis_locking rc db uuid" and "RedisRelease rc key token c s = (e, s')"
  shows "(\<forall>k. k \<noteq> key \<longrightarrow> db s' k = db s k) \<and>
    (\<forall>other. live (db s) (clock s') key = Some other \<longrightarrow> other \<noteq> token \<longrightarrow> db s' key = db s key) \<and>
    (e = None \<longrightarrow> (\<forall>t. clock s' \<le> t \<longrightarrow> live (db s') t key \<noteq> Some token))"
  using redis_locking.release_other_keys [OF assms] redis_locking.release_spares [OF assms]
    redis_locking.release_removes [OF assms(1)] assms(2) by blast

theorem lock_release_own_only_witness:
  "live (mem_db held_world) 0 ''k'' = Some ''u'' \<and>
     mem_db (snd (RedisRelease mem_redis ''k'' ''x'' background held_world)) ''k'' = mem_db held_world ''k''"
proof -
  obtain e s' where r: "RedisRelease mem_redis ''k'' ''x'' background held_world = (e, s')" by fastforce
  have held: "live (mem_db held_world) 0 ''k'' = Some ''u''"
    by (simp add: held_world_def RedisAcquire_def mem_uuid_def mem_redis_def lock_start_def live_def
        put_key_def expiry_def nsSecond_def)
  moreover have "clock s' = 0"
    using r by (auto simp: RedisRelease_def mem_redis_def held_world_def RedisAcquire_def mem_uuid_def
        lock_start_def live_def)
  ultimately show ?thesis
    using lock_release_own_only [OF mem_lock.redis_locking_axioms r] r by auto
qed

end
