(* ===== verification/Reconciler.thy ===== *)
theory Reconciler
  imports Dist_Lock Token_Handler Health
begin

text \<open>
  \<^verbatim>\<open>internal/reconciliation\<close>: the cursor reconciler, which cleans up the expired tokens of
  every tenant under that tenant's distributed lock, and the NoOp reconciler.

  The reconciler's only state is \<open>lastSuccessAt\<close>, an atomic integer: \<open>Run\<close> maps it and the
  world to their values at its end.
\<close>

definition lockKeyReconciliationPrefix :: string where
  "lockKeyReconciliationPrefix = ''locks:reconciliation:''"

record 's cursor_reconciler =
  cr_managers :: "'s token_manager str_map"
  cr_locker :: "'s locker"
  cr_lockTTL :: int

text \<open>The constructor, and the initial \<open>lastSuccessAt\<close>: the time of the construction.\<close>

definition NewCursorReconciler ::
  "'a world_scheme token_manager str_map \<Rightarrow> 'a world_scheme locker \<Rightarrow> int \<Rightarrow> 'a world_scheme \<Rightarrow>
   'a world_scheme cursor_reconciler \<times> int" where
  "NewCursorReconciler managers lk lockTTL s =
     (\<lparr>cr_managers = managers, cr_locker = lk, cr_lockTTL = lockTTL\<rparr>, clock s)"

text \<open>
  One tenant.  The lookup of the manager cannot fail: the tenant comes from a range over the
  same map, which nobody writes.
\<close>

definition processTenant ::
  "'a world_scheme cursor_reconciler \<Rightarrow> ctx \<Rightarrow> string \<Rightarrow> 'a world_scheme \<Rightarrow> 'a world_scheme" where
  "processTenant r c tenantID s =
     (case cr_locker r c (lockKeyReconciliationPrefix @ tenantID) (cr_lockTTL r) s of
        (Inl err, s1) \<Rightarrow>
          log_info c ''reconciler: lock not acquired, skipping tenant''
            [AStr ''tenant_id'', AStr tenantID] s1
      | (Inr lk, s1) \<Rightarrow>
          (case tm_cleanup (the (map_of (cr_managers r) tenantID)) c s1 of
             (Inl err, s2) \<Rightarrow>
               snd (lk c (log_warn c ''reconciler: cleanup expired tokens error''
                 [AStr ''tenant_id'', AStr tenantID, AStr ''error'', AErr err] s2))
           | (Inr _, s2) \<Rightarrow> snd (lk c s2)))"

text \<open>The loop: whether it was left by cancellation, and the world.\<close>

fun run_tenants ::
  "'a world_scheme cursor_reconciler \<Rightarrow> ctx \<Rightarrow> string list \<Rightarrow> 'a world_scheme \<Rightarrow>
   bool \<times> 'a world_scheme" where
  "run_tenants r c [] s = (False, s)"
| "run_tenants r c (t # ts) s =
     (if ctx_err c s \<noteq> None then (True, s) else run_tenants r c ts (processTenant r c t s))"

definition Run ::
  "'a world_scheme cursor_reconciler \<Rightarrow> ctx \<Rightarrow> int \<times> 'a world_scheme \<Rightarrow>
   go_error option \<times> int \<times> 'a world_scheme" where
  "Run r c st =
     (case run_tenants r c (map fst (cr_managers r)) (snd st) of
        (True, s') \<Rightarrow> (None, fst st, s')
      | (False, s') \<Rightarrow> (None, clock s', s'))"

definition LastSuccessAt :: "int \<Rightarrow> 'a world_scheme reconciler_status" where
  "LastSuccessAt lastSuccess s = lastSuccess"

definition NoOpRun :: "ctx \<Rightarrow> 's \<Rightarrow> go_error option \<times> 's" where
  "NoOpRun c s = (None, s)"

definition NoOpLastSuccessAt :: "'a world_scheme reconciler_status" where
  "NoOpLastSuccessAt s = clock s"


section \<open>A tenant under its lock\<close>

text \<open>
  The cleanup of \<open>t\<close> ran: between an acquisition that wrote the tenant's lock key while it
  was free and a release by the same handle.
\<close>

definition cleaned_under_lock ::
  "('a world_scheme \<Rightarrow> db) \<Rightarrow> 'a world_scheme cursor_reconciler \<Rightarrow> ctx \<Rightarrow> string \<Rightarrow>
   'a world_scheme \<Rightarrow> 'a world_scheme \<Rightarrow> bool" where
  "cleaned_under_lock db r c t s s' \<longleftrightarrow>
     (\<exists>lk s1 res s2 u time token.
        cr_locker r c (lockKeyReconciliationPrefix @ t) (cr_lockTTL r) s = (Inr lk, s1) \<and>
        clock s \<le> time \<and> time \<le> clock s1 \<and>
        live (db s) time (lockKeyReconciliationPrefix @ t) = None \<and>
        db s1 = put_key (db s) (lockKeyReconciliationPrefix @ t) token time (cr_lockTTL r) \<and>
        tm_cleanup (the (map_of (cr_managers r) t)) c s1 = (res, s2) \<and>
        only_logged s2 u \<and> s' = snd (lk c u))"

definition skipped_tenant ::
  "'a world_scheme cursor_reconciler \<Rightarrow> ctx \<Rightarrow> string \<Rightarrow> 'a world_scheme \<Rightarrow> 'a world_scheme \<Rightarrow> bool" where
  "skipped_tenant r c t s s' \<longleftrightarrow>
     (\<exists>e s1. cr_locker r c (lockKeyReconciliationPrefix @ t) (cr_lockTTL r) s = (Inl e, s1) \<and>
        only_logged s1 s')"

context exclusive_locker begin

lemma process_under_lock:
  assumes "cr_locker r = acquire"
  shows "cleaned_under_lock db r c t s (processTenant r c t s) \<or>
    skipped_tenant r c t s (processTenant r c t s)"
proof -
  let ?key = "lockKeyReconciliationPrefix @ t"
  obtain a s1 where a: "cr_locker r c ?key (cr_lockTTL r) s = (a, s1)" by fastforce
  show ?thesis
  proof (cases a)
    case (Inl e)
    with a show ?thesis by (simp add: skipped_tenant_def processTenant_def)
  next
    case (Inr lk)
    obtain res s2 where res: "tm_cleanup (the (map_of (cr_managers r) t)) c s1 = (res, s2)" by fastforce
    have "\<exists>u. only_logged s2 u \<and> processTenant r c t s = snd (lk c u)"
      using a Inr res by (cases res) (auto simp: processTenant_def intro: only_logged_refl)
    moreover from a Inr assms have "acquire c ?key (cr_lockTTL r) s = (Inr lk, s1)" by simp
    note acquired [OF this]
    ultimately show ?thesis using a Inr res unfolding cleaned_under_lock_def by blast
  qed
qed

end


section \<open>The pass\<close>

lemma run_tenants_uncancelled:
  assumes "\<And>t s. ctx_err c (processTenant r c t s) = None" and "ctx_err c s = None"
  shows "run_tenants r c ts s = (False, fold (processTenant r c) ts s)"
  using assms(2) by (induction ts arbitrary: s) (auto simp: assms(1))

text \<open>The tenants processed so far are a prefix; all of them exactly if there was no cancellation.\<close>

lemma run_tenants_prefix:
  "run_tenants r c ts s = (cancelled, s') \<Longrightarrow>
   \<exists>done rest. ts = done @ rest \<and> s' = fold (processTenant r c) done s \<and>
     (if cancelled then rest \<noteq> [] \<and> ctx_err c s' \<noteq> None else rest = [])"
proof (induction ts arbitrary: s)
  case Nil
  then show ?case by auto
next
  case (Cons t ts)
  show ?case
  proof (cases "ctx_err c s = None")
    case True
    with Cons.prems have "run_tenants r c ts (processTenant r c t s) = (cancelled, s')" by simp
    from Cons.IH [OF this] obtain done1 rest where "ts = done1 @ rest"
      "s' = fold (processTenant r c) done1 (processTenant r c t s)"
      "if cancelled then rest \<noteq> [] \<and> ctx_err c s' \<noteq> None else rest = []" by blast
    then show ?thesis by (intro exI [of _ "t # done1"] exI [of _ rest]) simp
  next
    case False
    with Cons.prems show ?thesis by (intro exI [of _ "[]"] exI [of _ "t # ts"]) auto
  qed
qed

text \<open>The processing of a list of tenants, one after the other.\<close>

fun processed ::
  "('a world_scheme \<Rightarrow> db) \<Rightarrow> 'a world_scheme cursor_reconciler \<Rightarrow> ctx \<Rightarrow> string list \<Rightarrow>
   'a world_scheme \<Rightarrow> 'a world_scheme \<Rightarrow> bool" where
  "processed db r c [] s s' \<longleftrightarrow> s' = s"
| "processed db r c (t # ts) s s' \<longleftrightarrow>
     (\<exists>s1. (cleaned_under_lock db r c t s s1 \<or> skipped_tenant r c t s s1) \<and> processed db r c ts s1 s')"

context exclusive_locker begin

lemma fold_processed:
  "cr_locker r = acquire \<Longrightarrow> processed db r c ts s (fold (processTenant r c) ts s)"
proof (induction ts arbitrary: s)
  case (Cons t ts)
  then show ?case
    using process_under_lock [of r c t s] by (auto intro!: exI [of _ "processTenant r c t s"])
qed simp

lemma pass:
  assumes locker: "cr_locker r = acquire" and run: "Run r c (t0, s) = (err, t1, s')"
  shows "err = None \<and>
    (\<exists>done rest. map fst (cr_managers r) = done @ rest \<and> processed db r c done s s' \<and>
       (if rest = [] then t1 = clock s' else t1 = t0 \<and> ctx_err c s' \<noteq> None))"
proof -
  obtain cancelled u where u: "run_tenants r c (map fst (cr_managers r)) s = (cancelled, u)" by fastforce
  with run have res: "err = None" "s' = u" "t1 = (if cancelled then t0 else clock u)"
    by (auto simp: Run_def split: bool.splits)
  from run_tenants_prefix [OF u] obtain done1 rest where "map fst (cr_managers r) = done1 @ rest"
    "u = fold (processTenant r c) done1 s"
    "if cancelled then rest \<noteq> [] \<and> ctx_err c u \<noteq> None else rest = []" by blast
  with res fold_processed [OF locker] show ?thesis
    by (intro conjI exI [of _ done1] exI [of _ rest]) (auto split: if_splits)
qed

end


section \<open>Properties\<close>

text \<open>
  C23: A reconciliation pass cleans up under the locks.  Over a lock that gives a key out only
  while it is free, Run returns no error and processes a prefix of the tenants in order: for
  each, either the lock was not acquired and nothing but a log line happened, or the cleanup of
  that tenant ran after the acquisition had written the tenant's free lock key and the same
  lock was released afterwards, whether the cleanup failed or not.  The time of the last
  success becomes the end of the pass if no tenant is left, and stays as it was if the context
  was cancelled before.
\<close>
theorem reconciliation_pass:
  assumes "exclusive_locker (cr_locker r) db" and "Run r c (t0, s) = (err, t1, s')"
  shows "err = None \<and>
    (\<exists>done rest. map fst (cr_managers r) = done @ rest \<and> processed db r c done s s' \<and>
       (if rest = [] then t1 = clock s' else t1 = t0 \<and> ctx_err c s' \<noteq> None))"
  by (rule exclusive_locker.pass [OF assms(1) refl assms(2)])

definition cleaning_manager :: "'s token_manager" where
  "cleaning_manager =
     \<lparr>tm_issue_pair = (\<lambda>c u cl a s. (Inr ('''', ''''), s)),
      tm_issue_refresh = (\<lambda>c u cl a s. (Inr '''', s)),
      tm_refresh_access = (\<lambda>c t cl s. (Inr '''', s)),
      tm_validate = (\<lambda>c t s. (Inl (PlainErr [] ''''), s)),
      tm_introspect = (\<lambda>c t s. (Inl (PlainErr [] ''''), s)),
      tm_revoke = (\<lambda>c t s. (None, s)),
      tm_revoke_audience = (\<lambda>c t s. (None, s)),
      tm_revoke_user = (\<lambda>c t s. (None, s)),
      tm_revoke_user_audience = (\<lambda>c t u s. (None, s)),
      tm_cleanup = (\<lambda>c s. (Inr 1, s))\<rparr>"

definition sample_reconciler :: "lock_world cursor_reconciler" where
  "sample_reconciler =
     \<lparr>cr_managers = [(''t'', cleaning_manager)], cr_locker = RedisAcquire mem_redis mem_uuid,
      cr_lockTTL = 30 * nsSecond\<rparr>"

theorem reconciliation_pass_witness:
  "\<exists>t1 s'. Run sample_reconciler background (0, lock_start) = (None, t1, s') \<and> t1 = clock s'"
proof -
  obtain err t1 s' where run: "Run sample_reconciler background (0, lock_start) = (err, t1, s')"
    by (metis prod_cases3)
  have never: "ctx_err background u = None" for u :: lock_world
    by (simp add: ctx_err_def background_def)
  have "exclusive_locker (cr_locker sample_reconciler) mem_db"
    unfolding sample_reconciler_def by (simp add: mem_lock.redis_lock.exclusive_locker_axioms)
  from reconciliation_pass [OF this run] run never show ?thesis by (auto split: if_splits)
qed

text \<open>
  C24: Reconciliation makes progress, and readiness sees it.  Under a context that is never
  cancelled a pass visits every tenant of the map, in order, whatever fails on the way, and
  ends by recording its own end; from then on the readiness check of the reconciler passes
  until the threshold has elapsed, and fails after that until the next pass (for times and
  thresholds in the range of time.Duration).
\<close>
theorem reconciler_liveness:
  fixes s s' u :: "'a world_scheme"
  assumes "cancel_at c = None" and "cancel_at c' = None" and "Run r c (t0, s) = (err, t1, s')"
    and "clock s' \<le> clock u" and "clock u - clock s' \<le> maxDuration" and "threshold \<le> maxDuration"
  shows "s' = fold (processTenant r c) (map fst (cr_managers r)) s \<and> t1 = clock s' \<and>
    (fst (check (NewReconcilerChecker (LastSuccessAt t1) threshold) c' u) = None \<longleftrightarrow>
       clock u \<le> clock s' + threshold)"
proof -
  have never: "ctx_err c v = None" "ctx_err c' v = None" for v :: "'a world_scheme"
    using assms(1,2) by (simp_all add: ctx_err_def)
  then have "run_tenants r c (map fst (cr_managers r)) s =
      (False, fold (processTenant r c) (map fst (cr_managers r)) s)"
    by (intro run_tenants_uncancelled)
  with assms(3) have run: "s' = fold (processTenant r c) (map fst (cr_managers r)) s" "t1 = clock s'"
    by (auto simp: Run_def)
  have "minDuration \<le> clock u - clock s'" using assms(4) by (simp add: minDuration_def)
  then have "time_since t1 u = clock u - clock s'"
    using assms(5) run(2) by (simp add: time_since_def saturate_id)
  then have "fst (check (NewReconcilerChecker (LastSuccessAt t1) threshold) c' u) = None \<longleftrightarrow>
      clock u \<le> clock s' + threshold"
    using never by (auto simp: reconciler_check LastSuccessAt_def)
  with run show ?thesis by blast
qed

theorem reconciler_liveness_witness:
  "\<exists>t1 s'. Run sample_reconciler background (0, lock_start) = (None, t1, s') \<and>
     fst (check (NewReconcilerChecker (LastSuccessAt t1) nsSecond) background s') = None"
proof -
  obtain err t1 s' where run: "Run sample_reconciler background (0, lock_start) = (err, t1, s')"
    by (metis prod_cases3)
  then have "err = None" by (auto simp: Run_def split: prod.splits bool.splits)
  with reconciler_liveness [OF _ _ run, of background s' nsSecond] run show ?thesis
    by (auto simp: background_def nsSecond_def maxDuration_def)
qed

end
