(* ===== verification/Service_Main.thy ===== *)
theory Service_Main
  imports Jwks_Handler Reconciler Access_Properties
begin

text \<open>
  \<^verbatim>\<open>cmd/token-engine/main.go\<close>: how the service is put together.  The Redis retry at
  start-up, the choice of the authenticator, of the transport and of the caller registry, the
  readiness checks, the tickers and the body of the key rotation loop, and the start-up that
  composes them.

  What main obtains from outside is a parameter: the Redis client, jwtauth, the UUID generator,
  the certificate and YAML loaders, the listener.  A call of \<^verbatim>\<open>os.Exit\<close> is an \<open>exit_reason\<close>.
\<close>


section \<open>Waiting for Redis\<close>

definition RedisStartupRetryInterval :: int where
  "RedisStartupRetryInterval = 2 * nsSecond"

definition RedisStartupRetryMaxWait :: int where
  "RedisStartupRetryMaxWait = 30 * nsSecond"

text \<open>
  The loop of main: \<open>True\<close> if Redis answered, \<open>False\<close> if the program gives up.  It has no bound
  of its own, so not returning is the value \<open>None\<close>.  \<open>sleep\<close> is \<^verbatim>\<open>time.Sleep\<close>.
\<close>

partial_function (option) redis_startup_retry ::
  "'a world_scheme redis_client \<Rightarrow> (int \<Rightarrow> 'a world_scheme \<Rightarrow> 'a world_scheme) \<Rightarrow> ctx \<Rightarrow> int \<Rightarrow>
   'a world_scheme \<Rightarrow> (bool \<times> 'a world_scheme) option" where
  "redis_startup_retry client sleep c retryStart s =
     (let (err, s1) = rc_ping client c s in
      if err = None then Some (True, s1)
      else if RedisStartupRetryMaxWait \<le> time_since retryStart s1 then
        Some (False, log_error c ''redis unreachable after retry window; aborting''
                [AStr ''max_wait'', AStr (Duration_String RedisStartupRetryMaxWait)] s1)
      else redis_startup_retry client sleep c retryStart (sleep RedisStartupRetryInterval s1))"

text \<open>A clock that does not run backwards, and a sleep that lasts as long as it says.\<close>

definition time_flows ::
  "'a world_scheme redis_client \<Rightarrow> (int \<Rightarrow> 'a world_scheme \<Rightarrow> 'a world_scheme) \<Rightarrow> bool" where
  "time_flows client sleep \<longleftrightarrow>
     (\<forall>c s. clock s \<le> clock (snd (rc_ping client c s))) \<and>
     (\<forall>d s. clock s + d \<le> clock (sleep d s))"

lemma time_since_wait:
  "RedisStartupRetryMaxWait \<le> time_since t s \<longleftrightarrow> RedisStartupRetryMaxWait \<le> clock s - t"
  by (auto simp: time_since_def saturate_def RedisStartupRetryMaxWait_def nsSecond_def
      minDuration_def maxDuration_def)

definition retry_outcome ::
  "'a world_scheme redis_client \<Rightarrow> ctx \<Rightarrow> int \<Rightarrow> bool \<Rightarrow> 'a world_scheme \<Rightarrow> bool" where
  "retry_outcome client c retryStart ok s' \<longleftrightarrow>
     (if ok then \<exists>u. rc_ping client c u = (None, s')
      else \<exists>u e s1. rc_ping client c u = (Some e, s1) \<and> only_logged s1 s' \<and>
             RedisStartupRetryMaxWait \<le> clock s1 - retryStart)"

text \<open>The number of rounds that can still follow shrinks by one with every sleep.\<close>

lemma retry_step:
  assumes "rc_ping client c s = (err, s1)"
  shows "redis_startup_retry client sleep c retryStart s =
     (if err = None then Some (True, s1)
      else if RedisStartupRetryMaxWait \<le> time_since retryStart s1 then
        Some (False, log_error c ''redis unreachable after retry window; aborting''
                [AStr ''max_wait'', AStr (Duration_String RedisStartupRetryMaxWait)] s1)
      else redis_startup_retry client sleep c retryStart (sleep RedisStartupRetryInterval s1))"
  by (subst redis_startup_retry.simps) (simp add: assms)

lemma retry_ends:
  assumes p: "rc_ping client c s = (err, s1)"
    and "err = None \<or> RedisStartupRetryMaxWait \<le> clock s1 - retryStart"
  shows "\<exists>ok s'. redis_startup_retry client sleep c retryStart s = Some (ok, s') \<and>
      retry_outcome client c retryStart ok s'"
proof (cases err)
  case None
  have "retry_outcome client c retryStart True s1"
    using p None unfolding retry_outcome_def by auto
  with None show ?thesis unfolding retry_step [OF p] by auto
next
  case (Some e)
  let ?s' = "log_error c ''redis unreachable after retry window; aborting''
    [AStr ''max_wait'', AStr (Duration_String RedisStartupRetryMaxWait)] s1"
  have wait: "RedisStartupRetryMaxWait \<le> clock s1 - retryStart" using assms(2) Some by simp
  then have "retry_outcome client c retryStart False ?s'"
    unfolding retry_outcome_def using p Some
    by (simp only: if_False simp_thms) (intro exI conjI, assumption, rule only_logged_emit)
  with Some wait show ?thesis unfolding retry_step [OF p] time_since_wait by auto
qed

lemma retry_returns:
  assumes "time_flows client sleep"
  shows "30 * nsSecond - (clock s - retryStart) \<le> int n * (2 * nsSecond) \<Longrightarrow>
    \<exists>ok s'. redis_startup_retry client sleep c retryStart s = Some (ok, s') \<and>
      retry_outcome client c retryStart ok s'"
proof (induction n arbitrary: s)
  case (0 s)
  obtain err s1 where p: "rc_ping client c s = (err, s1)" by fastforce
  have "clock s \<le> clock s1" using assms p unfolding time_flows_def by (metis snd_conv)
  with 0 have "RedisStartupRetryMaxWait \<le> clock s1 - retryStart"
    by (simp add: RedisStartupRetryMaxWait_def)
  with retry_ends [OF p] show ?case by blast
next
  case (Suc n s)
  obtain err s1 where p: "rc_ping client c s = (err, s1)" by fastforce
  let ?s2 = "sleep RedisStartupRetryInterval s1"
  have "clock s \<le> clock s1" using assms p unfolding time_flows_def by (metis snd_conv)
  moreover have "clock s1 + 2 * nsSecond \<le> clock ?s2"
    using assms unfolding time_flows_def RedisStartupRetryInterval_def by blast
  ultimately have "30 * nsSecond - (clock ?s2 - retryStart) \<le> int n * (2 * nsSecond)"
    using Suc.prems by (simp add: algebra_simps)
  note ih = Suc.IH [OF this]
  show ?case
  proof (cases "err = None \<or> RedisStartupRetryMaxWait \<le> clock s1 - retryStart")
    case True
    with retry_ends [OF p] show ?thesis by blast
  next
    case False
    with ih show ?thesis unfolding retry_step [OF p] time_since_wait by auto
  qed
qed


text \<open>A loop that says Redis is there has had an answer, and returns the world that answer left.\<close>

lemma retry_answered:
  assumes "redis_startup_retry client sleep c t s = Some (True, s')"
  shows "\<exists>u. rc_ping client c u = (None, s')"
proof -
  have "fst r \<longrightarrow> (\<exists>u. rc_ping client c u = (None, snd r))"
    if "redis_startup_retry client sleep c t s = Some r" for r
    by (rule redis_startup_retry.raw_induct
        [where P = "\<lambda>client sleep c t s r. fst r \<longrightarrow> (\<exists>u. rc_ping client c u = (None, snd r))", OF _ that])
      (auto simp: Let_def split: prod.splits if_splits)
  with assms show ?thesis by force
qed


section \<open>Callers\<close>

text \<open>The authenticator follows the TLS mode.\<close>

definition select_authenticator :: "config \<Rightarrow> authenticate" where
  "select_authenticator cfg =
     (if TLSMode cfg = ''mtls'' then MTLSAuthenticate else StaticKeyAuthenticate (StaticCallerKeys cfg))"

datatype caller_error = BadVersion int | EmptyIdentity | NoTenants string | DuplicateIdentity string

text \<open>The checks of main on the decoded caller registry; \<open>seen\<close> is the set of identities so far.\<close>

fun check_callers :: "caller_entry list \<Rightarrow> bool str_map \<Rightarrow> caller_error option" where
  "check_callers [] seen = None"
| "check_callers (entry # entries) seen =
     (if Identity entry = '''' then Some EmptyIdentity
      else if PermittedTenants entry = [] then Some (NoTenants (Identity entry))
      else if map_of seen (Identity entry) = Some True then Some (DuplicateIdentity (Identity entry))
      else check_callers entries (map_put (Identity entry) True seen))"

definition validate_callers :: "caller_registry_config \<Rightarrow> caller_error option" where
  "validate_callers cfg =
     (if Version cfg \<noteq> 1 then Some (BadVersion (Version cfg)) else check_callers (Callers cfg) [])"

datatype exit_reason =
    ExitConfig config_error
  | ExitOtlp go_error
  | ExitRedis
  | ExitTenant go_error
  | ExitTLS
  | ExitCallerFile go_error
  | ExitCallers caller_error
  | ExitListen go_error

text \<open>The em dash in UTF-8\<close>

definition em_dash :: bytes where
  "em_dash = [char_of (226::nat), char_of (128::nat), char_of (148::nat)]"

text \<open>The caller registry of the service; \<open>load\<close> reads and decodes the YAML file.\<close>

definition select_caller_registry ::
  "(string \<Rightarrow> go_error + caller_registry_config) \<Rightarrow> config \<Rightarrow> ctx \<Rightarrow> 'a world_scheme \<Rightarrow>
   (exit_reason + is_permitted) \<times> 'a world_scheme" where
  "select_caller_registry load cfg c s =
     (if CallerRegistryPath cfg \<noteq> '''' then
        (case load (CallerRegistryPath cfg) of
           Inl err \<Rightarrow>
             (Inl (ExitCallerFile err),
              log_error c ''failed to load caller registry'' [AStr ''error'', AErr err] s)
         | Inr callerCfg \<Rightarrow>
             (case validate_callers callerCfg of
                Some e \<Rightarrow> (Inl (ExitCallers e), s)
              | None \<Rightarrow> (Inr (StaticIsPermitted (NewStaticCallerRegistry callerCfg)), s)))
      else
        (Inr NoOpIsPermitted,
         log_warn c (''no caller registry path configured; all callers are permitted for all tenants ''
              @ em_dash @ '' not safe for production'') [] s))"

text \<open>What the checks of main guarantee of an accepted caller registry.\<close>

definition callers_ok :: "caller_registry_config \<Rightarrow> bool" where
  "callers_ok cfg \<longleftrightarrow>
     Version cfg = 1 \<and> distinct (map Identity (Callers cfg)) \<and>
     (\<forall>e\<in>set (Callers cfg). Identity e \<noteq> '''' \<and> PermittedTenants e \<noteq> [])"

lemma check_callers_ok:
  "check_callers es seen = None \<longleftrightarrow>
   distinct (map Identity es) \<and>
   (\<forall>e\<in>set es. Identity e \<noteq> '''' \<and> PermittedTenants e \<noteq> [] \<and> map_of seen (Identity e) \<noteq> Some True)"
proof (induction es seen rule: check_callers.induct)
  case (1 seen)
  show ?case by simp
next
  case (2 e es seen)
  have "map_of (map_put (Identity e) True seen) i = Some True \<longleftrightarrow>
      i = Identity e \<or> map_of seen i = Some True" for i
    by simp
  with 2 show ?case by (auto simp: image_iff simp del: map_of_put)
qed

lemma validate_callers_ok: "validate_callers cfg = None \<longleftrightarrow> callers_ok cfg"
  by (auto simp: validate_callers_def callers_ok_def check_callers_ok)


section \<open>Transport\<close>

text \<open>
  The TLS configuration: certificate and pool are what the loaders return; the client
  certificate is always required and verified, and the version at least TLS 1.3.
\<close>

record ('cert, 'pool) tls_files =
  load_key_pair :: "string \<Rightarrow> string \<Rightarrow> go_error + 'cert"
  read_file :: "string \<Rightarrow> go_error + bytes"
  parse_pool :: "bytes \<Rightarrow> 'pool option"

datatype ('cert, 'pool) transport = Plaintext | MutualTLS 'cert 'pool

definition select_transport ::
  "('cert, 'pool) tls_files \<Rightarrow> config \<Rightarrow> exit_reason + ('cert, 'pool) transport" where
  "select_transport ext cfg =
     (if TLSMode cfg = ''mtls'' then
        (case load_key_pair ext (TLSCertFile cfg) (TLSKeyFile cfg) of
           Inl _ \<Rightarrow> Inl ExitTLS
         | Inr cert \<Rightarrow>
             (case read_file ext (TLSCAFile cfg) of
                Inl _ \<Rightarrow> Inl ExitTLS
              | Inr caCert \<Rightarrow>
                  (case parse_pool ext caCert of
                     None \<Rightarrow> Inl ExitTLS
                   | Some caPool \<Rightarrow> Inr (MutualTLS cert caPool))))
      else Inr Plaintext)"


section \<open>Tickers\<close>

text \<open>\<^verbatim>\<open>time.NewTicker\<close> panics unless its period is positive: \<open>None\<close>.\<close>

definition new_ticker :: "int \<Rightarrow> int option" where
  "new_ticker d = (if d \<le> 0 then None else Some d)"

text \<open>
  The tickers of the background goroutines: one per tenant for the key rotation, one for the
  reconciliation.  A panic in any of them ends the program.
\<close>

fun rotation_tickers :: "config \<Rightarrow> obj str_map \<Rightarrow> int list option" where
  "rotation_tickers cfg [] = Some []"
| "rotation_tickers cfg (x # kms) =
     (case new_ticker (RotationWindowGuard cfg) of
        None \<Rightarrow> None
      | Some p \<Rightarrow> map_option (\<lambda>ps. p # ps) (rotation_tickers cfg kms))"

definition background_tickers :: "config \<Rightarrow> obj str_map \<Rightarrow> (int list \<times> int) option" where
  "background_tickers cfg kms =
     (case rotation_tickers cfg kms of
        None \<Rightarrow> None
      | Some ps \<Rightarrow> map_option (\<lambda>p. (ps, p)) (new_ticker (ReconciliationInterval cfg)))"

lemma rotation_tickers_panic:
  "rotation_tickers cfg kms = None \<longleftrightarrow> kms \<noteq> [] \<and> RotationWindowGuard cfg \<le> 0"
  by (induction kms) (auto simp: new_ticker_def split: option.split)

lemma background_panics:
  "background_tickers cfg kms = None \<longleftrightarrow>
   kms \<noteq> [] \<and> RotationWindowGuard cfg \<le> 0 \<or> ReconciliationInterval cfg \<le> 0"
  by (auto simp: background_tickers_def rotation_tickers_panic new_ticker_def split: option.split)
    (metis option.distinct(1) rotation_tickers_panic)+


section \<open>Key rotation\<close>

definition lockKeyRotationPrefix :: string where
  "lockKeyRotationPrefix = ''locks:key_rotation:''"

definition rotationLastGeneratedPrefix :: string where
  "rotationLastGeneratedPrefix = ''key_rotation:last_generated:''"

text \<open>
  What a rotation writes, and reads back: the time formatted as RFC 3339 with nanoseconds.  The
  pair of \<^verbatim>\<open>Time.Format\<close> and \<^verbatim>\<open>time.Parse\<close> depends on the zone of the host and is a parameter.
\<close>

record time_text =
  time_format :: "int \<Rightarrow> string"
  time_parse :: "string \<Rightarrow> int option"

text \<open>
  One tick of the rotation loop of a tenant, in its two halves: the check of the last generation
  time (an unreadable or missing time is none), and the rotation under the lock.
\<close>

definition rotation_recent ::
  "'a world_scheme redis_client \<Rightarrow> time_text \<Rightarrow> int \<Rightarrow> string \<Rightarrow> ctx \<Rightarrow> 'a world_scheme \<Rightarrow>
   bool \<times> 'a world_scheme" where
  "rotation_recent client tt guard tenantID c s =
     (let (got, s1) = rc_get client c (rotationLastGeneratedPrefix @ tenantID) s;
          val = (case got of Inr v \<Rightarrow> v | Inl _ \<Rightarrow> '''')
      in (val \<noteq> '''' \<and>
            (case time_parse tt val of Some t \<Rightarrow> time_since t s1 < guard | None \<Rightarrow> False), s1))"

definition rotate_under_lock ::
  "'a world_scheme redis_client \<Rightarrow> 'a world_scheme locker \<Rightarrow> time_text \<Rightarrow>
   (ctx \<Rightarrow> 'a world_scheme \<Rightarrow> go_error option \<times> 'a world_scheme) \<Rightarrow> int \<Rightarrow> string \<Rightarrow> ctx \<Rightarrow>
   'a world_scheme \<Rightarrow> 'a world_scheme" where
  "rotate_under_lock client acquire tt rotateKeys lockTTL tenantID c s =
     (case acquire c (lockKeyRotationPrefix @ tenantID) lockTTL s of
        (Inl err, s1) \<Rightarrow>
          log_info c ''key rotation skipped: lock not acquired'' [AStr ''tenant_id'', AStr tenantID] s1
      | (Inr lk, s1) \<Rightarrow>
          (case rotateKeys c s1 of
             (Some err, s2) \<Rightarrow>
               snd (lk c (log_warn c ''key rotation error''
                 [AStr ''tenant_id'', AStr tenantID, AStr ''error'', AErr err] s2))
           | (None, s2) \<Rightarrow>
               snd (lk c (snd (rc_set client c (rotationLastGeneratedPrefix @ tenantID)
                 (time_format tt (clock s2)) 0 s2)))))"

definition rotation_tick ::
  "'a world_scheme redis_client \<Rightarrow> 'a world_scheme locker \<Rightarrow> time_text \<Rightarrow>
   (ctx \<Rightarrow> 'a world_scheme \<Rightarrow> go_error option \<times> 'a world_scheme) \<Rightarrow> int \<Rightarrow> int \<Rightarrow> string \<Rightarrow> ctx \<Rightarrow>
   'a world_scheme \<Rightarrow> 'a world_scheme" where
  "rotation_tick client acquire tt rotateKeys guard lockTTL tenantID c s =
     (case rotation_recent client tt guard tenantID c s of
        (True, s1) \<Rightarrow>
          log_debug c ''key rotation skipped: within guard window'' [AStr ''tenant_id'', AStr tenantID] s1
      | (False, s1) \<Rightarrow> rotate_under_lock client acquire tt rotateKeys lockTTL tenantID c s1)"

text \<open>A tick that finds a recent generation time does nothing but log.\<close>

lemma rotation_skipped:
  assumes "rc_get client c (rotationLastGeneratedPrefix @ tenantID) s = (Inr v, s1)"
    and "v \<noteq> ''''" and "time_parse tt v = Some t" and "time_since t s1 < guard"
  shows "rotation_tick client acquire tt rotateKeys guard lockTTL tenantID c s =
    log_debug c ''key rotation skipped: within guard window'' [AStr ''tenant_id'', AStr tenantID] s1"
  using assms by (simp add: rotation_tick_def rotation_recent_def)

lemma rotation_keys_differ [simp]:
  "rotationLastGeneratedPrefix @ t \<noteq> lockKeyRotationPrefix @ u"
  by (simp add: rotationLastGeneratedPrefix_def lockKeyRotationPrefix_def)

text \<open>What a rotation that went through leaves under the tenant's key.\<close>

lemma rotation_recorded:
  assumes "redis_server client db" and "exclusive_locker acquire db"
    and "acquire c (lockKeyRotationPrefix @ t) ttl s = (Inr lk, s2)"
    and "rc_set client c (rotationLastGeneratedPrefix @ t) v 0 s3 = (None, s4)"
  shows "db (snd (lk c s4)) (rotationLastGeneratedPrefix @ t) = Some (v, None)"
proof -
  obtain e s5 where rel: "lk c s4 = (e, s5)" by fastforce
  have "db s4 (rotationLastGeneratedPrefix @ t) = Some (v, None)"
    using redis_server.set_ok [OF assms(1,4)] by (auto simp: set_key_put KeepTTL_def put_key_def expiry_def)
  moreover have "db s5 (rotationLastGeneratedPrefix @ t) = db s4 (rotationLastGeneratedPrefix @ t)"
    using locker.release_frame [OF exclusive_locker.axioms(1) [OF assms(2)] assms(3) rel]
    by (metis rotation_keys_differ)
  ultimately show ?thesis using rel by simp
qed


section \<open>Start-up\<close>

record ('s, 'cert, 'pool, 'k) deps =
  dp_redis :: "'s redis_client"
  dp_uuid :: "'s \<Rightarrow> string \<times> 's"
  dp_jwtauth :: "'s jwtauth"
  dp_manager :: "obj \<Rightarrow> 's token_manager"
  dp_key_manager :: "obj \<Rightarrow> ('s, 'k) key_manager"
  dp_codec :: codec
  dp_tls :: "('cert, 'pool) tls_files"
  dp_load_callers :: "string \<Rightarrow> go_error + caller_registry_config"
  dp_otlp :: "string \<Rightarrow> 's \<Rightarrow> go_error option \<times> 's"
  dp_listen :: "string \<Rightarrow> 's \<Rightarrow> go_error option \<times> 's"
  dp_sleep :: "int \<Rightarrow> 's \<Rightarrow> 's"

text \<open>
  The first half of main: the configuration, the trace exporter, Redis, the tenant, and the
  backfill.  The configuration and the registry are what the second half starts from.
\<close>

definition start_backend ::
  "('a world_scheme, 'cert, 'pool, 'k) deps \<Rightarrow> env \<Rightarrow> ctx \<Rightarrow> 'a world_scheme \<Rightarrow>
   ((exit_reason + config \<times> tenants) \<times> 'a world_scheme) option" where
  "start_backend dp env c s =
     (case fst (Load env) of
        Inl e \<Rightarrow> Some (Inl (ExitConfig e), s)
      | Inr cfg \<Rightarrow>
     (case (if OTLPEndpoint cfg \<noteq> '''' then dp_otlp dp (OTLPEndpoint cfg) s else (None, s)) of
        (Some e, s1) \<Rightarrow> Some (Inl (ExitOtlp e), s1)
      | (None, s1) \<Rightarrow>
     (case redis_startup_retry (dp_redis dp) (dp_sleep dp) c (clock s1) s1 of
        None \<Rightarrow> None
      | Some (False, s2) \<Rightarrow> Some (Inl ExitRedis, s2)
      | Some (True, s2) \<Rightarrow>
     (case AddTenant (dp_jwtauth dp) c (Issuer cfg)
             \<lparr>cfg_Issuer = Issuer cfg, cfg_Audience = Audience cfg\<rparr> (NewMultiTenantRegistry, s2) of
        (Some e, (ts, s3)) \<Rightarrow>
          Some (Inl (ExitTenant e), log_error c ''failed to add tenant'' [AStr ''error'', AErr e] s3)
      | (None, (ts, s3)) \<Rightarrow>
          Some (Inr (cfg, ts),
            if BackfillExpiryIndex cfg
            then RunExpiryIndexBackfill (dp_jwtauth dp) c (AllBackfillers ts) s3 else s3)))))"

record ('s, 'cert, 'pool) service =
  sv_auth :: authenticate
  sv_transport :: "('cert, 'pool) transport"
  sv_permitted :: is_permitted
  sv_chain :: "'s interceptor list"
  sv_reflection :: bool
  sv_reconciler :: "'s cursor_reconciler"
  sv_last_success :: int
  sv_tickers :: "(int list \<times> int) option"
  sv_checkers :: "int \<Rightarrow> 's checker list"

text \<open>A product of an \<^verbatim>\<open>int64\<close> wraps.\<close>

definition wrap64 :: "int \<Rightarrow> int" where
  "wrap64 n = (n + 2 ^ 63) mod 2 ^ 64 - 2 ^ 63"

text \<open>The readiness checks, over the present value of the reconciler's last success.\<close>

definition ready_checkers ::
  "'a world_scheme redis_client \<Rightarrow> 'a world_scheme audit_store \<Rightarrow> int \<Rightarrow>
   ('a world_scheme, 'k) key_manager list \<Rightarrow> int \<Rightarrow> 'a world_scheme checker list" where
  "ready_checkers client audit interval kms lastSuccess =
     [NewRedisChecker client, NewAuditChecker audit,
      NewReconcilerChecker (LastSuccessAt lastSuccess) (wrap64 (2 * interval))]
     @ map NewKeyAvailabilityChecker kms"

text \<open>The second half, up to the bound listener.\<close>

definition start_frontend ::
  "('a world_scheme, 'cert, 'pool, 'k) deps \<Rightarrow> config \<Rightarrow> tenants \<Rightarrow> ctx \<Rightarrow> 'a world_scheme \<Rightarrow>
   (exit_reason + ('a world_scheme, 'cert, 'pool) service) \<times> 'a world_scheme" where
  "start_frontend dp cfg ts c s =
     (case select_transport (dp_tls dp) cfg of
        Inl e \<Rightarrow> (Inl e, s)
      | Inr tr \<Rightarrow>
     (case select_caller_registry (dp_load_callers dp) cfg c s of
        (Inl e, s1) \<Rightarrow> (Inl e, s1)
      | (Inr permitted, s1) \<Rightarrow>
          let auth = select_authenticator cfg;
              st = NewRedisIdempotencyStore (dp_redis dp) (IdempotencyTTL cfg) (LockTTL cfg);
              (rec, last0) = NewCursorReconciler
                (map (\<lambda>(t, m). (t, dp_manager dp m)) (GetAllTenants ts))
                (RedisAcquire (dp_redis dp) (dp_uuid dp)) (LockTTL cfg) s1;
              sv = \<lparr>sv_auth = auth, sv_transport = tr, sv_permitted = permitted,
                    sv_chain = service_chain (dp_uuid dp) auth permitted (dp_codec dp) st,
                    sv_reflection = (TLSMode cfg = ''disabled''),
                    sv_reconciler = rec, sv_last_success = last0,
                    sv_tickers = background_tickers cfg (AllKeyManagers ts),
                    sv_checkers = ready_checkers (dp_redis dp) NewSlogAuditStore
                      (ReconciliationInterval cfg)
                      (map (\<lambda>(t, k). dp_key_manager dp k) (AllKeyManagers ts))\<rparr>
          in case dp_listen dp (GRPCAddr cfg) s1 of
               (Some e, s2) \<Rightarrow> (Inl (ExitListen e), s2)
             | (None, s2) \<Rightarrow> (Inr sv, s2)))"

definition start_service ::
  "('a world_scheme, 'cert, 'pool, 'k) deps \<Rightarrow> env \<Rightarrow> ctx \<Rightarrow> 'a world_scheme \<Rightarrow>
   ((exit_reason + ('a world_scheme, 'cert, 'pool) service) \<times> 'a world_scheme) option" where
  "start_service dp env c s =
     (case start_backend dp env c s of
        None \<Rightarrow> None
      | Some (Inl e, s1) \<Rightarrow> Some (Inl e, s1)
      | Some (Inr (cfg, ts), s1) \<Rightarrow> Some (start_frontend dp cfg ts c s1))"


lemma add_first_tenant:
  assumes "AddTenant jw c t cfg (NewMultiTenantRegistry, s) = (None, (ts, s'))"
  shows "\<exists>entry. ts = [(t, entry)] \<and> \<not> draining entry \<and> t \<noteq> ''''"
proof -
  obtain b s1 where b: "build_stack jw c t cfg s = (b, s1)" by fastforce
  show ?thesis
    using assms b build_stack_active [of jw c t cfg s]
    by (auto simp: AddTenant_def NewMultiTenantRegistry_def map_has_def Let_def
        split: if_splits sum.splits)
qed

lemma start_backend_Inr:
  assumes "start_backend dp env c s = Some (Inr (cfg, ts), s')"
  shows "fst (Load env) = Inr cfg \<and> (\<exists>entry. ts = [(Issuer cfg, entry)] \<and> \<not> draining entry) \<and>
    (\<exists>u v s3. rc_ping (dp_redis dp) c u = (None, v) \<and>
       AddTenant (dp_jwtauth dp) c (Issuer cfg) \<lparr>cfg_Issuer = Issuer cfg, cfg_Audience = Audience cfg\<rparr>
         (NewMultiTenantRegistry, v) = (None, (ts, s3)))"
proof -
  from assms obtain t u v s3 where load: "fst (Load env) = Inr cfg"
    and retry: "redis_startup_retry (dp_redis dp) (dp_sleep dp) c t u = Some (True, v)"
    and add: "AddTenant (dp_jwtauth dp) c (Issuer cfg) \<lparr>cfg_Issuer = Issuer cfg, cfg_Audience = Audience cfg\<rparr>
      (NewMultiTenantRegistry, v) = (None, (ts, s3))"
    by (auto simp: start_backend_def split: sum.splits option.splits prod.splits bool.splits)
  from retry_answered [OF retry] load add add_first_tenant [OF add] show ?thesis by blast
qed

lemma select_transport_mtls:
  "select_transport ext cfg = Inr tr \<Longrightarrow> TLSMode cfg = ''mtls'' \<longleftrightarrow> (\<exists>cert pool. tr = MutualTLS cert pool)"
  by (auto simp: select_transport_def split: if_splits sum.splits option.splits)

lemma select_caller_registry_Inr:
  assumes "select_caller_registry load cfg c s = (Inr permitted, s1)"
  shows "if CallerRegistryPath cfg = '''' then permitted = NoOpIsPermitted
    else \<exists>callers. load (CallerRegistryPath cfg) = Inr callers \<and> callers_ok callers \<and>
           permitted = StaticIsPermitted (NewStaticCallerRegistry callers)"
  using assms
  by (auto simp: select_caller_registry_def validate_callers_ok split: if_splits sum.splits option.splits)

lemma start_frontend_Inr:
  assumes "start_frontend dp cfg ts c s = (Inr sv, s')"
  shows "select_transport (dp_tls dp) cfg = Inr (sv_transport sv) \<and>
    (\<exists>s1. select_caller_registry (dp_load_callers dp) cfg c s = (Inr (sv_permitted sv), s1)) \<and>
    sv_auth sv = select_authenticator cfg \<and>
    sv_chain sv = service_chain (dp_uuid dp) (sv_auth sv) (sv_permitted sv) (dp_codec dp)
      (NewRedisIdempotencyStore (dp_redis dp) (IdempotencyTTL cfg) (LockTTL cfg)) \<and>
    (sv_reflection sv \<longleftrightarrow> TLSMode cfg = ''disabled'') \<and>
    sv_tickers sv = background_tickers cfg (AllKeyManagers ts)"
  using assms
  by (auto simp: start_frontend_def Let_def split: sum.splits prod.splits option.splits)

lemma start_service_Inr:
  assumes "start_service dp env c s = Some (Inr sv, s')"
  shows "\<exists>cfg ts s1. start_backend dp env c s = Some (Inr (cfg, ts), s1) \<and>
    start_frontend dp cfg ts c s1 = (Inr sv, s')"
  using assms by (auto simp: start_service_def split: option.splits prod.splits sum.splits)

lemma Load_fst: "fst (Load env) = Inr cfg \<Longrightarrow> \<exists>ws. Load env = (Inr cfg, ws)"
  by (cases "Load env") simp


section \<open>Properties\<close>

text \<open>
  C26: Waiting for Redis ends.  With a clock that does not run backwards and a sleep that lasts
  as long as it is asked to, the start-up loop, which has no bound of its own, returns: either
  with a ping that was answered, or, after at least thirty seconds since it began, with a last
  failed ping followed by nothing but a log line.
\<close>
theorem redis_retry_terminates:
  assumes "time_flows client sleep"
  shows "\<exists>ok s'. redis_startup_retry client sleep c (clock s) s = Some (ok, s') \<and>
    retry_outcome client c (clock s) ok s'"
proof -
  have "30 * nsSecond - (clock s - clock s) \<le> int 15 * (2 * nsSecond)" by (simp add: nsSecond_def)
  then show ?thesis by (rule retry_returns [OF assms])
qed

definition later :: "int \<Rightarrow> 'a world_scheme \<Rightarrow> 'a world_scheme" where
  "later d s = s\<lparr>clock := clock s + d\<rparr>"

definition down_redis :: "'b mem_world_scheme redis_client" where
  "down_redis = mem_redis\<lparr>rc_ping := \<lambda>c s. (Some (PlainErr [] ''connection refused''), s)\<rparr>"

theorem redis_retry_terminates_witness:
  "\<exists>s'. redis_startup_retry down_redis later background (clock lock_start) lock_start = Some (False, s')"
proof -
  have "time_flows down_redis (later :: int \<Rightarrow> lock_world \<Rightarrow> lock_world)"
    by (simp add: time_flows_def down_redis_def later_def)
  from redis_retry_terminates [OF this, of background lock_start]
  obtain ok s' where "redis_startup_retry down_redis later background (clock lock_start) lock_start = Some (ok, s')"
    "retry_outcome down_redis background (clock lock_start) ok s'" by blast
  then show ?thesis by (cases ok) (auto simp: retry_outcome_def down_redis_def)
qed

text \<open>
  C10: What a started service enforces.  If start-up succeeds, the environment is one that the
  configuration accepts, Redis has answered a ping, the configured tenant was added to an empty
  registry in the world which that ping left, and the chain runs the authenticator and the
  caller registry chosen here over the Redis idempotency store with the configured TTLs.  Under
  mTLS the transport requires verified client certificates, callers are known by their
  certificates, the caller registry is the file's, checked to be version 1 with distinct
  non-empty identities that each have a tenant, never the registry that permits everything, and
  reflection is off.  With TLS disabled callers are known by a non-empty set of static keys,
  reflection is on, and everything is permitted only if no caller registry is configured.
\<close>
theorem startup_sound:
  assumes "start_service dp env c s = Some (Inr sv, s')"
  shows "env_ok env \<and>
    (\<exists>cfg ws. Load env = (Inr cfg, ws) \<and>
      (\<exists>u v entry s3. rc_ping (dp_redis dp) c u = (None, v) \<and>
         AddTenant (dp_jwtauth dp) c (Issuer cfg) \<lparr>cfg_Issuer = Issuer cfg, cfg_Audience = Audience cfg\<rparr>
           (NewMultiTenantRegistry, v) = (None, ([(Issuer cfg, entry)], s3)) \<and> \<not> draining entry) \<and>
      sv_chain sv = service_chain (dp_uuid dp) (sv_auth sv) (sv_permitted sv) (dp_codec dp)
        (NewRedisIdempotencyStore (dp_redis dp) (IdempotencyTTL cfg) (LockTTL cfg)) \<and>
      (if TLSMode cfg = ''mtls''
       then (\<exists>cert pool. sv_transport sv = MutualTLS cert pool) \<and> sv_auth sv = MTLSAuthenticate \<and>
         \<not> sv_reflection sv \<and> CallerRegistryPath cfg \<noteq> ''''
       else sv_transport sv = Plaintext \<and> sv_auth sv = StaticKeyAuthenticate (StaticCallerKeys cfg) \<and>
         StaticCallerKeys cfg \<noteq> [] \<and> sv_reflection sv) \<and>
      (if CallerRegistryPath cfg = '''' then sv_permitted sv = NoOpIsPermitted
       else \<exists>callers. dp_load_callers dp (CallerRegistryPath cfg) = Inr callers \<and> callers_ok callers \<and>
              sv_permitted sv = StaticIsPermitted (NewStaticCallerRegistry callers)))"
proof -
  from start_service_Inr [OF assms] obtain cfg ts s1 where
    backend: "start_backend dp env c s = Some (Inr (cfg, ts), s1)"
    and front: "start_frontend dp cfg ts c s1 = (Inr sv, s')" by blast
  from start_backend_Inr [OF backend] Load_fst obtain ws where load: "Load env = (Inr cfg, ws)" by blast
  from start_backend_Inr [OF backend] have ready: "\<exists>u v entry s3. rc_ping (dp_redis dp) c u = (None, v) \<and>
      AddTenant (dp_jwtauth dp) c (Issuer cfg) \<lparr>cfg_Issuer = Issuer cfg, cfg_Audience = Audience cfg\<rparr>
        (NewMultiTenantRegistry, v) = (None, ([(Issuer cfg, entry)], s3)) \<and> \<not> draining entry" by blast
  note fr = start_frontend_Inr [OF front]
  note valid = Load_Inr(1) [OF load, unfolded validate_env_Inr]
  have ok: "env_ok env"
    using validate_env_ok [of env] Load_Inr(1) [OF load] by blast
  have path: "TLSMode cfg = ''mtls'' \<Longrightarrow> CallerRegistryPath cfg \<noteq> ''''"
    using valid Load_Inr(6) [OF load] by (simp add: check_tls_files_iff)
  have mode: "TLSMode cfg = ''mtls'' \<longleftrightarrow> TLSMode cfg \<noteq> ''disabled''"
    using valid by auto
  have transport: "if TLSMode cfg = ''mtls''
    then (\<exists>cert pool. sv_transport sv = MutualTLS cert pool) \<and> sv_auth sv = MTLSAuthenticate \<and>
      \<not> sv_reflection sv \<and> CallerRegistryPath cfg \<noteq> ''''
    else sv_transport sv = Plaintext \<and> sv_auth sv = StaticKeyAuthenticate (StaticCallerKeys cfg) \<and>
      StaticCallerKeys cfg \<noteq> [] \<and> sv_reflection sv"
  proof (cases "TLSMode cfg = ''mtls''")
    case True
    with fr select_transport_mtls [of "dp_tls dp" cfg "sv_transport sv"] path mode
    show ?thesis by (simp add: select_authenticator_def)
  next
    case False
    with mode have "TLSMode cfg = ''disabled''" by blast
    with False fr valid show ?thesis by (simp add: select_authenticator_def select_transport_def)
  qed
  from fr obtain s2 where "select_caller_registry (dp_load_callers dp) cfg c s1 = (Inr (sv_permitted sv), s2)"
    by blast
  note permitted = select_caller_registry_Inr [OF this]
  from fr have chain: "sv_chain sv = service_chain (dp_uuid dp) (sv_auth sv) (sv_permitted sv) (dp_codec dp)
      (NewRedisIdempotencyStore (dp_redis dp) (IdempotencyTTL cfg) (LockTTL cfg))" by blast
  show ?thesis
    by (rule conjI [OF ok], rule exI [of _ cfg], rule exI [of _ ws])
      (rule conjI [OF load conjI [OF ready conjI [OF chain conjI [OF transport permitted]]]])
qed

definition sample_deps :: "(lock_world, unit, unit, unit) deps" where
  "sample_deps =
     \<lparr>dp_redis = mem_redis, dp_uuid = mem_uuid, dp_jwtauth = idle_jwtauth,
      dp_manager = (\<lambda>_. cleaning_manager),
      dp_key_manager = (\<lambda>_. \<lparr>km_key_info = (\<lambda>c s. (Inr 1, s)), km_jwks = (\<lambda>c s. (Inr [()], s))\<rparr>),
      dp_codec = plain_codec,
      dp_tls = \<lparr>load_key_pair = (\<lambda>_ _. Inr ()), read_file = (\<lambda>_. Inr ''''), parse_pool = (\<lambda>_. Some ())\<rparr>,
      dp_load_callers = (\<lambda>_. Inr sample_callers),
      dp_otlp = (\<lambda>_ s. (None, s)), dp_listen = (\<lambda>_ s. (None, s)), dp_sleep = later\<rparr>"

lemma sample_starts: "\<exists>sv s'. start_service sample_deps sample_env background lock_start = Some (Inr sv, s')"
proof -
  from sample_loads obtain cfg ws where load: "Load sample_env = (Inr cfg, ws)" by blast
  note valid = Load_Inr(1) [OF load, unfolded validate_env_Inr]
  have iss: "Issuer cfg \<noteq> ''''" "Audience cfg \<noteq> ''''"
    using valid Load_Inr(7,8) [OF load] by simp_all
  have retry: "redis_startup_retry mem_redis later background t s = Some (True, s)" for t and s :: lock_world
    by (subst retry_step [where err = None and ?s1.0 = s]) (simp_all add: mem_redis_def)
  have "\<exists>ts s1. AddTenant idle_jwtauth background (Issuer cfg)
      \<lparr>cfg_Issuer = Issuer cfg, cfg_Audience = Audience cfg\<rparr> (NewMultiTenantRegistry, lock_start) = (None, ts, s1)"
    using iss by (simp add: AddTenant_def NewMultiTenantRegistry_def map_has_def build_stack_def idle_jwtauth_def)
  then have "\<exists>ts s1. start_backend sample_deps sample_env background lock_start = Some (Inr (cfg, ts), s1)"
    by (auto simp: start_backend_def load sample_deps_def retry)
  then obtain ts s1 where backend: "start_backend sample_deps sample_env background lock_start = Some (Inr (cfg, ts), s1)"
    by blast
  have "callers_ok sample_callers" by (simp add: callers_ok_def sample_callers_def)
  then have "\<exists>p u. select_caller_registry (\<lambda>_. Inr sample_callers) cfg background s1 = (Inr p, u)"
    by (simp add: select_caller_registry_def validate_callers_ok [THEN iffD2])
  moreover have "\<exists>tr. select_transport (dp_tls sample_deps) cfg = Inr tr"
    by (simp add: select_transport_def sample_deps_def)
  ultimately have "\<exists>sv s'. start_frontend sample_deps cfg ts background s1 = (Inr sv, s')"
    by (auto simp: start_frontend_def sample_deps_def NewCursorReconciler_def Let_def)
  with backend show ?thesis by (simp add: start_service_def)
qed

theorem startup_sound_witness:
  "\<exists>sv s'. start_service sample_deps sample_env background lock_start = Some (Inr sv, s') \<and>
     env_ok sample_env"
proof -
  from sample_starts obtain sv s' where st: "start_service sample_deps sample_env background lock_start = Some (Inr sv, s')"
    by blast
  show ?thesis by (intro exI conjI, rule st) (rule startup_sound [OF st, THEN conjunct1])
qed

text \<open>
  Periods that are not positive end the program.  Load accepts any duration for the
  rotation guard and the reconciliation interval, and a service that has started panics in the
  creation of its background tickers exactly if one of the two is zero or negative.
\<close>
theorem nonpositive_period_panics:
  assumes "start_service dp env c s = Some (Inr sv, s')" and "Load env = (Inr cfg, ws)"
  shows "sv_tickers sv = None \<longleftrightarrow> RotationWindowGuard cfg \<le> 0 \<or> ReconciliationInterval cfg \<le> 0"
proof -
  from start_service_Inr [OF assms(1)] obtain cfg' ts s1 where
    backend: "start_backend dp env c s = Some (Inr (cfg', ts), s1)"
    and front: "start_frontend dp cfg' ts c s1 = (Inr sv, s')" by blast
  from start_backend_Inr [OF backend] assms(2) obtain entry where ts: "cfg' = cfg" "ts = [(Issuer cfg, entry)]"
    by auto
  have "sv_tickers sv = background_tickers cfg (AllKeyManagers ts)"
    using start_frontend_Inr [OF front] ts(1) by blast
  then show ?thesis by (simp add: background_panics ts(2) AllKeyManagers_def)
qed

theorem nonpositive_period_panics_witness:
  "\<exists>sv s'. start_service sample_deps sample_env background lock_start = Some (Inr sv, s') \<and>
     sv_tickers sv = None"
proof -
  from sample_starts obtain sv s' where st: "start_service sample_deps sample_env background lock_start = Some (Inr sv, s')"
    by blast
  from sample_loads obtain cfg ws where load: "Load sample_env = (Inr cfg, ws)" by blast
  have "(''TOKEN_ENGINE_ROTATION_WINDOW_GUARD'', 1 * nsMinute, RotationWindowGuard) \<in> set duration_settings"
    by (simp add: duration_settings_def)
  from Load_Inr(2) [OF load this] have "RotationWindowGuard cfg = 0"
    by (simp add: load_duration_value sample_env_values sample_durations)
  with nonpositive_period_panics [OF st load] st show ?thesis by auto
qed

text \<open>
  C21: The rotation window.  After a tick that rotated the keys of a tenant and whose time stamp
  Redis accepted, any later tick for that tenant that reads the stamp within the guard's
  duration of the rotation does nothing but log, whoever runs it: the release of the lock does
  not touch the stamp, and the stamp does not expire.
\<close>
theorem rotation_window:
  assumes "redis_server client db" and "exclusive_locker acquire db"
    and "\<And>t. time_parse tt (time_format tt t) = Some t" and "\<And>t. time_format tt t \<noteq> ''''"
    and "rotation_recent client tt guard t c s = (False, s1)"
    and "acquire c (lockKeyRotationPrefix @ t) ttl s1 = (Inr lk, s2)"
    and "rotateKeys c s2 = (None, s3)"
    and "rc_set client c (rotationLastGeneratedPrefix @ t) (time_format tt (clock s3)) 0 s3 = (None, s4)"
    and "db u (rotationLastGeneratedPrefix @ t) =
         db (rotation_tick client acquire tt rotateKeys guard ttl t c s) (rotationLastGeneratedPrefix @ t)"
    and "rc_get client c' (rotationLastGeneratedPrefix @ t) u = (Inr v, u1)"
    and "minDuration \<le> clock u1 - clock s3" and "clock u1 - clock s3 < guard" and "guard \<le> maxDuration"
  shows "rotation_tick client acquire tt rotateKeys guard ttl t c' u =
    log_debug c' ''key rotation skipped: within guard window'' [AStr ''tenant_id'', AStr t] u1"
proof (rule rotation_skipped [OF assms(10)])
  have "rotation_tick client acquire tt rotateKeys guard ttl t c s = snd (lk c s4)"
    using assms(5-8) by (simp add: rotation_tick_def rotate_under_lock_def)
  then have "db u (rotationLastGeneratedPrefix @ t) = Some (time_format tt (clock s3), None)"
    using rotation_recorded [OF assms(1,2,6,8)] assms(9) by simp
  moreover obtain k where "live (db u) k (rotationLastGeneratedPrefix @ t) = Some v"
    using redis_server.get_some [OF assms(1,10)] by blast
  ultimately have v: "v = time_format tt (clock s3)" by (simp add: live_def)
  then show "v \<noteq> ''''" and "time_parse tt v = Some (clock s3)"
    using assms(3,4) by simp_all
  show "time_since (clock s3) u1 < guard"
    using assms(11-13) by (simp add: time_since_def saturate_id)
qed

definition sample_text :: time_text where
  "sample_text =
     \<lparr>time_format = (\<lambda>t. if t < 0 then CHR ''-'' # replicate (nat (- t)) (CHR ''i'')
                       else CHR ''+'' # replicate (nat t) (CHR ''i'')),
      time_parse = (\<lambda>x. case x of [] \<Rightarrow> None
        | c # r \<Rightarrow> Some (if c = CHR ''-'' then - int (length r) else int (length r)))\<rparr>"

definition sample_tick :: "lock_world \<Rightarrow> lock_world" where
  "sample_tick =
     rotation_tick mem_redis (RedisAcquire mem_redis mem_uuid) sample_text (\<lambda>c s. (None, s))
       nsMinute (30 * nsSecond) ''t'' background"

theorem rotation_window_witness:
  "trace (sample_tick (sample_tick lock_start)) =
     [ELog Debug background ''key rotation skipped: within guard window'' [AStr ''tenant_id'', AStr ''t'']]"
proof -
  let ?gen = "rotationLastGeneratedPrefix @ ''t''" and ?lock = "lockKeyRotationPrefix @ ''t''"
  have none: "rotation_recent mem_redis sample_text nsMinute ''t'' background lock_start = (False, lock_start)"
    by (simp add: rotation_recent_def mem_redis_def lock_start_def live_def)
  obtain lk s2 where got: "RedisAcquire mem_redis mem_uuid background ?lock (30 * nsSecond) lock_start = (Inr lk, s2)"
    by (simp add: RedisAcquire_def mem_uuid_def mem_redis_def lock_start_def live_def)
  then have clock2: "clock s2 = 0" "trace s2 = []"
    by (auto simp: RedisAcquire_def mem_uuid_def mem_redis_def lock_start_def split: if_splits)
  obtain s4 where stamp: "rc_set mem_redis background ?gen (time_format sample_text (clock s2)) 0 s2 = (None, s4)"
    by (simp add: mem_redis_def)
  obtain e s5 where rel: "lk background s4 = (e, s5)" by fastforce
  have first: "sample_tick lock_start = s5"
    using none got stamp rel by (simp add: sample_tick_def rotation_tick_def rotate_under_lock_def)
  have s5: "clock s5 = 0 \<and> trace s5 = []"
    using got stamp rel clock2 by (auto simp: RedisAcquire_def RedisRelease_def mem_redis_def mem_uuid_def split: if_splits)
  have "mem_db s5 ?gen = Some (''+'', None)"
    using rotation_recorded [OF mem.redis_server_axioms mem_lock.redis_lock.exclusive_locker_axioms got stamp]
      rel clock2(1) by (simp add: sample_text_def)
  then have again: "rc_get mem_redis background ?gen s5 = (Inr ''+'', s5)"
    by (simp add: mem_redis_def live_def)
  have "sample_tick s5 = log_debug background ''key rotation skipped: within guard window''
      [AStr ''tenant_id'', AStr ''t''] s5"
    unfolding sample_tick_def
    by (rule rotation_window [where ?s1.0 = lock_start and s = lock_start, OF mem.redis_server_axioms
          mem_lock.redis_lock.exclusive_locker_axioms _ _ none got _ stamp _ again])
      (use s5 clock2 first in \<open>simp_all add: sample_tick_def sample_text_def minDuration_def
         maxDuration_def nsMinute_def nsSecond_def\<close>)
  with first s5 show ?thesis by simp
qed











end
