(* ===== verification/Client_Sdk.thy ===== *)
theory Client_Sdk
  imports Service_Main
begin

text \<open>
  \<^verbatim>\<open>client\<close>: the Go client.  Its options, the construction of a client from them, the
  interceptor that sends the API key, the RPC methods, and the no-op client.

  The dialer, the certificate loaders and the stub's connection are parameters.
\<close>

text \<open>A client interceptor around an invoker, which sends a request with its metadata.\<close>

type_synonym ('r, 's) invoker = "outgoing \<Rightarrow> 's \<Rightarrow> 'r \<times> 's"

type_synonym ('r, 's) client_interceptor = "('r, 's) invoker \<Rightarrow> ('r, 's) invoker"


section \<open>Options\<close>

record 'i dial_config =
  certFile :: string
  keyFile :: string
  caFile :: string
  plaintext :: bool
  staticKey :: string
  connectTimeout :: int
  interceptors :: "'i list"

datatype 'i client_option =
    WithMTLS string string string
  | WithPlaintext
  | WithStaticKey string
  | WithConnectTimeout int
  | WithUnaryInterceptor 'i

fun apply_option :: "'i client_option \<Rightarrow> 'i dial_config \<Rightarrow> 'i dial_config" where
  "apply_option (WithMTLS cert key ca) c = c\<lparr>certFile := cert, keyFile := key, caFile := ca\<rparr>"
| "apply_option WithPlaintext c = c\<lparr>plaintext := True\<rparr>"
| "apply_option (WithStaticKey key) c = c\<lparr>staticKey := key\<rparr>"
| "apply_option (WithConnectTimeout d) c = c\<lparr>connectTimeout := d\<rparr>"
| "apply_option (WithUnaryInterceptor i) c = c\<lparr>interceptors := interceptors c @ [i]\<rparr>"

definition default_dial_config :: "'i dial_config" where
  "default_dial_config =
     \<lparr>certFile = '''', keyFile = '''', caFile = '''', plaintext = False, staticKey = '''',
      connectTimeout = 10 * nsSecond, interceptors = []\<rparr>"


section \<open>Construction\<close>

datatype client_error =
    ErrNoCredentials
  | ErrInvalidCA
  | LoadKeyPairFailed go_error
  | ReadCAFailed go_error
  | DialFailed string go_error

definition buildTLSCredentials ::
  "('cert, 'pool) tls_files \<Rightarrow> 'i dial_config \<Rightarrow> client_error + ('cert, 'pool) transport" where
  "buildTLSCredentials ext cfg =
     (case load_key_pair ext (certFile cfg) (keyFile cfg) of
        Inl err \<Rightarrow> Inl (LoadKeyPairFailed err)
      | Inr cert \<Rightarrow>
          (case read_file ext (caFile cfg) of
             Inl err \<Rightarrow> Inl (ReadCAFailed err)
           | Inr caPEM \<Rightarrow>
               (case parse_pool ext caPEM of
                  None \<Rightarrow> Inl ErrInvalidCA
                | Some pool \<Rightarrow> Inr (MutualTLS cert pool))))"

definition staticKeyInterceptor :: "string \<Rightarrow> ('r, 's) client_interceptor" where
  "staticKeyInterceptor key invoker md = invoker (md @ [(''x-api-key'', key)])"

record ('r, 's, 'cert, 'pool) client =
  cl_addr :: string
  cl_creds :: "('cert, 'pool) transport"
  cl_minConnectTimeout :: int
  cl_interceptors :: "('r, 's) client_interceptor list"

definition NewClient ::
  "('cert, 'pool) tls_files \<Rightarrow> (string \<Rightarrow> go_error option) \<Rightarrow> string \<Rightarrow>
   ('r, 's) client_interceptor client_option list \<Rightarrow>
   client_error + ('r, 's, 'cert, 'pool) client" where
  "NewClient ext dial addr opts =
     (let cfg = fold apply_option opts default_dial_config in
      if \<not> plaintext cfg \<and> certFile cfg = '''' then Inl ErrNoCredentials
      else
        (case (if plaintext cfg then Inr Plaintext else buildTLSCredentials ext cfg) of
           Inl err \<Rightarrow> Inl err
         | Inr creds \<Rightarrow>
             let chain =
               (if staticKey cfg \<noteq> '''' then staticKeyInterceptor (staticKey cfg) # interceptors cfg
                else interceptors cfg)
             in case dial addr of
                  Some err \<Rightarrow> Inl (DialFailed addr err)
                | None \<Rightarrow>
                    Inr \<lparr>cl_addr = addr, cl_creds = creds,
                         cl_minConnectTimeout = connectTimeout cfg, cl_interceptors = chain\<rparr>))"

text \<open>\<^verbatim>\<open>grpc.WithChainUnaryInterceptor\<close>: the first interceptor is the outermost.\<close>

fun client_chain :: "('r, 's) client_interceptor list \<Rightarrow> ('r, 's) invoker \<Rightarrow> ('r, 's) invoker" where
  "client_chain [] invoker = invoker"
| "client_chain (i # is) invoker = i (client_chain is invoker)"

text \<open>
  The six RPC methods make the stub's call of the same name, over the connection and so through
  its interceptors; \<open>stub\<close> sends a request.
\<close>

definition client_rpc ::
  "('r, 's, 'cert, 'pool) client \<Rightarrow> (request \<Rightarrow> ('r, 's) invoker) \<Rightarrow> request \<Rightarrow> ('r, 's) invoker" where
  "client_rpc cl stub req = client_chain (cl_interceptors cl) (stub req)"

text \<open>\<^verbatim>\<open>Close\<close>: a client made from a stub has no connection.\<close>

definition Close :: "('s \<Rightarrow> go_error option \<times> 's) option \<Rightarrow> 's \<Rightarrow> go_error option \<times> 's" where
  "Close conn s = (case conn of None \<Rightarrow> (None, s) | Some cl \<Rightarrow> cl s)"

text \<open>\<^verbatim>\<open>NoOpClient\<close>: every method returns \<^verbatim>\<open>nil, nil\<close> and sends nothing.\<close>

definition noop_client_rpc :: "request \<Rightarrow> outgoing \<Rightarrow> 's \<Rightarrow> (response option \<times> go_error option) \<times> 's" where
  "noop_client_rpc req md s = ((None, None), s)"

definition noop_client_Close :: "'s \<Rightarrow> go_error option \<times> 's" where
  "noop_client_Close s = (None, s)"


section \<open>Options and transport\<close>

lemma plaintext_fold:
  "plaintext (fold apply_option opts c) \<longleftrightarrow> plaintext c \<or> WithPlaintext \<in> set opts"
proof (induction opts arbitrary: c)
  case (Cons o1 opts)
  have "plaintext (apply_option o1 c) \<longleftrightarrow> plaintext c \<or> o1 = WithPlaintext" by (cases o1) auto
  with Cons show ?case by auto
qed simp

lemma certFile_fold:
  "(\<And>a k p. WithMTLS a k p \<notin> set opts) \<Longrightarrow> certFile (fold apply_option opts c) = certFile c"
proof (induction opts arbitrary: c)
  case (Cons o1 opts)
  have "certFile (apply_option o1 c) = certFile c" using Cons.prems by (cases o1) auto
  with Cons show ?case by simp
qed simp

lemma NewClient_Inr:
  assumes "NewClient ext dial addr opts = Inr cl"
  shows "cl_creds cl = Plaintext \<longleftrightarrow> WithPlaintext \<in> set opts"
    and "cl_interceptors cl =
      (let cfg = fold apply_option opts default_dial_config in
       if staticKey cfg \<noteq> '''' then staticKeyInterceptor (staticKey cfg) # interceptors cfg
       else interceptors cfg)"
  using assms
  by (auto simp: NewClient_def buildTLSCredentials_def Let_def plaintext_fold default_dial_config_def
      split: if_splits sum.splits option.splits)


section \<open>Properties\<close>

text \<open>The keys of the metadata a server receives, in order; what grpc delivers is a parameter.\<close>

definition delivers :: "(outgoing \<Rightarrow> string list str_map) \<Rightarrow> bool" where
  "delivers deliver \<longleftrightarrow>
     (\<forall>md key. md_get (deliver md) key = map snd (filter (\<lambda>(k, v). k = key) md))"

lemma loaded_keys:
  assumes "Load env = (Inr cfg, ws)" and "env ''TOKEN_ENGINE_STATIC_CALLER_KEYS'' = print_keys m"
    and "printable_keys m"
  shows "StaticCallerKeys cfg = m"
  using Load_Inr(1) [OF assms(1), unfolded validate_env_Inr] load_printed_keys [OF assms(3)] assms(2)
  by simp

text \<open>
  Keys end to end.  A plaintext client with a static key sends every call, after the
  caller's own metadata, with that key; and a server with TLS disabled, whose
  TOKEN_ENGINE_STATIC_CALLER_KEYS lists the key, authenticates such a call as the identity the
  list gives the key, provided the caller's own metadata has no x-api-key of its own (which
  would come first and be the one the server reads).  A client built with neither WithPlaintext
  nor WithMTLS is refused.
\<close>
theorem client_key_end_to_end:
  fixes cl :: "('r, 's, 'cert, 'pool) client"
  assumes "printable_keys m" and "map_of m key = Some i"
    and "Load env = (Inr cfg, ws)" and "TLSMode cfg = ''disabled''"
    and "env ''TOKEN_ENGINE_STATIC_CALLER_KEYS'' = print_keys m"
    and "delivers deliver" and "\<And>v. (MetadataKeyAPIKey, v) \<notin> set md"
    and "NewClient ext dial addr [WithPlaintext, WithStaticKey key] = Inr cl"
  shows "client_rpc cl stub req md = stub req (md @ [(MetadataKeyAPIKey, key)]) \<and>
    (\<forall>c. incoming_md c = Some (deliver (md @ [(MetadataKeyAPIKey, key)])) \<longrightarrow>
       select_authenticator cfg c = Inr i) \<and>
    (\<forall>opts :: ('r, 's) client_interceptor client_option list.
       WithPlaintext \<notin> set opts \<and> (\<forall>a k p. WithMTLS a k p \<notin> set opts) \<longrightarrow>
       (NewClient ext dial addr opts :: client_error + ('r, 's, 'cert, 'pool) client) = Inl ErrNoCredentials)"
proof (intro conjI allI impI)
  have keys: "StaticCallerKeys cfg = m" by (rule loaded_keys [OF assms(3,5,1)])
  have "key \<noteq> ''''"
    using assms(1,2) by (auto simp: printable_keys_def dest!: map_of_SomeD)
  with NewClient_Inr(2) [OF assms(8)] show "client_rpc cl stub req md = stub req (md @ [(MetadataKeyAPIKey, key)])"
    by (simp add: client_rpc_def default_dial_config_def staticKeyInterceptor_def MetadataKeyAPIKey_def)
  fix c :: ctx
  assume inc: "incoming_md c = Some (deliver (md @ [(MetadataKeyAPIKey, key)]))"
  have "filter (\<lambda>(k, v). k = MetadataKeyAPIKey) md = []"
    using assms(7) by (auto simp: filter_empty_conv)
  then have "md_get (deliver (md @ [(MetadataKeyAPIKey, key)])) MetadataKeyAPIKey = [key]"
    using assms(6) by (simp add: delivers_def)
  with inc keys assms(2,4) show "select_authenticator cfg c = Inr i"
    by (simp add: select_authenticator_def StaticKeyAuthenticate_def)
next
  fix opts :: "('r, 's) client_interceptor client_option list"
  assume "WithPlaintext \<notin> set opts \<and> (\<forall>a k p. WithMTLS a k p \<notin> set opts)"
  then have "\<not> plaintext (fold apply_option opts default_dial_config)"
    "certFile (fold apply_option opts default_dial_config) = ''''"
    by (simp_all add: plaintext_fold certFile_fold default_dial_config_def)
  then show "(NewClient ext dial addr opts :: client_error + ('r, 's, 'cert, 'pool) client) = Inl ErrNoCredentials"
    by (simp add: NewClient_def)
qed

definition plain_delivery :: "outgoing \<Rightarrow> string list str_map" where
  "plain_delivery md = map (\<lambda>(k, v). (k, map snd (filter (\<lambda>(k', v). k' = k) md))) md"

lemma plain_delivery: "delivers plain_delivery"
proof -
  have "map_of (map (\<lambda>(k, v). (k, f k)) md) key = (if key \<in> fst ` set md then Some (f key) else None)"
    for f :: "string \<Rightarrow> string list" and md :: outgoing and key
    by (induction md) auto
  moreover have "key \<notin> fst ` set md \<Longrightarrow> filter (\<lambda>(k, v). k = key) md = []" for md :: outgoing and key
    by (force simp: filter_empty_conv)
  ultimately show ?thesis by (simp add: delivers_def plain_delivery_def md_get_def)
qed

definition no_tls :: "(unit, unit) tls_files" where
  "no_tls = \<lparr>load_key_pair = (\<lambda>_ _. Inr ()), read_file = (\<lambda>_. Inr ''''), parse_pool = (\<lambda>_. Some ())\<rparr>"

theorem client_key_end_to_end_witness:
  "\<exists>cfg ws. Load sample_env = (Inr cfg, ws) \<and>
     select_authenticator cfg (background\<lparr>incoming_md := Some (plain_delivery [(MetadataKeyAPIKey, ''a='')])\<rparr>) =
       Inr ''svc''"
proof -
  let ?m = "[(''a='', ''svc''), (''b'', ''ops'')]"
  from sample_loads obtain cfg ws where load: "Load sample_env = (Inr cfg, ws)" by blast
  have "TLSMode cfg = ''disabled''"
    using Load_Inr(1) [OF load] sample_validates by simp
  moreover have "printable_keys ?m" by (simp add: printable_keys_def)
  moreover have "sample_env ''TOKEN_ENGINE_STATIC_CALLER_KEYS'' = print_keys ?m"
    by (simp add: sample_env_values print_keys_def)
  moreover obtain cl :: "(unit, unit, unit, unit) client"
    where "NewClient no_tls (\<lambda>_. None) ''addr'' [WithPlaintext, WithStaticKey ''a=''] = Inr cl"
    by (simp add: NewClient_def default_dial_config_def)
  ultimately have "\<forall>c. incoming_md c = Some (plain_delivery ([] @ [(MetadataKeyAPIKey, ''a='')])) \<longrightarrow>
      select_authenticator cfg c = Inr ''svc''"
    using client_key_end_to_end [of ?m "''a=''" "''svc''" sample_env cfg ws plain_delivery "[]"
        no_tls "\<lambda>_. None" "''addr''" cl "\<lambda>_ _ s. ((), s)" OtherReq] load plain_delivery
    by simp
  with load show ?thesis by (intro exI [of _ cfg] exI [of _ ws]) simp
qed

end
