(* ===== verification/Handler_Properties.thy ===== *)
theory Handler_Properties
  imports Token_Handler
begin

text \<open>
  The guarantees of the RPC handlers: the audit gate and its asymmetry, what a revocation
  records, which errors leave the service, the balance of the spans, and the expiry fields.
\<close>


section \<open>Observations the library leaves alone\<close>

text \<open>An observation of the world that no call of a manager changes.\<close>

definition tm_keeps :: "('s \<Rightarrow> 'o) \<Rightarrow> 's token_manager \<Rightarrow> bool" where
  "tm_keeps f m \<longleftrightarrow>
     (\<forall>c x y z s. f (snd (tm_issue_pair m c x y z s)) = f s) \<and>
     (\<forall>c x y z s. f (snd (tm_issue_refresh m c x y z s)) = f s) \<and>
     (\<forall>c x y s. f (snd (tm_refresh_access m c x y s)) = f s) \<and>
     (\<forall>c x s. f (snd (tm_validate m c x s)) = f s) \<and>
     (\<forall>c x s. f (snd (tm_introspect m c x s)) = f s) \<and>
     (\<forall>c x s. f (snd (tm_revoke m c x s)) = f s) \<and>
     (\<forall>c x s. f (snd (tm_revoke_audience m c x s)) = f s) \<and>
     (\<forall>c x s. f (snd (tm_revoke_user m c x s)) = f s) \<and>
     (\<forall>c x y s. f (snd (tm_revoke_user_audience m c x y s)) = f s)"

definition lookup_keeps :: "('s \<Rightarrow> 'o) \<Rightarrow> 's lookup \<Rightarrow> bool" where
  "lookup_keeps f get \<longleftrightarrow> (\<forall>c t m. get c t = Inr m \<longrightarrow> tm_keeps f m)"

lemma lookup_keepsD:
  assumes "lookup_keeps f get"
  shows "tm_issue_pair m c x1 y1 z1 s = (r1, s') \<Longrightarrow> get c' t = Inr m \<Longrightarrow> f s' = f s"
    and "tm_issue_refresh m c x1 y1 z1 s = (r2, s') \<Longrightarrow> get c' t = Inr m \<Longrightarrow> f s' = f s"
    and "tm_refresh_access m c x1 y2 s = (r3, s') \<Longrightarrow> get c' t = Inr m \<Longrightarrow> f s' = f s"
    and "tm_validate m c x1 s = (r4, s') \<Longrightarrow> get c' t = Inr m \<Longrightarrow> f s' = f s"
    and "tm_introspect m c x1 s = (r5, s') \<Longrightarrow> get c' t = Inr m \<Longrightarrow> f s' = f s"
    and "tm_revoke m c x1 s = (r6, s') \<Longrightarrow> get c' t = Inr m \<Longrightarrow> f s' = f s"
    and "tm_revoke_audience m c x1 s = (r6, s') \<Longrightarrow> get c' t = Inr m \<Longrightarrow> f s' = f s"
    and "tm_revoke_user m c x1 s = (r6, s') \<Longrightarrow> get c' t = Inr m \<Longrightarrow> f s' = f s"
    and "tm_revoke_user_audience m c x1 x2 s = (r6, s') \<Longrightarrow> get c' t = Inr m \<Longrightarrow> f s' = f s"
  using assms unfolding lookup_keeps_def tm_keeps_def by (metis snd_conv)+


text \<open>
  The same for the library calls of a revocation.  The equation of the call is kept, turned round
  so that these can be used as destruction rules.
\<close>

lemma revocation_calls:
  assumes "lookup_keeps f get"
  shows "tm_introspect m c x s = (r1, s') \<Longrightarrow> get c' t = Inr m \<Longrightarrow> f s' = f s \<and> (r1, s') = tm_introspect m c x s"
    and "tm_revoke m c x s = (r2, s') \<Longrightarrow> get c' t = Inr m \<Longrightarrow> f s' = f s \<and> (r2, s') = tm_revoke m c x s"
    and "tm_revoke_audience m c x s = (r2, s') \<Longrightarrow> get c' t = Inr m \<Longrightarrow>
      f s' = f s \<and> (r2, s') = tm_revoke_audience m c x s"
    and "tm_revoke_user m c x s = (r2, s') \<Longrightarrow> get c' t = Inr m \<Longrightarrow>
      f s' = f s \<and> (r2, s') = tm_revoke_user m c x s"
    and "tm_revoke_user_audience m c x y s = (r2, s') \<Longrightarrow> get c' t = Inr m \<Longrightarrow>
      f s' = f s \<and> (r2, s') = tm_revoke_user_audience m c x y s"
  using lookup_keepsD [OF assms] by metis+


section \<open>The audit gate\<close>

lemma audit_gate_revocation:
  assumes "is_revocation req"
  shows "\<exists>s1. only_logged s s1 \<and>
    (\<forall>e s2. au_ping a c s1 = (Some e, s2) \<longrightarrow>
      (\<exists>s3. only_logged s2 s3 \<and>
        (\<forall>get. token_service get a other c req s = (Inl auditUnavailable, s3))))"
proof (cases req)
  case (RevokeReq r)
  then show ?thesis
    by (intro exI [of _ "span_start ''RevokeToken'' s"])
      (auto simp: token_service_def revoke_response_def RevokeToken_def fail_with_def)
next
  case (RevokeAudienceReq r)
  then show ?thesis
    by (intro exI [of _ "span_start ''RevokeAllForAudience'' s"])
      (auto simp: token_service_def revoke_response_def RevokeAllForAudience_def fail_with_def)
next
  case (RevokeUserReq r)
  then show ?thesis
    by (intro exI [of _ "span_start ''RevokeAllUserTokens'' s"])
      (auto simp: token_service_def revoke_response_def RevokeAllUserTokens_def fail_with_def)
next
  case (RevokeUserAudienceReq r)
  then show ?thesis
    by (intro exI [of _ s])
      (auto simp: token_service_def revoke_response_def RevokeAllForUserAndAudience_def)
qed (use assms in simp_all)

text \<open>
  C16: The audit asymmetry.  When the audit store does not answer its ping, each of the four
  revocation calls fails with codes.Unavailable before the registry or the library is touched
  (the outcome is the same for every registry, and the world differs from the one the ping
  left only by logs and span events); IssueToken and RefreshToken are the same functions for
  every audit store.
\<close>
theorem audit_asymmetry:
  "(is_revocation req \<longrightarrow>
      (\<exists>s1. only_logged s s1 \<and>
        (\<forall>e s2. au_ping a c s1 = (Some e, s2) \<longrightarrow>
          (\<exists>s3. only_logged s2 s3 \<and>
            (\<forall>get. token_service get a other c req s = (Inl auditUnavailable, s3)))))) \<and>
   (\<not> is_revocation req \<longrightarrow>
      (\<forall>get a'. token_service get a other c req s = token_service get a' other c req s))"
proof (cases "is_revocation req")
  case True
  with audit_gate_revocation [OF True] show ?thesis by blast
next
  case False
  then show ?thesis by (cases req) (simp_all add: token_service_def)
qed

definition mute_store :: "'s audit_store" where
  "mute_store = \<lparr>au_record = (\<lambda>c e s. (Some (PlainErr [] ''down''), s)),
     au_ping = (\<lambda>c s. (Some (PlainErr [] ''down''), s))\<rparr>"

definition idle_world :: world where
  "idle_world = \<lparr>clock = 0, trace = []\<rparr>"

theorem audit_asymmetry_witness:
  "fst (token_service (\<lambda>c t. Inl (PlainErr [] ''none'')) mute_store (\<lambda>c r s. (Inr OtherResp, s)) background
     (RevokeReq \<lparr>t_refresh_token = ''rt'', t_tenant_id = ''t''\<rparr>) idle_world) = Inl auditUnavailable"
  using audit_asymmetry [of "RevokeReq \<lparr>t_refresh_token = ''rt'', t_tenant_id = ''t''\<rparr>"
      idle_world mute_store background "\<lambda>c r s. (Inr OtherResp, s)"]
  by (auto simp: mute_store_def)


section \<open>What a revocation records\<close>

text \<open>The scope and the target a revocation request is recorded with.\<close>

fun audit_scope :: "request \<Rightarrow> string \<times> string" where
  "audit_scope (RevokeReq r) = (RevocationScopeToken, '''')"
| "audit_scope (RevokeAudienceReq r) = (RevocationScopeAudience, a_audience r)"
| "audit_scope (RevokeUserReq r) = (RevocationScopeUser, u_user_id r)"
| "audit_scope (RevokeUserAudienceReq r) = (RevocationScopeUserAudience, ua_user_id r)"
| "audit_scope _ = ('''', '''')"

text \<open>
  The library calls of a revocation, from \<open>u\<close> to \<open>u'\<close>, all on the manager of the request's
  tenant, and the reference to what they revoked: of a token, the ID that the introspection of the
  request's token gave, which is the ID that was revoked.
\<close>

fun revoked_as :: "'s lookup \<Rightarrow> ctx \<Rightarrow> request \<Rightarrow> string \<Rightarrow> 's \<Rightarrow> 's \<Rightarrow> bool" where
  "revoked_as get c (RevokeReq r) ref u u' \<longleftrightarrow>
     (\<exists>m meta v. get c (t_tenant_id r) = Inr m \<and>
        tm_introspect m c (t_refresh_token r) u = (Inr meta, v) \<and>
        tm_revoke m c (meta_TokenID meta) v = (None, u') \<and> ref = Ref (meta_TokenID meta))"
| "revoked_as get c (RevokeAudienceReq r) ref u u' \<longleftrightarrow>
     (\<exists>m. get c (a_tenant_id r) = Inr m \<and> tm_revoke_audience m c (a_audience r) u = (None, u') \<and> ref = '''')"
| "revoked_as get c (RevokeUserReq r) ref u u' \<longleftrightarrow>
     (\<exists>m. get c (u_tenant_id r) = Inr m \<and> tm_revoke_user m c (u_user_id r) u = (None, u') \<and> ref = '''')"
| "revoked_as get c (RevokeUserAudienceReq r) ref u u' \<longleftrightarrow>
     (\<exists>m. get c (ua_tenant_id r) = Inr m \<and>
        tm_revoke_user_audience m c (ua_user_id r) (ua_audience r) u = (None, u') \<and> ref = '''')"
| "revoked_as get c _ ref u u' \<longleftrightarrow> False"

text \<open>The world in which a revocation's first library call is made: after the ping, and in its span.\<close>

fun library_start :: "'a world_scheme audit_store \<Rightarrow> ctx \<Rightarrow> request \<Rightarrow> 'a world_scheme \<Rightarrow> 'a world_scheme" where
  "library_start store c (RevokeReq r) s = snd (au_ping store c (span_start ''RevokeToken'' s))"
| "library_start store c (RevokeAudienceReq r) s = snd (au_ping store c (span_start ''RevokeAllForAudience'' s))"
| "library_start store c (RevokeUserReq r) s = snd (au_ping store c (span_start ''RevokeAllUserTokens'' s))"
| "library_start store c (RevokeUserAudienceReq r) s =
     span_start ''RevokeAllForUserAndAudience'' (snd (au_ping store c s))"
| "library_start store c _ s = s"

text \<open>What an event must say of a request whose library calls begin in \<open>u\<close>.\<close>

definition describes ::
  "'a world_scheme lookup \<Rightarrow> revocation_event \<Rightarrow> ctx \<Rightarrow> request \<Rightarrow> 'a world_scheme \<Rightarrow> bool" where
  "describes get ev c req u \<longleftrightarrow>
     GetTenantId req = Some (ev_TenantID ev) \<and> ev_CallerIdentity ev = CallerIdentityFromContext c \<and>
     (ev_Scope ev, ev_Target ev) = audit_scope req \<and>
     (\<exists>u'. revoked_as get c req (ev_TokenRef ev) u u' \<and> ev_OccurredAt ev = clock u')"

text \<open>
  The events the four handlers build describe their requests.  The library calls are equations
  turned round, as \<open>revocation_calls\<close> leaves them.
\<close>

lemma describes_intros:
  "get c (t_tenant_id q1) = Inr m \<Longrightarrow> (Inr meta, v) = tm_introspect m c (t_refresh_token q1) u \<Longrightarrow>
   (None, u') = tm_revoke m c (meta_TokenID meta) v \<Longrightarrow>
   describes get \<lparr>ev_TenantID = t_tenant_id q1, ev_CallerIdentity = CallerIdentityFromContext c,
     ev_TokenRef = Ref (meta_TokenID meta), ev_Target = '''', ev_Scope = RevocationScopeToken,
     ev_OccurredAt = clock u'\<rparr> c (RevokeReq q1) u"
  "get c (a_tenant_id q2) = Inr m \<Longrightarrow> (None, u') = tm_revoke_audience m c (a_audience q2) u \<Longrightarrow>
   describes get \<lparr>ev_TenantID = a_tenant_id q2, ev_CallerIdentity = CallerIdentityFromContext c,
     ev_TokenRef = '''', ev_Target = a_audience q2, ev_Scope = RevocationScopeAudience,
     ev_OccurredAt = clock u'\<rparr> c (RevokeAudienceReq q2) u"
  "get c (u_tenant_id q3) = Inr m \<Longrightarrow> (None, u') = tm_revoke_user m c (u_user_id q3) u \<Longrightarrow>
   describes get \<lparr>ev_TenantID = u_tenant_id q3, ev_CallerIdentity = CallerIdentityFromContext c,
     ev_TokenRef = '''', ev_Target = u_user_id q3, ev_Scope = RevocationScopeUser,
     ev_OccurredAt = clock u'\<rparr> c (RevokeUserReq q3) u"
  "get c (ua_tenant_id q4) = Inr m \<Longrightarrow>
   (None, u') = tm_revoke_user_audience m c (ua_user_id q4) (ua_audience q4) u \<Longrightarrow>
   describes get \<lparr>ev_TenantID = ua_tenant_id q4, ev_CallerIdentity = CallerIdentityFromContext c,
     ev_TokenRef = '''', ev_Target = ua_user_id q4, ev_Scope = RevocationScopeUserAudience,
     ev_OccurredAt = clock u'\<rparr> c (RevokeUserAudienceReq q4) u"
  by (simp_all add: describes_def) metis+

lemma map_prod_run: "map_prod f id p = (r, s) \<Longrightarrow> \<exists>u. p = (u, s) \<and> r = f u"
  by (cases p) auto

lemma revoke_response_run:
  "revoke_response p = (r, s) \<Longrightarrow> \<exists>u. p = (u, s) \<and> r = map_sum id (\<lambda>_. RevokeResp) u"
  unfolding revoke_response_def by (rule map_prod_run)

context audit_log begin

lemma record_audit_records:
  assumes "record_audit store c ev s = (r, s')"
  shows "(r = Inr () \<and> recorded s' = recorded s @ [enc ev]) \<or>
    (r = Inl (StatusErr Internal ''audit record failed'') \<and>
     (recorded s' = recorded s \<or> recorded s' = recorded s @ [enc ev]))"
proof -
  obtain e s1 where e: "au_record store c ev s = (e, s1)" by fastforce
  show ?thesis
    using assms e record_adds [of c ev s s1] record_fails [of c ev s _ s1]
    by (cases e) (auto simp: record_audit_def fail_with_def)
qed

lemma fail_with_records:
  assumes "fail_with ret err s = (r, s')"
  shows "r = Inl ret \<and> recorded s' = recorded s"
  using assms by (auto simp: fail_with_def)

text \<open>The common shape: nothing recorded so far, and the last step records.\<close>

lemma revocation_records:
  assumes lib: "lookup_keeps recorded get" and req: "is_revocation req"
    and run: "token_service get store other c req s = (r, s')"
  shows "(\<exists>ev. describes get ev c req (library_start store c req s) \<and> r = Inr RevokeResp \<and> recorded s' = recorded s @ [enc ev]) \<or>
    (\<exists>e. r = Inl e \<and> (recorded s' = recorded s \<or>
       (\<exists>ev. describes get ev c req (library_start store c req s) \<and> recorded s' = recorded s @ [enc ev])))"
proof -
  have ping: "au_ping store c v = (e, v') \<Longrightarrow> v' = snd (au_ping store c v) \<and> recorded v' = recorded v" for v e v'
    using ping_keeps by simp
  note step = ping revocation_calls [OF lib]
  show ?thesis
  proof (cases req)
    case (RevokeReq q)
    obtain u where u: "RevokeToken get store c q s = (u, s')" "r = map_sum id (\<lambda>_. RevokeResp) u"
      using run RevokeReq by (auto simp: token_service_def dest: revoke_response_run)
    show ?thesis
      using u(1) unfolding u(2) RevokeReq RevokeToken_def Let_def
      by (auto split: handler_splits dest!: step record_audit_records fail_with_records
          intro: describes_intros)
  next
    case (RevokeAudienceReq q)
    obtain u where u: "RevokeAllForAudience get store c q s = (u, s')" "r = map_sum id (\<lambda>_. RevokeResp) u"
      using run RevokeAudienceReq by (auto simp: token_service_def dest: revoke_response_run)
    show ?thesis
      using u(1) unfolding u(2) RevokeAudienceReq RevokeAllForAudience_def Let_def
      by (auto split: handler_splits dest!: step record_audit_records fail_with_records
          intro: describes_intros)
  next
    case (RevokeUserReq q)
    obtain u where u: "RevokeAllUserTokens get store c q s = (u, s')" "r = map_sum id (\<lambda>_. RevokeResp) u"
      using run RevokeUserReq by (auto simp: token_service_def dest: revoke_response_run)
    show ?thesis
      using u(1) unfolding u(2) RevokeUserReq RevokeAllUserTokens_def Let_def
      by (auto split: handler_splits dest!: step record_audit_records fail_with_records
          intro: describes_intros)
  next
    case (RevokeUserAudienceReq q)
    obtain u where u: "RevokeAllForUserAndAudience get store c q s = (u, s')" "r = map_sum id (\<lambda>_. RevokeResp) u"
      using run RevokeUserAudienceReq by (auto simp: token_service_def dest: revoke_response_run)
    show ?thesis
      using u(1) unfolding u(2) RevokeUserAudienceReq RevokeAllForUserAndAudience_def Let_def
      by (auto split: handler_splits dest!: step record_audit_records fail_with_records
          intro: describes_intros)
  qed (use req in simp_all)
qed

end

text \<open>
  C15: Every revocation that succeeds is on the audit record, once.  For any audit store that
  keeps the contract of Store and any library that does not write audit records itself: a
  revocation call that answers successfully has added exactly one record, which names the
  tenant of the request, the authenticated caller, the scope and the target, and the time at
  which the revocation that this call made of the tenant's manager had succeeded; of a revoked
  token it names only the reference of the ID that was revoked, which is the ID that the
  manager's introspection of the request's token gave in this call; one that fails has added none, or that one record when the store
  reported an error after writing it.
\<close>
theorem revocation_audited:
  assumes "audit_log store recorded enc" and "lookup_keeps recorded get" and "is_revocation req"
    and "token_service get store other c req s = (r, s')"
  shows "(\<exists>ev. describes get ev c req (library_start store c req s) \<and> r = Inr RevokeResp \<and> recorded s' = recorded s @ [enc ev]) \<or>
    (\<exists>e. r = Inl e \<and> (recorded s' = recorded s \<or>
       (\<exists>ev. describes get ev c req (library_start store c req s) \<and> recorded s' = recorded s @ [enc ev])))"
  by (rule audit_log.revocation_records [OF assms])

definition ok_manager :: "'s token_manager" where
  "ok_manager = \<lparr>tm_issue_pair = (\<lambda>c sub m a s. (Inr (''access'', ''refresh''), s)),
     tm_issue_refresh = (\<lambda>c sub m a s. (Inr ''refresh'', s)),
     tm_refresh_access = (\<lambda>c t m s. (Inr ''access'', s)),
     tm_validate = (\<lambda>c t s. (Inr \<lparr>reg_Subject = ''u'', reg_Audience = [''a''], reg_ExpiresAt = 0\<rparr>, s)),
     tm_introspect = (\<lambda>c t s. (Inr \<lparr>meta_TokenID = ''id'', meta_ExpiresAt = 0\<rparr>, s)),
     tm_revoke = (\<lambda>c t s. (None, s)), tm_revoke_audience = (\<lambda>c t s. (None, s)),
     tm_revoke_user = (\<lambda>c t s. (None, s)), tm_revoke_user_audience = (\<lambda>c t a s. (None, s)),
     tm_cleanup = (\<lambda>c s. (Inr 0, s))\<rparr>"

lemma ok_manager_keeps: "lookup_keeps f (\<lambda>c t. Inr ok_manager)"
  by (simp add: lookup_keeps_def tm_keeps_def ok_manager_def)

definition sample_lookup :: "world lookup" where
  "sample_lookup c t = Inr ok_manager"

lemma sample_lookup_keeps: "lookup_keeps f sample_lookup"
  using ok_manager_keeps [of f] by (simp add: lookup_keeps_def sample_lookup_def)

definition sample_revoke :: request where
  "sample_revoke = RevokeUserReq \<lparr>u_user_id = ''u'', u_tenant_id = ''t''\<rparr>"

definition sample_revocation :: "(go_error + response) \<times> world" where
  "sample_revocation = token_service sample_lookup NewSlogAuditStore (\<lambda>c r s. (Inr OtherResp, s))
     (WithCallerIdentity background ''svc'') sample_revoke idle_world"

theorem revocation_audited_witness:
  "\<exists>ev. describes sample_lookup ev (WithCallerIdentity background ''svc'') sample_revoke
       (library_start NewSlogAuditStore (WithCallerIdentity background ''svc'') sample_revoke idle_world) \<and>
     slog_recorded (snd sample_revocation) = [audit_fields ev]"
proof -
  obtain r s' where run: "sample_revocation = (r, s')" by fastforce
  have "slog_recorded idle_world = []"
    by (simp add: slog_recorded_def idle_world_def List.map_filter_def)
  moreover have ok: "fst sample_revocation = Inr RevokeResp"
    by (simp add: sample_revocation_def sample_lookup_def sample_revoke_def token_service_def revoke_response_def
        RevokeAllUserTokens_def NewSlogAuditStore_def SlogRecordRevocation_def ok_manager_def
        record_audit_def)
  moreover have "is_revocation sample_revoke" by (simp add: sample_revoke_def)
  moreover from ok run have "r = Inr RevokeResp" by (metis fst_conv)
  ultimately obtain ev where "describes sample_lookup ev (WithCallerIdentity background ''svc'') sample_revoke
       (library_start NewSlogAuditStore (WithCallerIdentity background ''svc'') sample_revoke idle_world)"
      "slog_recorded s' = [audit_fields ev]"
    using revocation_audited [OF slog_audit.audit_log_axioms sample_lookup_keeps _ run [unfolded sample_revocation_def]]
    by auto
  with run show ?thesis by (metis snd_conv)
qed

text \<open>
  C38: The record is written after the revocation, and its failure does not undo it.  If the
  library has revoked the tokens of an audience and the audit store then fails to record the
  event, the call answers codes.Internal, while the world is the one the library and the store
  left, up to logs and span events: the revocation stands, unrecorded.
\<close>
theorem revoked_before_recorded:
  assumes "au_ping a c (span_start ''RevokeAllForAudience'' s) = (None, s2)"
    and "get c (a_tenant_id q) = Inr m" and "tm_revoke_audience m c (a_audience q) s2 = (None, s3)"
    and "au_record a c \<lparr>ev_TenantID = a_tenant_id q, ev_CallerIdentity = CallerIdentityFromContext c,
           ev_TokenRef = '''', ev_Target = a_audience q, ev_Scope = RevocationScopeAudience,
           ev_OccurredAt = clock s3\<rparr> s3 = (Some e, s4)"
  shows "\<exists>s5. RevokeAllForAudience get a c q s = (Inl (StatusErr Internal ''audit record failed''), s5) \<and>
    only_logged s4 s5"
  using assms by (auto simp: RevokeAllForAudience_def record_audit_def fail_with_def)

theorem revoked_before_recorded_witness:
  "fst (RevokeAllForAudience (\<lambda>c t. Inr ok_manager) (mute_store\<lparr>au_ping := \<lambda>c s. (None, s)\<rparr>) background
     \<lparr>a_audience = ''a'', a_tenant_id = ''t''\<rparr> idle_world) = Inl (StatusErr Internal ''audit record failed'')"
  using revoked_before_recorded [of "mute_store\<lparr>au_ping := \<lambda>c s. (None, s)\<rparr>" background idle_world
      "span_start ''RevokeAllForAudience'' idle_world" "\<lambda>c t. Inr ok_manager"
      "\<lparr>a_audience = ''a'', a_tenant_id = ''t''\<rparr>" ok_manager]
  by (auto simp: mute_store_def ok_manager_def)


section \<open>The errors that leave the service\<close>

definition proper_error :: "go_error \<Rightarrow> bool" where
  "proper_error e \<longleftrightarrow> (\<exists>code msg. e = StatusErr code msg \<and> code \<noteq> OK \<and> code \<noteq> Unknown)"

lemma proper_intros [simp, intro]:
  "proper_error (map_lib e)" "proper_error auditUnavailable" "proper_error (StatusErr Internal msg)"
  using map_lib_cases [of e] by (auto simp: proper_error_def auditUnavailable_def)

lemma fail_with_run: "fail_with ret err s = (r, s') \<Longrightarrow> r = Inl ret"
  by (simp add: fail_with_def)

lemma record_audit_run: "record_audit a c ev s = (Inl e, s') \<Longrightarrow> proper_error e"
  by (auto simp: record_audit_def split: handler_splits dest: fail_with_run)

context tenant_lookup begin

lemma lookup_proper: "get c t = Inl e \<Longrightarrow> proper_error e"
  using refusal by (fastforce simp: proper_error_def)

end

lemma map_sum_Inl [simp]: "Inl e = map_sum id f u \<longleftrightarrow> u = Inl e" "map_sum id f u = Inl e \<longleftrightarrow> u = Inl e"
  by (cases u; auto)+

lemma service_errors:
  assumes get: "\<And>c t e. get c t = Inl e \<Longrightarrow> proper_error e" and req: "req \<noteq> OtherReq"
    and run: "token_service get a other c req s = (Inl e, s')"
  shows "proper_error e"
proof -
  show ?thesis
    using run req
    unfolding token_service_def revoke_response_def IssueToken_def RefreshToken_def RevokeToken_def
      RevokeAllForAudience_def RevokeAllUserTokens_def RevokeAllForUserAndAudience_def Let_def
    by (cases req; simp split: handler_splits sum.splits)
      (auto dest!: map_prod_run fail_with_run record_audit_run get split: handler_splits)
qed

text \<open>
  C36: Every error of the service is a status error with a proper code.  Whatever the library,
  the registry of tenants and the audit store do, a TokenEngine call that fails answers with a
  gRPC status whose code is neither OK nor Unknown: no raw library error reaches the caller.
\<close>
theorem handler_errors_are_statuses:
  assumes "req \<noteq> OtherReq"
    and "token_service (lookup_manager deref ts) a other c req s = (Inl e, s')"
  shows "\<exists>code msg. e = StatusErr code msg \<and> code \<noteq> OK \<and> code \<noteq> Unknown"
  using service_errors [OF multi_tenant.lookup_proper assms] by (simp add: proper_error_def)

theorem handler_errors_are_statuses_witness:
  "\<exists>e s'. token_service (lookup_manager (\<lambda>_. ok_manager) []) mute_store (\<lambda>c r s. (Inr OtherResp, s)) background
      (IssueReq \<lparr>i_sub = ''u'', i_tenant_id = ''t'', i_idempotency_key = '''', i_claims = None, i_audiences = []\<rparr>)
      idle_world = (Inl e, s') \<and> (\<exists>code msg. e = StatusErr code msg \<and> code \<noteq> OK \<and> code \<noteq> Unknown)"
proof -
  let ?req = "IssueReq \<lparr>i_sub = ''u'', i_tenant_id = ''t'', i_idempotency_key = '''', i_claims = None, i_audiences = []\<rparr>"
  have "\<exists>e s'. token_service (lookup_manager (\<lambda>_. ok_manager) []) mute_store (\<lambda>c r s. (Inr OtherResp, s))
      background ?req idle_world = (Inl e, s')"
    by (simp add: token_service_def IssueToken_def lookup_manager_def GetTenant_def fail_with_def)
  then obtain e s' where run: "token_service (lookup_manager (\<lambda>_. ok_manager) []) mute_store
      (\<lambda>c r s. (Inr OtherResp, s)) background ?req idle_world = (Inl e, s')" by blast
  from handler_errors_are_statuses [OF _ run] run show ?thesis by blast
qed


section \<open>Spans\<close>

fun is_span_event :: "event \<Rightarrow> bool" where
  "is_span_event (ESpanStart n) \<longleftrightarrow> True"
| "is_span_event (ESpanError e) \<longleftrightarrow> True"
| "is_span_event (ESpanStatus code msg) \<longleftrightarrow> True"
| "is_span_event ESpanEnd \<longleftrightarrow> True"
| "is_span_event _ \<longleftrightarrow> False"

definition span_events :: "'a world_scheme \<Rightarrow> event list" where
  "span_events s = filter is_span_event (trace s)"

lemma span_events_emit [simp]:
  "span_events (emit e s) = span_events s @ (if is_span_event e then [e] else [])"
  "span_events (fail_span err s) =
     span_events s @ [ESpanError err, ESpanStatus StatusError (error_string err)]"
  by (simp_all add: span_events_def)

fun span_name :: "request \<Rightarrow> string" where
  "span_name (IssueReq r) = ''IssueToken''"
| "span_name (RefreshReq r) = ''RefreshToken''"
| "span_name (RevokeReq r) = ''RevokeToken''"
| "span_name (RevokeAudienceReq r) = ''RevokeAllForAudience''"
| "span_name (RevokeUserReq r) = ''RevokeAllUserTokens''"
| "span_name (RevokeUserAudienceReq r) = ''RevokeAllForUserAndAudience''"
| "span_name OtherReq = ''''"

text \<open>The span events of a call, by its result.\<close>

definition proper_span :: "string \<Rightarrow> (go_error + 'r) \<Rightarrow> event list \<Rightarrow> bool" where
  "proper_span n r es \<longleftrightarrow>
     (case r of
        Inr _ \<Rightarrow> es = [ESpanStart n, ESpanStatus StatusOK '''', ESpanEnd]
      | Inl _ \<Rightarrow> \<exists>err. es = [ESpanStart n, ESpanError err, ESpanStatus StatusError (error_string err), ESpanEnd])"

definition audit_keeps :: "('s \<Rightarrow> 'o) \<Rightarrow> 's audit_store \<Rightarrow> bool" where
  "audit_keeps f a \<longleftrightarrow> (\<forall>c s. f (snd (au_ping a c s)) = f s) \<and> (\<forall>c e s. f (snd (au_record a c e s)) = f s)"

lemma audit_keepsD:
  assumes "audit_keeps f a"
  shows "au_ping a c s = (r, s') \<Longrightarrow> f s' = f s" "au_record a c e s = (r, s') \<Longrightarrow> f s' = f s"
  using assms unfolding audit_keeps_def by (metis snd_conv)+

lemma fail_with_spans:
  assumes "fail_with ret err s = (r, s')"
  shows "r = Inl ret \<and> span_events s' =
    span_events s @ [ESpanError err, ESpanStatus StatusError (error_string err), ESpanEnd]"
  using assms by (auto simp: fail_with_def)

lemma record_audit_spans:
  assumes "audit_keeps span_events a" and "record_audit a c ev s = (r, s')"
  shows "(r = Inr () \<and> span_events s' = span_events s @ [ESpanStatus StatusOK '''', ESpanEnd]) \<or>
    (\<exists>e err. r = Inl e \<and> span_events s' =
       span_events s @ [ESpanError err, ESpanStatus StatusError (error_string err), ESpanEnd])"
  using assms(2) unfolding record_audit_def
  by (auto split: handler_splits dest!: fail_with_spans audit_keepsD [OF assms(1)])

text \<open>
  C37: Spans are balanced.  With a library and an audit store that keep to their own spans,
  every call opens one span with the name of its method, gives it exactly one status, OK if the
  call succeeds and the error otherwise, and closes it.  The one exception is a
  RevokeAllForUserAndAudience call that finds the audit store unavailable: it opens none.
\<close>
theorem spans_balanced:
  assumes lib: "lookup_keeps span_events get" and audit: "audit_keeps span_events a"
    and req: "req \<noteq> OtherReq" and run: "token_service get a other c req s = (r, s')"
  shows "(\<exists>es. span_events s' = span_events s @ es \<and> proper_span (span_name req) r es) \<or>
    ((\<exists>q. req = RevokeUserAudienceReq q) \<and> r = Inl auditUnavailable \<and> span_events s' = span_events s)"
proof -
  note step = lookup_keepsD [OF lib] audit_keepsD [OF audit] fail_with_spans record_audit_spans [OF audit]
  show ?thesis
    using run req
    unfolding token_service_def revoke_response_def IssueToken_def RefreshToken_def RevokeToken_def
      RevokeAllForAudience_def RevokeAllUserTokens_def RevokeAllForUserAndAudience_def Let_def
    by (cases req; simp split: handler_splits sum.splits)
      (auto dest!: map_prod_run step simp: proper_span_def split: handler_splits)
qed

theorem spans_balanced_witness:
  "span_events (snd sample_revocation) =
     [ESpanStart ''RevokeAllUserTokens'', ESpanStatus StatusOK '''', ESpanEnd]"
proof -
  obtain r s' where run: "sample_revocation = (r, s')" by fastforce
  have "audit_keeps span_events (NewSlogAuditStore :: world audit_store)"
    by (simp add: audit_keeps_def NewSlogAuditStore_def SlogRecordRevocation_def)
  moreover have "sample_revoke \<noteq> OtherReq" by (simp add: sample_revoke_def)
  moreover have ok: "fst sample_revocation = Inr RevokeResp"
    by (simp add: sample_revocation_def sample_lookup_def sample_revoke_def token_service_def revoke_response_def
        RevokeAllUserTokens_def NewSlogAuditStore_def SlogRecordRevocation_def ok_manager_def
        record_audit_def)
  moreover from ok run have "r = Inr RevokeResp" by (metis fst_conv)
  ultimately have "span_events s' = span_events idle_world @
      [ESpanStart (span_name sample_revoke), ESpanStatus StatusOK '''', ESpanEnd]"
    using spans_balanced [OF sample_lookup_keeps _ _ run [unfolded sample_revocation_def]]
    by (auto simp: proper_span_def)
  then have "span_events s' = [ESpanStart ''RevokeAllUserTokens'', ESpanStatus StatusOK '''', ESpanEnd]"
    by (simp add: span_events_def idle_world_def sample_revoke_def)
  with run show ?thesis by (metis snd_conv)
qed


section \<open>Expiry fields\<close>

lemma billion: "nsSecond = 1000000000"
  by (simp add: nsSecond_def)

lemma fraction_rounds:
  assumes "0 < n" and "n < nsSecond"
  defines "x \<equiv> of_int n / of_int nsSecond :: rat"
  shows "1 / 2 ^ 64 \<le> fl x" and "fl x \<le> 1" and "fl x \<le> x + 1 / 2 ^ 53"
proof -
  have n: "1 \<le> n" "n \<le> 999999999" using assms(1,2) by (simp_all add: billion)
  then have r: "(1::rat) \<le> of_int n" "(of_int n::rat) \<le> 999999999"
    by (simp_all only: of_int_1_le_iff of_int_le_numeral_iff)
  have x: "1 / 1000000000 \<le> x" "x \<le> 1" using r by (simp_all add: x_def billion)
  then have x64: "1 / 2 ^ 64 \<le> x" by simp
  have err: "\<bar>fl x - x\<bar> \<le> x / 2 ^ 53" by (rule fl_error [OF x64])
  have powers: "(2::rat) ^ 53 = 9007199254740992" "(2::rat) ^ 64 = 18446744073709551616" by simp_all
  from abs_le_D2 [OF err] x show "1 / 2 ^ 64 \<le> fl x" unfolding powers by linarith
  show "fl x \<le> 1" using fl_le_int [OF x64, of 1] x by simp
  from abs_le_D1 [OF err] x show "fl x \<le> x + 1 / 2 ^ 53" unfolding powers by linarith
qed

lemma duration_seconds_bounds:
  assumes "0 < d" and "d \<le> maxDuration"
  shows "d div nsSecond \<le> \<lfloor>duration_seconds d\<rfloor>" and "\<lfloor>duration_seconds d\<rfloor> \<le> d div nsSecond + 1"
    and "d < 2 ^ 23 * nsSecond \<Longrightarrow> \<lfloor>duration_seconds d\<rfloor> = d div nsSecond"
proof -
  let ?k = "d div nsSecond" and ?n = "d mod nsSecond"
  let ?q = "fl (of_int ?n / of_int nsSecond)" and ?x = "of_int ?k + fl (of_int ?n / of_int nsSecond) :: rat"
  have k0: "0 \<le> ?k" using assms(1) by (simp add: billion)
  have "d \<le> 9223372036854775807" using assms(2) by (simp add: maxDuration_def)
  then have "?k \<le> 9223372036" by (simp add: billion)
  then have k_high: "(of_int ?k :: rat) \<le> 9223372036" by (simp only: of_int_le_numeral_iff)
  have n: "0 \<le> ?n" "?n < nsSecond" by (simp_all add: billion)
  have q: "0 \<le> ?q" "?q \<le> 1" "?k = 0 \<Longrightarrow> 1 / 2 ^ 64 \<le> ?q" "?q \<le> of_int ?n / of_int nsSecond + 1 / 2 ^ 53"
  proof -
    show "0 \<le> ?q" "?q \<le> 1" "?q \<le> of_int ?n / of_int nsSecond + 1 / 2 ^ 53"
      using fraction_rounds [of ?n] n by (cases "?n = 0"; fastforce simp: fl_def intro: order_trans [rotated])+
    assume "?k = 0"
    with assms(1) have "0 < ?n" using n(1) mult_div_mod_eq [of nsSecond d] by (cases "?n = 0") simp_all
    then show "1 / 2 ^ 64 \<le> ?q" using fraction_rounds(1) n(2) by blast
  qed
  have x64: "1 / 2 ^ 64 \<le> ?x"
  proof (cases "?k = 0")
    case True
    with q(3) show ?thesis by simp
  next
    case False
    with k0 have "(1::rat) \<le> of_int ?k" by simp
    with q(1) have "1 \<le> ?x" by linarith
    then show ?thesis by simp
  qed
  have x53: "?x < 2 ^ 53" using k_high q(2) by simp
  have f: "duration_seconds d = fl ?x" by (simp add: duration_seconds_def)
  have "of_int ?k \<le> fl ?x" using fl_ge_int [OF x64 x53, of ?k] q(1) by simp
  then show low: "?k \<le> \<lfloor>duration_seconds d\<rfloor>" unfolding f by (simp only: le_floor_iff)
  have "fl ?x \<le> of_int (?k + 1)" using fl_le_int [OF x64 x53, of "?k + 1"] q(2) by simp
  then show "\<lfloor>duration_seconds d\<rfloor> \<le> ?k + 1" unfolding f by (metis floor_mono floor_of_int)
  assume small: "d < 2 ^ 23 * nsSecond"
  then have "?k < 8388608" by (simp add: billion)
  then have "?k \<le> 8388607" by simp
  then have kr: "(of_int ?k :: rat) \<le> 8388607" by (simp only: of_int_le_numeral_iff)
  have "?n \<le> 999999999" using n(2) by (simp add: billion)
  then have nr: "(of_int ?n :: rat) \<le> 999999999" by (simp only: of_int_le_numeral_iff)
  have "fl ?x \<le> ?x + ?x / 2 ^ 53" using abs_le_D1 [OF fl_error [OF x64]] by linarith
  also have "\<dots> \<le> ?x + 8388608 / 2 ^ 53" using kr q(2) by simp
  also have "\<dots> < of_int ?k + 1" using q(4) nr by (simp add: billion)
  finally have "\<lfloor>fl ?x\<rfloor> < ?k + 1" unfolding floor_less_iff by simp
  with low f show "\<lfloor>duration_seconds d\<rfloor> = ?k" by simp
qed

text \<open>
  C39: The expiry fields of a token pair.  expiresInSeconds is zero for an instant that has
  passed; otherwise, although it goes through float64, it is the whole seconds that remain or
  one more, and it is exact for every remaining time below 2^23 seconds (97 days).
\<close>
theorem expires_in_bounds:
  assumes "0 < time_until t s"
  shows "time_until t s div nsSecond \<le> expiresInSeconds t s \<and>
    expiresInSeconds t s \<le> time_until t s div nsSecond + 1 \<and>
    (time_until t s < 2 ^ 23 * nsSecond \<longrightarrow> expiresInSeconds t s = time_until t s div nsSecond) \<and>
    (\<forall>t'. t' \<le> clock s \<longrightarrow> expiresInSeconds t' s = 0)"
proof -
  have "time_until t s \<le> maxDuration" by (simp add: time_until_def saturate_def minDuration_def maxDuration_def)
  note bounds = duration_seconds_bounds [OF assms this]
  have "time_until t' s \<le> 0" if "t' \<le> clock s" for t'
    using that by (simp add: time_until_def saturate_sign)
  with bounds assms show ?thesis by (simp add: expiresInSeconds_def Let_def)
qed

theorem expires_in_bounds_witness:
  "expiresInSeconds (900 * nsSecond + 5) idle_world = 900"
proof -
  have d: "time_until (900 * nsSecond + 5) idle_world = 900000000005"
    by (simp add: time_until_def saturate_def minDuration_def maxDuration_def billion idle_world_def)
  then have "0 < time_until (900 * nsSecond + 5) idle_world" by simp
  from expires_in_bounds [OF this] show ?thesis unfolding d by (simp add: billion)
qed


section \<open>Token references\<close>

text \<open>
  A reference to a token does not carry it.  It is empty only for the empty token, and
  otherwise sixteen hexadecimal digits, so no token longer than that equals its reference, and
  the reference is all an audit record of a revocation can hold of the token.
\<close>
theorem token_reference:
  "(Ref token = '''' \<longleftrightarrow> token = '''') \<and> (token \<noteq> '''' \<longrightarrow> length (Ref token) = 16) \<and>
   list_all is_hex (Ref token) \<and> (16 < length token \<longrightarrow> Ref token \<noteq> token) \<and>
   (describes get ev c req u \<longrightarrow> (\<exists>tid. ev_TokenRef ev = Ref tid))"
proof -
  have "\<exists>tid. ev_TokenRef ev = Ref tid" if d: "describes get ev c req u"
  proof (cases "\<exists>q. req = RevokeReq q")
    case True
    with d show ?thesis by (auto simp: describes_def)
  next
    case False
    with d have "ev_TokenRef ev = ''''" by (cases req) (auto simp: describes_def)
    then have "ev_TokenRef ev = Ref ''''" by simp
    then show ?thesis by blast
  qed
  then show ?thesis
    using length_Ref [of token] Ref_is_hex [of _ token] Ref_not_token [of token]
    by (auto simp: list_all_iff)
qed

theorem token_reference_witness:
  "length (Ref ''opaque-refresh-token'') = 16 \<and> Ref ''opaque-refresh-token'' \<noteq> ''opaque-refresh-token''"
  using token_reference [of "''opaque-refresh-token''" sample_lookup undefined background OtherReq undefined] by simp

end
