(* ===== verification/Service_Frame.thy ===== *)
theory Service_Frame
  imports Handler_Properties Access_Properties
begin

text \<open>
  What the six TokenEngine handlers leave as it was: whatever relation between worlds every call
  on the library's managers and on the audit store respects, the handlers respect too.  Used for
  the store keys of the idempotency interceptor and for time.
\<close>

definition steps :: "('a world_scheme \<Rightarrow> 'a world_scheme \<Rightarrow> bool) \<Rightarrow> bool" where
  "steps R \<longleftrightarrow> (\<forall>s. R s s) \<and> (\<forall>s t u. R s t \<longrightarrow> R t u \<longrightarrow> R s u) \<and> (\<forall>e s. R s (emit e s))"

definition tm_steps :: "('s \<Rightarrow> 's \<Rightarrow> bool) \<Rightarrow> 's token_manager \<Rightarrow> bool" where
  "tm_steps R m \<longleftrightarrow>
     (\<forall>c x y z s. R s (snd (tm_issue_pair m c x y z s))) \<and>
     (\<forall>c x y z s. R s (snd (tm_issue_refresh m c x y z s))) \<and>
     (\<forall>c x y s. R s (snd (tm_refresh_access m c x y s))) \<and>
     (\<forall>c x s. R s (snd (tm_validate m c x s))) \<and>
     (\<forall>c x s. R s (snd (tm_introspect m c x s))) \<and>
     (\<forall>c x s. R s (snd (tm_revoke m c x s))) \<and>
     (\<forall>c x s. R s (snd (tm_revoke_audience m c x s))) \<and>
     (\<forall>c x s. R s (snd (tm_revoke_user m c x s))) \<and>
     (\<forall>c x y s. R s (snd (tm_revoke_user_audience m c x y s)))"

definition lookup_steps :: "('s \<Rightarrow> 's \<Rightarrow> bool) \<Rightarrow> 's lookup \<Rightarrow> bool" where
  "lookup_steps R get \<longleftrightarrow> (\<forall>c t m. get c t = Inr m \<longrightarrow> tm_steps R m)"

definition audit_steps :: "('s \<Rightarrow> 's \<Rightarrow> bool) \<Rightarrow> 's audit_store \<Rightarrow> bool" where
  "audit_steps R a \<longleftrightarrow> (\<forall>c e s. R s (snd (au_record a c e s))) \<and> (\<forall>c s. R s (snd (au_ping a c s)))"

definition handler_steps :: "('s \<Rightarrow> 's \<Rightarrow> bool) \<Rightarrow> 's handler \<Rightarrow> bool" where
  "handler_steps R h \<longleftrightarrow> (\<forall>c req s. R s (snd (h c req s)))"

text \<open>One rule for each construct of a handler's body.\<close>

lemma steps_refl: "steps R \<Longrightarrow> R s s"
  by (simp add: steps_def)

lemma steps_trans: "steps R \<Longrightarrow> R s t \<Longrightarrow> R t u \<Longrightarrow> R s u"
  unfolding steps_def by blast

lemma steps_emit: "steps R \<Longrightarrow> R s t \<Longrightarrow> R s (emit e t)"
  unfolding steps_def by blast

lemma steps_fail_span:
  assumes "steps R" and "R s t"
  shows "R s (fail_span e t)"
  unfolding fail_span_def by (rule steps_emit [OF assms(1)])+ (rule assms(2))

lemma steps_fail:
  assumes "steps R" and "R s t"
  shows "R s (snd (fail_with ret err t))"
  unfolding fail_with_def snd_conv
  by (rule steps_emit [OF assms(1)], rule steps_fail_span [OF assms])

lemma steps_return: "R s t \<Longrightarrow> R s (snd (r, t))"
  by simp

lemma steps_bind:
  assumes "R s (snd p)" and "\<And>r t. R s t \<Longrightarrow> R s (snd (f r t))"
  shows "R s (snd (case p of (r, t) \<Rightarrow> f r t))"
  using assms by (simp add: case_prod_beta)

lemma steps_sum:
  assumes "\<And>e. R s (snd (f e))" and "\<And>x. R s (snd (g x))"
  shows "R s (snd (case r of Inl e \<Rightarrow> f e | Inr x \<Rightarrow> g x))"
  using assms by (cases r) simp_all

lemma steps_option:
  assumes "R s (snd f)" and "\<And>x. R s (snd (g x))"
  shows "R s (snd (case r of None \<Rightarrow> f | Some x \<Rightarrow> g x))"
  using assms by (cases r) simp_all

lemma steps_pair: "(\<And>x y. R s (snd (f x y))) \<Longrightarrow> R s (snd (case p of (x, y) \<Rightarrow> f x y))"
  by (simp add: case_prod_beta)

lemma steps_lookup:
  assumes "lookup_steps R get" and "\<And>e. R s (snd (f e))" and "\<And>m. tm_steps R m \<Longrightarrow> R s (snd (g m))"
  shows "R s (snd (case get c t of Inl e \<Rightarrow> f e | Inr m \<Rightarrow> g m))"
  using assms by (cases "get c t") (auto simp: lookup_steps_def)

lemma steps_manager:
  assumes "steps R" and "tm_steps R m" and "R s0 s"
  shows "R s0 (snd (tm_issue_pair m c x y z s))" and "R s0 (snd (tm_issue_refresh m c x y z' s))"
    and "R s0 (snd (tm_refresh_access m c x y s))" and "R s0 (snd (tm_validate m c x s))"
    and "R s0 (snd (tm_introspect m c x s))" and "R s0 (snd (tm_revoke m c x s))"
    and "R s0 (snd (tm_revoke_audience m c x s))" and "R s0 (snd (tm_revoke_user m c x s))"
    and "R s0 (snd (tm_revoke_user_audience m c x x' s))"
  by (rule steps_trans [OF assms(1,3)], use assms(2) in \<open>simp add: tm_steps_def\<close>)+

lemma steps_audit:
  assumes "steps R" and "audit_steps R a" and "R s0 s"
  shows "R s0 (snd (au_record a c ev s))" and "R s0 (snd (au_ping a c s))"
  by (rule steps_trans [OF assms(1,3)], use assms(2) in \<open>simp add: audit_steps_def\<close>)+

lemma steps_record:
  assumes "steps R" and "audit_steps R a" and "R s0 s"
  shows "R s0 (snd (record_audit a c ev s))"
proof -
  obtain r t where run: "au_record a c ev s = (r, t)" by fastforce
  with steps_audit(1) [OF assms, of c ev] have t: "R s0 t" by simp
  note step = steps_emit [OF assms(1)]
  show ?thesis
  proof (cases r)
    case None
    have "R s0 (span_end (span_ok t))" by (rule step, rule step, rule t)
    with None run show ?thesis by (simp add: record_audit_def)
  next
    case (Some e)
    from steps_fail [OF assms(1) step [OF t]] Some run show ?thesis by (simp add: record_audit_def)
  qed
qed

lemma handlers_step:
  assumes "steps R" and "lookup_steps R get" and "audit_steps R a"
  shows "R s (snd (IssueToken get c r1 s))" and "R s (snd (RefreshToken get c r2 s))"
    and "R s (snd (RevokeToken get a c r3 s))" and "R s (snd (RevokeAllForAudience get a c r4 s))"
    and "R s (snd (RevokeAllUserTokens get a c r5 s))" and "R s (snd (RevokeAllForUserAndAudience get a c r6 s))"
proof -
  note leaf = steps_lookup [OF assms(2)] steps_fail [OF assms(1)] steps_record [OF assms(1,3)]
    steps_manager [OF assms(1)] steps_audit [OF assms(1,3)]
  note trace = steps_emit [OF assms(1)] steps_fail_span [OF assms(1)] steps_refl [OF assms(1)]
  note branch = steps_return [where R = R] steps_bind [where R = R] steps_sum [where R = R]
    steps_option [where R = R] steps_pair [where R = R]
  show "R s (snd (IssueToken get c r1 s))"
    unfolding IssueToken_def Let_def by (assumption | rule leaf trace branch)+
  show "R s (snd (RefreshToken get c r2 s))"
    unfolding RefreshToken_def Let_def by (assumption | rule leaf trace branch)+
  show "R s (snd (RevokeToken get a c r3 s))"
    unfolding RevokeToken_def Let_def by (assumption | rule leaf trace branch)+
  show "R s (snd (RevokeAllForAudience get a c r4 s))"
    unfolding RevokeAllForAudience_def Let_def by (assumption | rule leaf trace branch)+
  show "R s (snd (RevokeAllUserTokens get a c r5 s))"
    unfolding RevokeAllUserTokens_def Let_def by (assumption | rule leaf trace branch)+
  show "R s (snd (RevokeAllForUserAndAudience get a c r6 s))"
    unfolding RevokeAllForUserAndAudience_def Let_def by (assumption | rule leaf trace branch)+
qed

lemma service_steps:
  assumes "steps R" and "lookup_steps R get" and "audit_steps R a" and "handler_steps R other"
  shows "handler_steps R (token_service get a other)"
  unfolding handler_steps_def
proof (intro allI)
  fix c req s
  show "R s (snd (token_service get a other c req s))"
    using handlers_step [OF assms(1-3)] assms(4)
    by (cases req) (simp_all add: token_service_def revoke_response_def handler_steps_def)
qed


section \<open>The interceptor chain\<close>

definition store_steps :: "('s \<Rightarrow> 's \<Rightarrow> bool) \<Rightarrow> 's idempotency_store \<Rightarrow> bool" where
  "store_steps R st \<longleftrightarrow> (\<forall>c k s. R s (snd (st_get st c k s))) \<and>
     (\<forall>c k v s. R s (snd (st_setnx st c k v s))) \<and> (\<forall>c k v s. R s (snd (st_set st c k v s)))"

definition interceptor_steps :: "('s \<Rightarrow> 's \<Rightarrow> bool) \<Rightarrow> 's interceptor \<Rightarrow> bool" where
  "interceptor_steps R i \<longleftrightarrow> (\<forall>m h. handler_steps R h \<longrightarrow> handler_steps R (i m h))"

lemma interceptor_stepsI:
  assumes "\<And>m h c req s. handler_steps R h \<Longrightarrow> R s (snd (i m h c req s))"
  shows "interceptor_steps R i"
  using assms by (simp add: interceptor_steps_def handler_steps_def)

lemma chain_steps:
  assumes "\<And>i. i \<in> set is \<Longrightarrow> interceptor_steps R i" and "handler_steps R h"
  shows "handler_steps R (chain is m h)"
  using assms(1)
proof (induction "is")
  case Nil
  show ?case by (simp add: assms(2))
next
  case (Cons i "is")
  have "handler_steps R (chain is m h)" by (rule Cons.IH) (rule Cons.prems, simp)
  moreover have "interceptor_steps R i" by (rule Cons.prems) simp
  ultimately show ?case by (simp add: interceptor_steps_def)
qed

lemma steps_handler:
  assumes "steps R" and "handler_steps R h" and "R s0 s"
  shows "R s0 (snd (h c req s))"
  using steps_trans [OF assms(1,3)] assms(2) unfolding handler_steps_def by blast

lemma steps_store:
  assumes "steps R" and "store_steps R st" and "R s0 s"
  shows "R s0 (snd (st_get st c k s))" and "R s0 (snd (st_setnx st c k v s))"
    and "R s0 (snd (st_set st c k v s))"
  by (rule steps_trans [OF assms(1,3)], use assms(2) in \<open>simp add: store_steps_def\<close>)+

lemma correlation_steps:
  assumes R: "steps R" and uuid: "\<And>s. R s (snd (uuid s))"
  shows "interceptor_steps R (NewCorrelationInterceptor uuid)"
proof (rule interceptor_stepsI)
  fix m and h :: "'a world_scheme handler" and c req s
  assume h: "handler_steps R h"
  note logged = steps_emit [OF R] and run = steps_handler [OF R h]
  have "R s (snd (correlated uuid c s))"
    using uuid steps_refl [OF R] by (simp add: correlated_def)
  then show "R s (snd (NewCorrelationInterceptor uuid m h c req s))"
    unfolding NewCorrelationInterceptor_def correlated_def [symmetric] Let_def
    by (auto simp: split_beta intro!: logged run)
qed

lemma gate_steps:
  assumes "steps R"
  shows "interceptor_steps R (NewAuthInterceptor auth)"
    and "interceptor_steps R (NewCallerAuthorizationInterceptor isPermitted)"
    and "interceptor_steps R NewValidationInterceptor"
  using steps_refl [OF assms]
  by (auto simp: interceptor_steps_def handler_steps_def NewAuthInterceptor_def
      NewCallerAuthorizationInterceptor_def NewValidationInterceptor_def Let_def
      split: sum.split option.split prod.split)

lemma claim_steps:
  assumes R: "steps R" and st: "store_steps R st" and h: "handler_steps R h" and s: "R s0 s"
  shows "R s0 (snd (claim_and_run pc st m h c req key fp s))"
proof -
  have promote: "R s0 (promote pc st c key fp resp t)" if "R s0 t" for resp t
    using steps_store(3) [OF R st that] that
    by (auto simp: promote_def split: response.split sum.split prod.split option.split
        intro!: steps_emit [OF R]) (metis snd_conv)+
  have won: "R s0 (snd (won_claim pc st m h c req key fp t))" if t: "R s0 t" for t
  proof -
    obtain r u where u: "h c req t = (r, u)" by fastforce
    with steps_handler [OF R h t, of c req] have "R s0 u" by simp
    then show ?thesis
      using promote by (cases r) (simp_all add: won_claim_def u steps_emit [OF R])
  qed
  have lost: "R s0 (snd (lost_claim pc st m c key fp t))" if t: "R s0 t" for t
  proof -
    obtain r u where u: "st_get st c key t = (r, u)" by fastforce
    with steps_store(1) [OF R st t, of c key] have "R s0 u" by simp
    then show ?thesis
      by (auto simp: lost_claim_def u split: sum.split option.split intro!: steps_emit [OF R])
  qed
  obtain r u where u: "st_setnx st c key idempotencyPendingRecord s = (r, u)" by fastforce
  with steps_store(2) [OF R st s, of c key idempotencyPendingRecord] have "R s0 u" by simp
  with won lost steps_emit [OF R] show ?thesis
    by (cases r) (simp_all add: claim_and_run_def u)
qed

lemma idempotency_steps:
  assumes R: "steps R" and st: "store_steps R st"
  shows "interceptor_steps R (NewIdempotencyInterceptor pc st)"
proof (rule interceptor_stepsI)
  fix m and h :: "'a world_scheme handler" and c req s
  assume h: "handler_steps R h"
  have usage: "R s (logIdempotencyKeyFieldUsage c f hk s)" for f hk
    using steps_refl [OF R] by (auto simp: logIdempotencyKeyFieldUsage_def intro!: steps_emit [OF R])
  note run = steps_handler [OF R h] claim_steps [OF R st h] steps_emit [OF R] steps_refl [OF R] usage
  show "R s (snd (NewIdempotencyInterceptor pc st m h c req s))"
    by (cases req) (auto simp: NewIdempotencyInterceptor_def handleIssueTokenIdempotency_def
        handleRefreshTokenIdempotency_def Let_def split: sum.split intro!: run)
qed

lemma service_chain_steps:
  assumes R: "steps R" and "\<And>s. R s (snd (uuid s))" and "store_steps R st" and h: "handler_steps R h"
  shows "handler_steps R (chain (service_chain uuid auth isPermitted pc st) m h)"
proof (rule chain_steps [OF _ h])
  show "interceptor_steps R i" if "i \<in> set (service_chain uuid auth isPermitted pc st)" for i
    using that correlation_steps [OF assms(1,2)] gate_steps [OF R] idempotency_steps [OF R assms(3)]
    by (auto simp: service_chain_def)
qed

end
