(* ===== verification/Rpc_Calls.thy ===== *)
theory Rpc_Calls
  imports Rpc Client_Sdk Idem_Properties Service_Frame
begin

text \<open>
  A call from the Go client to a service with TLS disabled, through every layer: the client's
  interceptors, the generated stub, the connection, the generated method handler, the interceptor
  chain and the TokenEngine handler.

  The locale \<open>deployment\<close> is what a client relies on: a plaintext client with a static key, a
  connection that gets its calls through, a server that knows the key, and a Redis that answers.
  The programs under \<^verbatim>\<open>examples\<close> are clients of it.
\<close>


section \<open>The connection\<close>

definition time_only :: "'a world_scheme \<Rightarrow> 'a world_scheme \<Rightarrow> bool" where
  "time_only s s' \<longleftrightarrow> clock s \<le> clock s' \<and> trace s' = trace s \<and> world.more s' = world.more s"

text \<open>
  grpc-go on a call that gets through: the request travels, the server finds the method and runs
  its handler under the chain, in a context with the delivered metadata and no client certificate,
  and the reply travels back.
\<close>

definition connected ::
  "'a world_scheme client_conn \<Rightarrow> (outgoing \<Rightarrow> string list str_map) \<Rightarrow> 'a world_scheme route \<Rightarrow> wire \<Rightarrow>
   'a world_scheme method_desc list \<Rightarrow> 'a world_scheme interceptor \<Rightarrow> bool" where
  "connected cc deliver route w methods i \<longleftrightarrow>
     (\<forall>m req md s hdl. route TokenEngine_ServiceName methods m = Some hdl \<longrightarrow>
        (\<exists>c s1 s3. incoming_md c = Some (deliver md) \<and> time_only s s1 \<and>
           cc m req md s = (fst (hdl c (wr_encode w req) (Some i) s1), s3) \<and>
           time_only (snd (hdl c (wr_encode w req) (Some i) s1)) s3))"


section \<open>The client's methods\<close>

definition client_IssueToken ::
  "(go_error + response, 's, 'cert, 'pool) client \<Rightarrow> 's client_conn \<Rightarrow> issue_token_request \<Rightarrow> outgoing \<Rightarrow>
   's \<Rightarrow> (go_error + response) \<times> 's" where
  "client_IssueToken cl cc req = client_chain (cl_interceptors cl) (stub_IssueToken cc req)"

definition client_RefreshToken ::
  "(go_error + response, 's, 'cert, 'pool) client \<Rightarrow> 's client_conn \<Rightarrow> refresh_token_request \<Rightarrow> outgoing \<Rightarrow>
   's \<Rightarrow> (go_error + response) \<times> 's" where
  "client_RefreshToken cl cc req = client_chain (cl_interceptors cl) (stub_RefreshToken cc req)"

text \<open>Metadata of a caller that leaves the client's and the service's own keys alone.\<close>

definition plain_md :: "outgoing \<Rightarrow> bool" where
  "plain_md md \<longleftrightarrow> (\<forall>(k, v) \<in> set md. k \<noteq> MetadataKeyAPIKey)"

text \<open>The idempotency key a call carries: the first one.\<close>

definition sent_key :: "outgoing \<Rightarrow> string" where
  "sent_key md = (case map snd (filter (\<lambda>(k, v). k = MetadataKeyIdempotencyKey) md) of [] \<Rightarrow> '''' | v # _ \<Rightarrow> v)"

text \<open>What such an issuance is to the service's idempotency interceptor.\<close>

definition issue_class :: "outgoing \<Rightarrow> issue_token_request \<Rightarrow> idem_class" where
  "issue_class md r =
     keyed_by (i_tenant_id r) idempotencyMethodIssue (sent_key md) (i_idempotency_key r)
       (computeIssueFingerprint r)"


section \<open>Deployments\<close>

locale deployment = idempotency_store st db ttl pendingTTL + token_source uuid db
  for st :: "'a world_scheme idempotency_store" and db ttl pendingTTL uuid +
  fixes cl :: "(go_error + response, 'a world_scheme, 'cert, 'pool) client"
    and cc :: "'a world_scheme client_conn" and svc :: "'a world_scheme handler"
    and keys :: "string str_map" and key :: string and identity :: string
    and permitted :: is_permitted and pc :: codec
  assumes client_key: "cl_interceptors cl = [staticKeyInterceptor key]"
    and known: "map_of keys key = Some identity" "identity \<noteq> ''''"
    and serves: "\<And>req m md s. full_method req = Some m \<Longrightarrow>
      \<exists>deliver c s1 s3. delivers deliver \<and> incoming_md c = Some (deliver md) \<and> time_only s s1 \<and>
        (let run = chain (service_chain uuid (StaticKeyAuthenticate keys) permitted pc st) m svc c req s1
         in cc m req md s = (fst run, s3) \<and> time_only (snd run) s3)"
    and up: "reachable st" and codec: "codec_ok pc"
    and svc_time: "time_passes svc"
    and pairs: "svc c (IssueReq r) s = (Inr resp, s') \<Longrightarrow> \<exists>p b. resp = PairResp p \<and> pb_marshal pc p = Inr b"
    and own_keys: "has_prefix k (idempotencyRedisPrefix @ idempotencyKeySep) \<Longrightarrow>
      db (snd (svc c req s)) k = db s k"
begin

lemma correlated_frame:
  assumes "correlated uuid c s = (i, s')"
  shows "clock s \<le> clock s' \<and> db s' = db s"
  using assms uuid_frame by (auto simp: correlated_def split: if_splits)

lemma time_only_db: "time_only s s' \<Longrightarrow> db s' = db s"
  using st_rest [of s' s] by (simp add: time_only_def)

text \<open>The key arrives, and so does the idempotency key.\<close>

lemma delivered:
  assumes "delivers deliver" and "plain_md md" and "incoming_md c = Some (deliver (md @ [(MetadataKeyAPIKey, key)]))"
  shows "StaticKeyAuthenticate keys c = Inr identity" and "header_key c = sent_key md"
proof -
  have "filter (\<lambda>(k, v). k = MetadataKeyAPIKey) md = []"
    using assms(2) by (auto simp: plain_md_def filter_empty_conv)
  then have "md_get (deliver (md @ [(MetadataKeyAPIKey, key)])) MetadataKeyAPIKey = [key]"
    using assms(1) by (simp add: delivers_def)
  with assms(3) known show "StaticKeyAuthenticate keys c = Inr identity"
    by (simp add: StaticKeyAuthenticate_def)
  have "MetadataKeyAPIKey \<noteq> MetadataKeyIdempotencyKey"
    by (simp add: MetadataKeyAPIKey_def MetadataKeyIdempotencyKey_def)
  with assms(1,3) show "header_key c = sent_key md"
    by (simp add: header_key_def sent_key_def delivers_def)
qed

text \<open>A call of the client is the idempotency interceptor's on the caller's request.\<close>

lemma call_served:
  assumes m: "full_method req = Some m" and md: "plain_md md"
    and perm: "permitted identity (case GetTenantId req of None \<Rightarrow> '''' | Some t \<Rightarrow> t) = (True, None)"
    and wf: "well_formed_request req"
    and run: "client_chain (cl_interceptors cl) (cc m req) md s = (r, s')"
  obtains c t t' where "clock s \<le> clock t" and "db t = db s" and "header_key c = sent_key md"
    and "NewIdempotencyInterceptor pc st m svc c req t = (r, t')"
    and "db s' = db t'" and "clock t' \<le> clock s'"
proof -
  let ?md = "md @ [(MetadataKeyAPIKey, key)]"
  let ?chain = "chain (service_chain uuid (StaticKeyAuthenticate keys) permitted pc st) m svc"
  have sent: "cc m req ?md s = (r, s')"
    using run by (simp add: client_key staticKeyInterceptor_def MetadataKeyAPIKey_def)
  from serves [OF m, of ?md s] obtain deliver c s1 s3 where
    d: "delivers deliver" "incoming_md c = Some (deliver ?md)" and s1: "time_only s s1"
    and r: "cc m req ?md s = (fst (?chain c req s1), s3)" "time_only (snd (?chain c req s1)) s3"
    by (auto simp: Let_def)
  note auth = delivered [OF d(1) md d(2)]
  let ?c = "WithCallerIdentity (WithCorrelationID c (fst (correlated uuid c s1))) identity"
  obtain t where t: "only_logged (snd (correlated uuid c s1)) t"
    and served: "fst (?chain c req s1) = fst (NewIdempotencyInterceptor pc st m svc ?c req t)"
      "only_logged (snd (NewIdempotencyInterceptor pc st m svc ?c req t)) (snd (?chain c req s1))"
    using chain_run [of "StaticKeyAuthenticate keys" c identity permitted req uuid s1 pc st m svc,
        OF credentials_read(2) auth(1) known(2) perm wf]
    by (auto simp: Let_def)
  obtain r' t' where inner: "NewIdempotencyInterceptor pc st m svc ?c req t = (r', t')" by fastforce
  obtain i u where u: "correlated uuid c s1 = (i, u)" by fastforce
  from correlated_frame [OF u] t s1 time_only_db [OF s1] db_logged [OF t] u
  have "clock s \<le> clock t" "db t = db s" by (auto simp: only_logged_def time_only_def)
  moreover have "header_key ?c = sent_key md" using auth(2) by (simp add: header_key_def)
  moreover have "r' = r" "s3 = s'" using sent r(1) served(1) inner by simp_all
  moreover have "db s' = db t'" "clock t' \<le> clock s'"
    using r(2) served(2) inner time_only_db [OF r(2)] db_logged [OF served(2)] \<open>s3 = s'\<close>
    by (auto simp: only_logged_def time_only_def)
  ultimately show thesis using that inner by metis
qed

text \<open>A governed call leaves every other key as its handler does.\<close>

lemma claim_frame:
  assumes "\<And>c s. db (snd (h c req s)) k = db s k" and "k \<noteq> rk"
  shows "db (snd (claim_and_run pc st m h c req rk fp s)) k = db s k"
proof -
  have logged: "db (emit e s) = db s" for e s by (rule db_logged) simp
  have promote: "db (promote pc st c rk fp resp s) k = db s k" for resp s
    using st_frame(3) assms(2) by (auto simp: promote_def logged split: response.split sum.split prod.split option.split)
  have won: "db (snd (won_claim pc st m h c req rk fp s)) k = db s k" for s
    using assms(1) [of c s] promote by (auto simp: won_claim_def logged split: prod.splits sum.splits)
  have lost: "db (snd (lost_claim pc st m c rk fp s)) k = db s k" for s
    using st_frame(1) by (auto simp: lost_claim_def logged split: prod.splits sum.splits option.splits)
  show ?thesis
    using st_frame(2) assms(2) won lost
    by (fastforce simp: claim_and_run_def logged split: prod.splits sum.splits)
qed

text \<open>Time passes during a governed call.\<close>

lemma claim_time:
  assumes "time_passes h"
  shows "clock s \<le> clock (snd (claim_and_run pc st m h c req rk fp s))"
proof -
  have won: "clock t \<le> clock (snd (won_claim pc st m h c req rk fp t))" for t
    using won_claim_clock [OF assms] by (metis prod.collapse)
  have lost: "clock t \<le> clock (snd (lost_claim pc st m c rk fp t))" for t
    using st_frame(1) by (fastforce simp: lost_claim_def call_frame_def split: prod.splits sum.splits option.splits)
  obtain r t where t: "st_setnx st c rk idempotencyPendingRecord s = (r, t)" by fastforce
  then have "clock s \<le> clock t" using st_frame(2) by (simp add: call_frame_def)
  with t won [of t] lost [of t] won [of "log_warn c ''idempotency store SetNX (claim) error; proceeding without concurrent-claim protection''
      [AStr ''error'', AErr e] t" for e]
  show ?thesis by (force simp: claim_and_run_def split: sum.splits intro: order_trans)
qed


text \<open>What an issuance on a free key answers with: the pair of its handler.\<close>

lemma issued_pair:
  assumes "idem_class grpcMethodIssueToken c (IssueReq r) = Keyed rk fp"
    and "live (db s) (clock s) rk = None"
    and "NewIdempotencyInterceptor pc st grpcMethodIssueToken svc c (IssueReq r) s = (Inr q, s')"
  obtains p b where "q = PairResp p" and "pb_marshal pc p = Inr b"
proof -
  from interceptor_keyed [OF assms(1)] assms(3) obtain t where t: "only_logged s t"
    "claim_and_run pc st grpcMethodIssueToken svc c (IssueReq r) rk fp t = (Inr q, s')" by metis
  have "live (db t) (clock t) rk = None"
    using assms(2) db_logged [OF t(1)] t(1) by (simp add: only_logged_def)
  from free_claim_won [OF this] t(2) obtain u where
    "won_claim pc st grpcMethodIssueToken svc c (IssueReq r) rk fp u = (Inr q, s')" by metis
  then obtain v where "svc c (IssueReq r) u = (Inr q, v)"
    by (auto simp: won_claim_def split: prod.splits sum.splits)
  from pairs [OF this] that show thesis by blast
qed

text \<open>
  An issuance with an idempotency key.  In the lemmas below, \<open>rk\<close> is the store key and \<open>fp\<close> the
  fingerprint of the call.
\<close>

lemma issue_governed:
  assumes md: "plain_md md" and perm: "permitted identity (i_tenant_id r) = (True, None)"
    and wf: "well_formed_request (IssueReq r)" and keyed: "issue_class md r = Keyed rk fp"
    and run: "client_IssueToken cl cc r md s = (res, s')"
  obtains c t t' where "clock s \<le> clock t" and "db t = db s"
    and "idem_class grpcMethodIssueToken c (IssueReq r) = Keyed rk fp"
    and "NewIdempotencyInterceptor pc st grpcMethodIssueToken svc c (IssueReq r) t = (res, t')"
    and "db s' = db t'" and "clock t' \<le> clock s'"
proof -
  have m: "full_method (IssueReq r) = Some grpcMethodIssueToken"
    by (simp add: idempotency_method_names)
  have run': "client_chain (cl_interceptors cl) (cc grpcMethodIssueToken (IssueReq r)) md s = (res, s')"
    using run by (simp add: client_IssueToken_def stub_IssueToken_def idempotency_method_names)
  have perm': "permitted identity (case GetTenantId (IssueReq r) of None \<Rightarrow> '''' | Some t \<Rightarrow> t) = (True, None)"
    using perm by simp
  from call_served [OF m md perm' wf run'] obtain c t t' where
    t: "clock s \<le> clock t" "db t = db s" "header_key c = sent_key md"
      "NewIdempotencyInterceptor pc st grpcMethodIssueToken svc c (IssueReq r) t = (res, t')"
      "db s' = db t'" "clock t' \<le> clock s'" .
  moreover have "idem_class grpcMethodIssueToken c (IssueReq r) = Keyed rk fp"
    using keyed t(3) by (simp add: idem_class_def issue_class_def)
  ultimately show thesis using that by blast
qed

lemma issue_frame:
  assumes "plain_md md" and "permitted identity (i_tenant_id r) = (True, None)"
    and "well_formed_request (IssueReq r)" and "issue_class md r = Keyed rk fp"
    and "client_IssueToken cl cc r md s = (res, s')"
  shows "clock s \<le> clock s'"
    and "has_prefix k (idempotencyRedisPrefix @ idempotencyKeySep) \<Longrightarrow> k \<noteq> rk \<Longrightarrow> db s' k = db s k"
proof -
  from issue_governed [OF assms] obtain c t t' where
    t: "clock s \<le> clock t" "db t = db s" "idem_class grpcMethodIssueToken c (IssueReq r) = Keyed rk fp"
      "NewIdempotencyInterceptor pc st grpcMethodIssueToken svc c (IssueReq r) t = (res, t')"
      "db s' = db t'" "clock t' \<le> clock s'" .
  from interceptor_keyed [OF t(3)] t(4) obtain t1 where t1: "only_logged t t1"
    "claim_and_run pc st grpcMethodIssueToken svc c (IssueReq r) rk fp t1 = (res, t')" by metis
  have "clock t1 \<le> clock t'"
    using claim_time [OF svc_time] t1(2) by (metis snd_conv)
  with t(1,6) t1(1) show "clock s \<le> clock s'" by (simp add: only_logged_def)
  assume "has_prefix k (idempotencyRedisPrefix @ idempotencyKeySep)" and "k \<noteq> rk"
  then have "db (snd (claim_and_run pc st grpcMethodIssueToken svc c (IssueReq r) rk fp t1)) k = db t1 k"
    by (intro claim_frame own_keys)
  then have "db t' k = db t1 k" by (simp add: t1(2))
  with t(2,5) db_logged [OF t1(1)] show "db s' k = db s k" by simp
qed

lemma issue_record:
  assumes "plain_md md" and "permitted identity (i_tenant_id r) = (True, None)"
    and "well_formed_request (IssueReq r)" and "issue_class md r = Keyed rk fp"
    and free: "live (db s) (clock s) rk = None"
    and run: "client_IssueToken cl cc r md s = (Inr q, s')" and soon: "t - clock s < lifetime ttl"
  shows "live (db s') t rk \<noteq> None"
proof -
  from issue_governed [OF assms(1-4) run] obtain c t t' where
    t: "clock s \<le> clock t" "db t = db s" "idem_class grpcMethodIssueToken c (IssueReq r) = Keyed rk fp"
      "NewIdempotencyInterceptor pc st grpcMethodIssueToken svc c (IssueReq r) t = (Inr q, t')"
      "db s' = db t'" "clock t' \<le> clock s'" .
  have free': "live (db t) (clock t) rk = None" unfolding t(2) using free t(1) by (rule live_expired)
  from issued_pair [OF t(3) free' t(4)] obtain p b where q: "q = PairResp p" "pb_marshal pc p = Inr b" .
  with free' obtain v u where "db t' rk = Some (v, expiry u ttl)" "clock t \<le> u"
    using fresh_call_record [OF idempotency_store_axioms up _ t(3) _ t(4) [unfolded q(1)]] svc_time by blast
  with t(1,5) soon show ?thesis by (simp add: live_def expiry_def lifetime_def)
qed


text \<open>The second of two equal issuances, and the second of two that share their key only.\<close>

lemma issue_again:
  assumes call: "plain_md md" "permitted identity (i_tenant_id r) = (True, None)"
      "well_formed_request (IssueReq r)" "issue_class md r = Keyed rk fp"
    and free: "live (db s) (clock s) rk = None"
    and first: "client_IssueToken cl cc r md s = (Inr q, s1)"
    and second: "client_IssueToken cl cc r md s1 = (res, s2)"
    and live: "live (db s1) (clock s2) rk \<noteq> None"
  shows "res = Inr q"
proof -
  from issue_governed [OF call first] obtain c t t' where
    t: "clock s \<le> clock t" "db t = db s" "idem_class grpcMethodIssueToken c (IssueReq r) = Keyed rk fp"
      "NewIdempotencyInterceptor pc st grpcMethodIssueToken svc c (IssueReq r) t = (Inr q, t')"
      "db s1 = db t'" .
  from issue_governed [OF call second] obtain c' u u' where
    u: "db u = db s1" "idem_class grpcMethodIssueToken c' (IssueReq r) = Keyed rk fp"
      "NewIdempotencyInterceptor pc st grpcMethodIssueToken svc c' (IssueReq r) u = (res, u')"
      "clock u' \<le> clock s2" .
  have "live (db t) (clock t) rk = None" unfolding t(2) using free t(1) by (rule live_expired)
  from issued_pair [OF t(3) this t(4)] obtain p b where q: "q = PairResp p" and b: "pb_marshal pc p = Inr b" .
  have "live (db u) (clock u') rk \<noteq> None"
    using live live_mono [OF _ u(4)] by (auto simp: u(1))
  moreover have "db u rk = db t' rk" by (simp add: u(1) t(5))
  ultimately show ?thesis
    using retry_answers [OF idempotency_store_axioms up codec b t(3) t(4) [unfolded q] u(2,3) svc_time]
    by (simp add: q)
qed

lemma issue_other:
  assumes call: "plain_md md" "permitted identity (i_tenant_id r) = (True, None)"
      "well_formed_request (IssueReq r)" "issue_class md r = Keyed rk fp"
    and call': "permitted identity (i_tenant_id r') = (True, None)"
      "well_formed_request (IssueReq r')" "issue_class md r' = Keyed rk fp'"
    and free: "live (db s) (clock s) rk = None"
    and first: "client_IssueToken cl cc r md s = (Inr q, s1)"
    and second: "client_IssueToken cl cc r' md s1 = (res, s2)"
    and content: "issue_ok r" "issue_ok r'" "issue_content r \<noteq> issue_content r'"
    and live: "live (db s1) (clock s2) rk \<noteq> None"
  shows "res = Inl (StatusErr FailedPrecondition idempotencyFingerprintMismatchMsg) \<or>
    collision (issueFingerprintInput r) (issueFingerprintInput r')"
proof -
  from issue_governed [OF call first] obtain c t t' where
    t: "clock s \<le> clock t" "db t = db s" "idem_class grpcMethodIssueToken c (IssueReq r) = Keyed rk fp"
      "NewIdempotencyInterceptor pc st grpcMethodIssueToken svc c (IssueReq r) t = (Inr q, t')"
      "db s1 = db t'" .
  from issue_governed [OF call(1) call' second] obtain c' u u' where
    u: "db u = db s1" "idem_class grpcMethodIssueToken c' (IssueReq r') = Keyed rk fp'"
      "NewIdempotencyInterceptor pc st grpcMethodIssueToken svc c' (IssueReq r') u = (res, u')"
      "clock u' \<le> clock s2" .
  have free': "live (db t) (clock t) rk = None" unfolding t(2) using free t(1) by (rule live_expired)
  from issued_pair [OF t(3) free' t(4)] obtain p b where q: "q = PairResp p" and b: "pb_marshal pc p = Inr b" .
  have "live (db u) (clock u') rk \<noteq> None"
    using live live_mono [OF _ u(4)] by (auto simp: u(1))
  moreover have "db u rk = db t' rk" by (simp add: u(1) t(5))
  ultimately show ?thesis
    using reuse_refused [OF idempotency_store_axioms up codec b t(3) free' t(4) [unfolded q] u(2,3) svc_time content]
    by blast
qed

end


section \<open>The service as a deployment\<close>

text \<open>
  The service that \<^verbatim>\<open>cmd/token-engine\<close> registers, behind a connection that gets calls through,
  is a deployment for a client made with WithPlaintext and WithStaticKey.  The laws of the
  managers: their calls take time, and leave the interceptor's store keys alone, and the tokens
  they issue are valid UTF-8, as a JWT is.  The law of the codec: a pair of such tokens can be
  marshalled, which protobuf refuses of others.
\<close>

definition issues_text :: "'a world_scheme lookup \<Rightarrow> bool" where
  "issues_text get \<longleftrightarrow>
     (\<forall>c t m c' sub cl aud s a r s'. get c t = Inr m \<longrightarrow> tm_issue_pair m c' sub cl aud s = (Inr (a, r), s') \<longrightarrow>
        valid_utf8 a \<and> valid_utf8 r)"

definition marshals_text :: "codec \<Rightarrow> bool" where
  "marshals_text pc \<longleftrightarrow>
     (\<forall>p. valid_utf8 (access_token p) \<longrightarrow> valid_utf8 (refresh_token p) \<longrightarrow> (\<exists>b. pb_marshal pc p = Inr b))"


definition spares :: "('a world_scheme \<Rightarrow> db) \<Rightarrow> 'a world_scheme \<Rightarrow> 'a world_scheme \<Rightarrow> bool" where
  "spares db s t \<longleftrightarrow> clock s \<le> clock t \<and>
     (\<forall>k. has_prefix k (idempotencyRedisPrefix @ idempotencyKeySep) \<longrightarrow> db t k = db s k)"

definition managers_ok ::
  "('a world_scheme \<Rightarrow> db) \<Rightarrow> 'a world_scheme lookup \<Rightarrow> 'a world_scheme audit_store \<Rightarrow>
   'a world_scheme handler \<Rightarrow> bool" where
  "managers_ok db get a other \<longleftrightarrow>
     lookup_steps (spares db) get \<and> audit_steps (spares db) a \<and> handler_steps (spares db) other"

lemma service_spares:
  assumes "idempotency_store st db ttl pendingTTL" and "managers_ok db get a other"
  shows "handler_steps (spares db) (token_service get a other)"
proof (rule service_steps)
  show "steps (spares db)"
    unfolding steps_def spares_def
    using idempotency_store.db_logged [OF assms(1) only_logged_emit] by auto
qed (use assms(2) in \<open>simp_all add: managers_ok_def\<close>)

lemma IssueToken_pair:
  assumes "IssueToken get c r s = (Inr p, s')"
  shows "\<exists>m sub cl aud s1 s2. get c (i_tenant_id r) = Inr m \<and>
    tm_issue_pair m c sub cl aud s1 = (Inr (access_token p, refresh_token p), s2)"
  using assms by (auto simp: IssueToken_def fail_with_def Let_def split: handler_splits) metis+

lemma issue_pairs:
  assumes "issues_text get" and "marshals_text pc"
    and "token_service get a other c (IssueReq r) s = (Inr resp, s')"
  shows "\<exists>p b. resp = PairResp p \<and> pb_marshal pc p = Inr b"
proof -
  obtain p where p: "resp = PairResp p" "IssueToken get c r s = (Inr p, s')"
    using assms(3)
    by (cases "IssueToken get c r s"; cases "fst (IssueToken get c r s)") (auto simp: token_service_def)
  from IssueToken_pair [OF p(2)] assms(1) have "valid_utf8 (access_token p) \<and> valid_utf8 (refresh_token p)"
    unfolding issues_text_def by blast
  with p(1) assms(2) show ?thesis unfolding marshals_text_def by blast
qed

lemma plain_client:
  assumes "NewClient ext dial addr [WithPlaintext, WithStaticKey key] = Inr cl" and "key \<noteq> ''''"
  shows "cl_interceptors cl = [staticKeyInterceptor key]"
  using NewClient_Inr(2) [OF assms(1)] assms(2) by (simp add: default_dial_config_def)

lemma service_deployment:
  fixes st :: "'a world_scheme idempotency_store"
  assumes contract: "idempotency_store st db ttl pendingTTL" and ids: "token_source uuid db"
    and client: "cl_interceptors cl = [staticKeyInterceptor key]"
    and known: "map_of keys key = Some identity" "identity \<noteq> ''''"
    and conn: "routes_by_name route" "wire_ok w" "delivers deliver"
      "connected cc deliver route w (TokenEngine_Methods w panic (NewTokenHandler get a))
         (chain (service_chain uuid (StaticKeyAuthenticate keys) permitted pc st))"
    and up: "reachable st" and codec: "codec_ok pc" "marshals_text pc"
    and managers: "managers_ok db get a other" "issues_text get"
  shows "deployment st db ttl pendingTTL uuid cl cc (token_service get a other) keys key identity permitted pc"
proof (intro deployment.intro deployment_axioms.intro contract ids client known up codec(1))
  let ?chain = "chain (service_chain uuid (StaticKeyAuthenticate keys) permitted pc st)"
  note frame = service_spares [OF contract managers(1), unfolded handler_steps_def spares_def]
  show "time_passes (token_service get a other)" using frame by (simp add: time_passes_def)
  show "db (snd (token_service get a other c req s)) k = db s k"
    if "has_prefix k (idempotencyRedisPrefix @ idempotencyKeySep)" for c req s k
    using frame that by blast
  show "\<exists>p b. resp = PairResp p \<and> pb_marshal pc p = Inr b"
    if "token_service get a other c (IssueReq r) s = (Inr resp, s')" for c r s resp s'
    using managers(2) codec(2) that by (rule issue_pairs)
  fix req m md s
  assume m: "full_method req = Some m"
  from handler_dispatch [OF conn(1,2) m, of panic get a other] obtain hdl where
    hdl: "route TokenEngine_ServiceName (TokenEngine_Methods w panic (NewTokenHandler get a)) m = Some hdl"
      "\<And>c s. hdl c (wr_encode w req) (Some ?chain) s = ?chain m (token_service get a other) c req s"
    using service_chain_passes by blast
  from conn(4) [unfolded connected_def, rule_format, OF hdl(1), of md s req]
  show "\<exists>deliver c s1 s3. delivers deliver \<and> incoming_md c = Some (deliver md) \<and> time_only s s1 \<and>
      (let run = ?chain m (token_service get a other) c req s1
       in cc m req md s = (fst run, s3) \<and> time_only (snd run) s3)"
    using conn(3) unfolding hdl(2) Let_def by blast
qed


section \<open>A service in memory\<close>

text \<open>
  A connection that hands each call to the server at once, and a service with one tenant whose
  manager never issues the same token twice: with them the laws hold.
\<close>

definition direct_conn ::
  "(outgoing \<Rightarrow> string list str_map) \<Rightarrow> 'a world_scheme route \<Rightarrow> wire \<Rightarrow>
   'a world_scheme method_desc list \<Rightarrow> 'a world_scheme interceptor \<Rightarrow> 'a world_scheme client_conn" where
  "direct_conn deliver route w methods i m req md s =
     (case route TokenEngine_ServiceName methods m of
        None \<Rightarrow> (Inl (StatusErr Unimplemented ''unknown method''), s)
      | Some hdl \<Rightarrow> hdl (background\<lparr>incoming_md := Some (deliver md)\<rparr>) (wr_encode w req) (Some i) s)"

lemma direct_connected: "connected (direct_conn deliver route w methods i) deliver route w methods i"
  unfolding connected_def
proof (intro allI impI)
  fix m req md s hdl
  assume hdl: "route TokenEngine_ServiceName methods m = Some hdl"
  let ?c = "background\<lparr>incoming_md := Some (deliver md)\<rparr>"
  let ?run = "hdl ?c (wr_encode w req) (Some i) s"
  show "\<exists>c s1 s3. incoming_md c = Some (deliver md) \<and> time_only s s1 \<and>
      direct_conn deliver route w methods i m req md s = (fst (hdl c (wr_encode w req) (Some i) s1), s3) \<and>
      time_only (snd (hdl c (wr_encode w req) (Some i) s1)) s3"
    by (intro exI [of _ ?c] exI [of _ s] exI [of _ "snd ?run"])
      (simp add: direct_conn_def hdl time_only_def)
qed

definition counting_manager :: "'b lock_world_scheme token_manager" where
  "counting_manager = ok_manager\<lparr>tm_issue_pair := (\<lambda>c sub m a s.
     (Inr (fst (mem_uuid s), ''refresh''), snd (mem_uuid s)))\<rparr>"

definition one_tenant :: "string \<Rightarrow> tenants" where
  "one_tenant t = [(t, \<lparr>manager = 0, km = 0, backfiller = 0, draining = False\<rparr>)]"

definition mem_keys :: "string str_map" where
  "mem_keys = [(''example-key'', ''dev''), (''devkey'', ''dev'')]"

abbreviation mem_lookup :: "string \<Rightarrow> 'b lock_world_scheme lookup" where
  "mem_lookup t \<equiv> lookup_manager (\<lambda>_. counting_manager) (one_tenant t)"

definition mem_other :: "'s handler" where
  "mem_other c req s = (Inr OtherResp, s)"

definition mem_conn :: "string \<Rightarrow> 'b lock_world_scheme client_conn" where
  "mem_conn t = direct_conn plain_delivery name_route plain_wire
     (TokenEngine_Methods plain_wire mem_other (NewTokenHandler (mem_lookup t) NewNoOpAuditStore))
     (chain (service_chain mem_uuid (StaticKeyAuthenticate mem_keys) NoOpIsPermitted plain_codec mem_store))"

lemma counting_steps: "tm_steps (spares mem_db) counting_manager"
  by (simp add: tm_steps_def counting_manager_def ok_manager_def spares_def mem_uuid_def)

lemma mem_lookup_manager: "mem_lookup t c t' = Inr m \<Longrightarrow> m = counting_manager"
  by (auto simp: lookup_manager_def map_sum.simps dest!: sym [of _ "Inr m"] split: sum.splits)
    (metis Inr_inject map_sum.simps sum.exhaust sum.distinct(1))

lemma mem_managers: "managers_ok mem_db (mem_lookup t) NewNoOpAuditStore mem_other"
proof -
  have "lookup_steps (spares mem_db) (mem_lookup t)"
    using counting_steps mem_lookup_manager by (auto simp: lookup_steps_def)
  then show ?thesis
    by (simp add: managers_ok_def audit_steps_def handler_steps_def mem_other_def NewNoOpAuditStore_def
        spares_def)
qed

lemma mem_text: "issues_text (mem_lookup t)"
proof -
  have "valid_utf8 (fst (mem_uuid s))" "valid_utf8 ''refresh''" for s :: "'b lock_world_scheme"
    by (rule valid_utf8_ascii; auto simp: mem_uuid_def split: if_splits)+
  moreover have "tm_issue_pair counting_manager c sub cl aud s = (Inr (fst (mem_uuid s), ''refresh''), snd (mem_uuid s))"
    for c sub cl aud and s :: "'b lock_world_scheme" by (simp add: counting_manager_def)
  ultimately show ?thesis
    unfolding issues_text_def using mem_lookup_manager by (metis Inr_inject Pair_inject)
qed

lemma plain_marshals: "marshals_text plain_codec"
  using plain_marshal by (simp add: marshals_text_def del: valid_utf8.simps)

text \<open>The client's own side: options, connection, and the deployment that results.\<close>

definition mem_client ::
  "string \<Rightarrow> (go_error + response, 'b lock_world_scheme, unit, unit) client" where
  "mem_client key = \<lparr>cl_addr = ''localhost:9090'', cl_creds = Plaintext,
     cl_minConnectTimeout = 10 * nsSecond, cl_interceptors = [staticKeyInterceptor key]\<rparr>"

lemma mem_NewClient:
  assumes "key \<noteq> ''''"
  shows "NewClient no_tls (\<lambda>_. None) ''localhost:9090'' [WithPlaintext, WithStaticKey key] =
    Inr (mem_client key)"
  using assms by (simp add: NewClient_def default_dial_config_def mem_client_def)

interpretation mem_deployment: deployment
  "mem_store :: 'b lock_world_scheme idempotency_store" mem_db "24 * nsHour" "30 * nsSecond" mem_uuid
  "mem_client ''devkey''" "mem_conn t" "token_service (mem_lookup t) NewNoOpAuditStore mem_other"
  mem_keys "''devkey''" "''dev''" NoOpIsPermitted plain_codec for t
proof (rule service_deployment)
  show "idempotency_store mem_store mem_db (24 * nsHour) (30 * nsSecond)" by (rule mem_store_contract)
  show "token_source mem_uuid mem_db" by (rule mem_lock.token_source_axioms)
  show "cl_interceptors (mem_client ''devkey'') = [staticKeyInterceptor ''devkey'']"
    by (simp add: mem_client_def)
  show "map_of mem_keys ''devkey'' = Some ''dev''" "''dev'' \<noteq> ''''" by (simp_all add: mem_keys_def)
  show "connected (mem_conn t) plain_delivery name_route plain_wire
      (TokenEngine_Methods plain_wire mem_other (NewTokenHandler (mem_lookup t) NewNoOpAuditStore))
      (chain (service_chain mem_uuid (StaticKeyAuthenticate mem_keys) NoOpIsPermitted plain_codec mem_store))"
    unfolding mem_conn_def by (rule direct_connected)
  show "reachable mem_store" by (rule mem_store_reachable)
qed (fact name_route plain_wire plain_delivery plain_codec_ok plain_marshals mem_managers mem_text)+

end
