(* ===== verification/Examples.thy ===== *)
theory Examples
  imports Rpc_Calls
begin

text \<open>
  The programs under \<^verbatim>\<open>examples/idempotency\<close> and \<^verbatim>\<open>examples/multi-tenant\<close>, clients of the
  service through the Go SDK.

  A program prints, and either returns or ends in \<^verbatim>\<open>log.Fatalf\<close>, which exits without running
  the deferred calls.  The deadline a program puts on a call's context belongs to the connection:
  a call that runs into it is one that fails.  Cancelling the context of a call that has returned
  has no effect.
\<close>


section \<open>Programs\<close>

datatype printed = Stdout string | Log string

text \<open>How a program stops short of returning.\<close>

datatype stop = Fatal string | Panicked

type_synonym 's prog = "'s \<Rightarrow> (printed list \<times> stop option) \<times> 's"

definition println :: "string \<Rightarrow> printed" where
  "println l = Stdout (l @ [CHR 0x0A])"

definition fatal :: "printed list \<Rightarrow> string \<Rightarrow> 's \<Rightarrow> (printed list \<times> stop option) \<times> 's" where
  "fatal out msg s = ((out, Some (Fatal msg)), s)"

definition returns :: "printed list \<Rightarrow> 's prog" where
  "returns out s = ((out, None), s)"

definition and_then :: "'s prog \<Rightarrow> 's prog \<Rightarrow> 's prog" where
  "and_then p q s =
     (case p s of
        ((out, Some stop), s1) \<Rightarrow> ((out, Some stop), s1)
      | ((out, None), s1) \<Rightarrow> (case q s1 of ((out', f), s2) \<Rightarrow> ((out @ out', f), s2)))"

text \<open>A body with a deferred \<^verbatim>\<open>Close\<close> of a client: it runs on a return and on a panic.\<close>

definition deferring_close :: "string \<Rightarrow> ('s \<Rightarrow> go_error option \<times> 's) \<Rightarrow> 's prog \<Rightarrow> 's prog" where
  "deferring_close label conn_close p s =
     (case p s of
        ((out, f), s1) \<Rightarrow>
          (case f of
             Some (Fatal msg) \<Rightarrow> ((out, f), s1)
           | _ \<Rightarrow>
               (case Close (Some conn_close) s1 of
                  (Some err, s2) \<Rightarrow> ((out @ [Log (label @ '': '' @ error_string err)], f), s2)
                | (None, s2) \<Rightarrow> ((out, f), s2))))"

definition envOrDefault :: "(string \<Rightarrow> string) \<Rightarrow> string \<Rightarrow> string \<Rightarrow> string" where
  "envOrDefault env key def = (if env key \<noteq> '''' then env key else def)"

text \<open>\<^verbatim>\<open>%v\<close> of a bool, and of the errors of \<^verbatim>\<open>client.NewClient\<close>.\<close>

definition bool_string :: "bool \<Rightarrow> string" where
  "bool_string b = (if b then ''true'' else ''false'')"

fun client_error_string :: "client_error \<Rightarrow> string" where
  "client_error_string ErrNoCredentials = ''no transport credentials: use WithMTLS or WithPlaintext''"
| "client_error_string ErrInvalidCA = ''CA certificate PEM could not be parsed''"
| "client_error_string (LoadKeyPairFailed err) = ''load client cert/key: '' @ error_string err"
| "client_error_string (ReadCAFailed err) = ''read CA file: '' @ error_string err"
| "client_error_string (DialFailed addr err) = ''dial '' @ addr @ '': '' @ error_string err"

text \<open>What a program reaches by an address: the connection, and how it is closed.\<close>

record 's peer_conn =
  pc_dial :: "go_error option"
  pc_conn :: "'s client_conn"
  pc_close :: "'s \<Rightarrow> go_error option \<times> 's"

type_synonym 's network = "string \<Rightarrow> 's peer_conn"

definition GetAccessToken :: "response \<Rightarrow> string" where
  "GetAccessToken r = (case r of PairResp p \<Rightarrow> access_token p | _ \<Rightarrow> '''')"

definition GetRefreshToken :: "response \<Rightarrow> string" where
  "GetRefreshToken r = (case r of PairResp p \<Rightarrow> refresh_token p | _ \<Rightarrow> '''')"


section \<open>The idempotency example\<close>

definition idempotentCtx :: "string \<Rightarrow> outgoing" where
  "idempotentCtx key = [(''x-idempotency-key'', key)]"

text \<open>The lines the program prints.\<close>

definition retry_title :: printed where
  "retry_title = println (''=== 1. Same key, same content '' @ em_dash @ '' retry returns the cached response ==='')"

definition first_token :: "string \<Rightarrow> printed" where
  "first_token token = println (''first call:  access_token='' @ token)"

definition second_token :: "string \<Rightarrow> bool \<Rightarrow> printed" where
  "second_token token same =
     println (''second call: access_token='' @ token @ '' (identical: '' @ bool_string same @ '')'' @ [CHR 0x0A])"

definition mismatch_title :: printed where
  "mismatch_title =
     println (''=== 2. Same key, different content '' @ em_dash @ '' rejected, not silently mismatched ==='')"

definition user_a_succeeds :: printed where
  "user_a_succeeds = println (''first call:  sub=user-a '' @ em_dash @ '' succeeds'')"

definition user_b_status :: "code \<Rightarrow> printed" where
  "user_b_status code =
     println (''second call: sub=user-b, same key '' @ em_dash @ '' '' @ code_string code @ [CHR 0x0A])"

definition deprecated_title :: printed where
  "deprecated_title =
     println (''=== 3. Deprecated idempotency_key field '' @ em_dash @ '' still works as a fallback ==='')"

definition deprecated_identical :: "bool \<Rightarrow> printed" where
  "deprecated_identical same =
     println (''identical: '' @ bool_string same @ '' (prefer the x-idempotency-key header for new integrations)'')"

text \<open>The messages it ends with.\<close>

definition issue_failed :: "string \<Rightarrow> go_error \<Rightarrow> string" where
  "issue_failed call err = ''IssueToken ('' @ call @ ''): '' @ error_string err"

definition not_refused :: "go_error option \<Rightarrow> string" where
  "not_refused err =
     ''expected codes.FailedPrecondition, got: '' @ (case err of None \<Rightarrow> ''<nil>'' | Some e \<Rightarrow> error_string e)"

definition retry_request :: "string \<Rightarrow> issue_token_request" where
  "retry_request tenantID = \<lparr>i_sub = ''user-retry-demo'', i_tenant_id = tenantID, i_idempotency_key = '''',
     i_claims = None, i_audiences = []\<rparr>"

definition demoRetry ::
  "(go_error + response, 's, 'cert, 'pool) client \<Rightarrow> 's client_conn \<Rightarrow> string \<Rightarrow> 's prog" where
  "demoRetry c cc tenantID s =
     (let out0 = [retry_title] in
      case client_IssueToken c cc (retry_request tenantID) (idempotentCtx ''demo-retry-key'') s of
        (Inl err, s1) \<Rightarrow> fatal out0 (issue_failed ''first'' err) s1
      | (Inr first, s1) \<Rightarrow>
          let out1 = out0 @ [first_token (GetAccessToken first)] in
      (case client_IssueToken c cc (retry_request tenantID) (idempotentCtx ''demo-retry-key'') s1 of
        (Inl err, s2) \<Rightarrow> fatal out1 (issue_failed ''second'' err) s2
      | (Inr second, s2) \<Rightarrow>
          returns (out1 @
            [second_token (GetAccessToken second) (GetAccessToken second = GetAccessToken first)]) s2))"

definition mismatch_request :: "string \<Rightarrow> string \<Rightarrow> issue_token_request" where
  "mismatch_request sub tenantID = \<lparr>i_sub = sub, i_tenant_id = tenantID, i_idempotency_key = '''',
     i_claims = None, i_audiences = []\<rparr>"

definition demoContentMismatch ::
  "(go_error + response, 's, 'cert, 'pool) client \<Rightarrow> 's client_conn \<Rightarrow> string \<Rightarrow> 's prog" where
  "demoContentMismatch c cc tenantID s =
     (let out0 = [mismatch_title] in
      case client_IssueToken c cc (mismatch_request ''user-a'' tenantID) (idempotentCtx ''demo-mismatch-key'') s of
        (Inl err, s1) \<Rightarrow> fatal out0 (issue_failed ''user-a'' err) s1
      | (Inr _, s1) \<Rightarrow>
          let out1 = out0 @ [user_a_succeeds] in
      (case client_IssueToken c cc (mismatch_request ''user-b'' tenantID) (idempotentCtx ''demo-mismatch-key'') s1 of
        (res, s2) \<Rightarrow>
          let err = (case res of Inl e \<Rightarrow> Some e | Inr _ \<Rightarrow> None);
              out2 = out1 @ [user_b_status (status_code err)]
          in
          if status_code err \<noteq> FailedPrecondition then
            fatal out2 (not_refused err) s2
          else returns out2 s2))"

definition deprecated_request :: "string \<Rightarrow> issue_token_request" where
  "deprecated_request tenantID = \<lparr>i_sub = ''user-deprecated-field-demo'', i_tenant_id = tenantID,
     i_idempotency_key = ''demo-deprecated-field-key'', i_claims = None, i_audiences = []\<rparr>"

definition demoDeprecatedField ::
  "(go_error + response, 's, 'cert, 'pool) client \<Rightarrow> 's client_conn \<Rightarrow> string \<Rightarrow> 's prog" where
  "demoDeprecatedField c cc tenantID s =
     (let out0 = [deprecated_title] in
      case client_IssueToken c cc (deprecated_request tenantID) [] s of
        (Inl err, s1) \<Rightarrow> fatal out0 (issue_failed ''first'' err) s1
      | (Inr first, s1) \<Rightarrow>
      (case client_IssueToken c cc (deprecated_request tenantID) [] s1 of
        (Inl err, s2) \<Rightarrow> fatal out0 (issue_failed ''second'' err) s2
      | (Inr second, s2) \<Rightarrow>
          returns (out0 @
            [deprecated_identical (GetAccessToken second = GetAccessToken first)]) s2))"

definition idempotency_main ::
  "('cert, 'pool) tls_files \<Rightarrow> (string \<Rightarrow> string) \<Rightarrow> 's network \<Rightarrow> 's prog" where
  "idempotency_main ext env net s =
     (let addr = envOrDefault env ''TOKEN_ENGINE_ADDR'' ''localhost:9090'';
          key = envOrDefault env ''TOKEN_ENGINE_STATIC_KEY'' ''example-key'';
          tenantID = envOrDefault env ''TOKEN_ENGINE_ISSUER'' ''local-dev''
      in
      case NewClient ext (\<lambda>a. pc_dial (net a)) addr [WithPlaintext, WithStaticKey key] of
        Inl err \<Rightarrow> fatal [] (''client.NewClient: '' @ client_error_string err) s
      | Inr c \<Rightarrow>
          let cc = pc_conn (net addr) in
          deferring_close ''close'' (pc_close (net addr))
            (and_then (demoRetry c cc tenantID)
              (and_then (demoContentMismatch c cc tenantID) (demoDeprecatedField c cc tenantID))) s)"


section \<open>What the idempotency example shows\<close>

lemma demo_metadata:
  "plain_md (idempotentCtx k)" "sent_key (idempotentCtx k) = k" "plain_md []" "sent_key [] = ''''"
  by (simp_all add: plain_md_def idempotentCtx_def sent_key_def MetadataKeyAPIKey_def
      MetadataKeyIdempotencyKey_def)

abbreviation demo_key :: "string \<Rightarrow> string \<Rightarrow> string" where
  "demo_key tenantID k \<equiv> idempotency_redis_key tenantID idempotencyMethodIssue k"

lemma demo_classes:
  assumes "t \<noteq> ''''"
  shows "issue_class (idempotentCtx ''demo-retry-key'') (retry_request t) =
      Keyed (demo_key t ''demo-retry-key'') (computeIssueFingerprint (retry_request t))"
    and "issue_class (idempotentCtx ''demo-mismatch-key'') (mismatch_request u t) =
      Keyed (demo_key t ''demo-mismatch-key'') (computeIssueFingerprint (mismatch_request u t))"
    and "issue_class [] (deprecated_request t) =
      Keyed (demo_key t ''demo-deprecated-field-key'') (computeIssueFingerprint (deprecated_request t))"
  using assms
  by (simp_all add: issue_class_def keyed_by_def demo_metadata retry_request_def mismatch_request_def
      deprecated_request_def)

lemma demo_wf:
  "well_formed_request (IssueReq (retry_request t)) \<longleftrightarrow> t \<noteq> ''''"
  "well_formed_request (IssueReq (mismatch_request u t)) \<longleftrightarrow> t \<noteq> '''' \<and> u \<noteq> ''''"
  "well_formed_request (IssueReq (deprecated_request t)) \<longleftrightarrow> t \<noteq> ''''"
  "i_tenant_id (retry_request t) = t" "i_tenant_id (mismatch_request u t) = t"
  "i_tenant_id (deprecated_request t) = t"
  by (simp_all add: retry_request_def mismatch_request_def deprecated_request_def no_reserved_def)

lemma demo_keys_differ:
  "demo_key t k = demo_key t k' \<longleftrightarrow> k = k'"
  "has_prefix (demo_key t k) (idempotencyRedisPrefix @ idempotencyKeySep)"
  by (simp_all add: idempotency_redis_key_def has_prefix_def)

lemma mismatch_contents:
  assumes "valid_utf8 t"
  shows "issue_ok (mismatch_request ''user-a'' t)" "issue_ok (mismatch_request ''user-b'' t)"
    and "issue_content (mismatch_request ''user-a'' t) \<noteq> issue_content (mismatch_request ''user-b'' t)"
proof -
  have "valid_utf8 ''user-a''" "valid_utf8 ''user-b''" by code_simp+
  with assms show "issue_ok (mismatch_request ''user-a'' t)" "issue_ok (mismatch_request ''user-b'' t)"
    by (simp_all add: issue_ok_def mismatch_request_def claims_ok_def del: valid_utf8.simps)
qed (simp add: issue_content_def mismatch_request_def)

text \<open>The calls of the three demonstrations, for a tenant the caller may use.\<close>

definition demo_call :: "string \<Rightarrow> outgoing \<Rightarrow> issue_token_request \<Rightarrow> string \<Rightarrow> bool" where
  "demo_call t md r k \<longleftrightarrow> plain_md md \<and> i_tenant_id r = t \<and> well_formed_request (IssueReq r) \<and>
     issue_class md r = Keyed (demo_key t k) (computeIssueFingerprint r)"

lemma demo_calls:
  assumes "t \<noteq> ''''"
  shows "demo_call t (idempotentCtx ''demo-retry-key'') (retry_request t) ''demo-retry-key''"
    and "u \<noteq> '''' \<Longrightarrow>
      demo_call t (idempotentCtx ''demo-mismatch-key'') (mismatch_request u t) ''demo-mismatch-key''"
    and "demo_call t [] (deprecated_request t) ''demo-deprecated-field-key''"
  using assms demo_classes [OF assms]
  by (simp_all only: demo_call_def demo_metadata demo_wf) simp_all

text \<open>
  What the rest of a program relies on after some calls: no time is lost, and only the keys in
  \<open>ks\<close> changed.
\<close>

definition after :: "('a world_scheme \<Rightarrow> db) \<Rightarrow> string set \<Rightarrow> 'a world_scheme \<Rightarrow> 'a world_scheme \<Rightarrow> bool" where
  "after db ks s s' \<longleftrightarrow> clock s \<le> clock s' \<and>
     (\<forall>k. has_prefix k (idempotencyRedisPrefix @ idempotencyKeySep) \<longrightarrow> k \<notin> ks \<longrightarrow> db s' k = db s k)"

context deployment begin

text \<open>Two equal issuances on a free key, soon enough one after the other.\<close>

lemma twice:
  assumes call: "plain_md md" "permitted identity (i_tenant_id r) = (True, None)"
      "well_formed_request (IssueReq r)" "issue_class md r = Keyed rk fp"
    and free: "live (db s) (clock s) rk = None"
    and first: "client_IssueToken cl cc r md s = (Inr q, s1)"
    and second: "client_IssueToken cl cc r md s1 = (res, s2)"
    and soon: "clock s2 - clock s < lifetime ttl"
  shows "res = Inr q"
  using issue_again [OF call free first second issue_record [OF call free first soon]] .

lemma after_call:
  assumes "plain_md md" "permitted identity (i_tenant_id r) = (True, None)"
      "well_formed_request (IssueReq r)" "issue_class md r = Keyed rk fp"
    and "client_IssueToken cl cc r md s = (res, s')"
  shows "after db {rk} s s'"
  using issue_frame [OF assms] by (simp add: after_def)

lemma after_trans: "after db ks s t \<Longrightarrow> after db ks' t u \<Longrightarrow> after db (ks \<union> ks') s u"
  by (auto simp: after_def)

lemma after_free:
  assumes "after db ks s s'" and "k \<notin> ks" and "has_prefix k (idempotencyRedisPrefix @ idempotencyKeySep)"
    and "live (db s) (clock s) k = None"
  shows "live (db s') (clock s') k = None"
proof -
  have "db s' k = db s k" "clock s \<le> clock s'" using assms(1-3) by (simp_all add: after_def)
  with live_expired [OF assms(4)] show ?thesis by (simp add: live_def)
qed

lemma demo_governed:
  assumes "demo_call t md r k" and "permitted identity t = (True, None)"
  shows "plain_md md" "permitted identity (i_tenant_id r) = (True, None)"
    "well_formed_request (IssueReq r)" "issue_class md r = Keyed (demo_key t k) (computeIssueFingerprint r)"
  using assms by (auto simp: demo_call_def simp del: well_formed_request.simps)

text \<open>The calls of a demonstration touch its own key only, whatever comes of them.\<close>

lemma demo_after:
  assumes "permitted identity t = (True, None)" and "demo_call t md r k"
  shows "after db {demo_key t k} s (snd (client_IssueToken cl cc r md s))"
  by (rule after_call [OF demo_governed [OF assms(2,1)] prod.collapse [symmetric]])

lemma demos_after:
  assumes t: "t \<noteq> ''''" "permitted identity t = (True, None)"
  shows "after db {demo_key t ''demo-retry-key''} s (snd (demoRetry cl cc t s))"
    and "after db {demo_key t ''demo-mismatch-key''} s (snd (demoContentMismatch cl cc t s))"
    and "after db {demo_key t ''demo-deprecated-field-key''} s (snd (demoDeprecatedField cl cc t s))"
proof -
  note step = demo_after [OF t(2)] and calls = demo_calls [OF t(1)]
  have two: "after db {k} s u" if "after db {k} s v" "after db {k} v u" for k v u
    using after_trans [OF that] by simp
  show "after db {demo_key t ''demo-retry-key''} s (snd (demoRetry cl cc t s))"
    using step [OF calls(1), of s] step [OF calls(1), THEN two [rotated], OF step [OF calls(1), of s]]
    by (auto simp: demoRetry_def Let_def fatal_def returns_def split: prod.split sum.split)
  show "after db {demo_key t ''demo-deprecated-field-key''} s (snd (demoDeprecatedField cl cc t s))"
    using step [OF calls(3), of s] step [OF calls(3), THEN two [rotated], OF step [OF calls(3), of s]]
    by (auto simp: demoDeprecatedField_def Let_def fatal_def returns_def split: prod.split sum.split)
  have ab: "''user-a'' \<noteq> ''''" "''user-b'' \<noteq> ''''" by simp_all
  show "after db {demo_key t ''demo-mismatch-key''} s (snd (demoContentMismatch cl cc t s))"
    using step [OF calls(2) [OF ab(1)], of s]
      step [OF calls(2) [OF ab(2)], THEN two [rotated], OF step [OF calls(2) [OF ab(1)], of s]]
    by (auto simp: demoContentMismatch_def Let_def fatal_def returns_def split: prod.split sum.split)
qed

lemma retry_demo:
  assumes t: "t \<noteq> ''''" "permitted identity t = (True, None)"
    and free: "live (db s) (clock s) (demo_key t ''demo-retry-key'') = None"
    and run: "demoRetry cl cc t s = ((out, f), s')" and soon: "clock s' - clock s < lifetime ttl"
  shows "(\<exists>e. f = Some (Fatal (issue_failed ''first'' e))) \<or> f = None \<and> (\<exists>a. second_token a True \<in> set out)"
proof -
  let ?r = "retry_request t" and ?md = "idempotentCtx ''demo-retry-key''"
  note call = demo_governed [OF demo_calls(1) [OF t(1)] t(2)]
  obtain r1 s1 where c1: "client_IssueToken cl cc ?r ?md s = (r1, s1)" by fastforce
  obtain r2 s2 where c2: "client_IssueToken cl cc ?r ?md s1 = (r2, s2)" by fastforce
  show ?thesis
  proof (cases r1)
    case (Inl e)
    with run c1 show ?thesis by (auto simp: demoRetry_def Let_def fatal_def)
  next
    case (Inr q)
    have "s' = s2" using run c1 c2 Inr by (cases r2) (simp_all add: demoRetry_def Let_def fatal_def returns_def)
    with twice [OF call free c1 [unfolded Inr] c2] soon have "r2 = Inr q" by simp
    with run c1 c2 Inr show ?thesis by (auto simp: demoRetry_def Let_def returns_def)
  qed
qed

lemma deprecated_demo:
  assumes t: "t \<noteq> ''''" "permitted identity t = (True, None)"
    and free: "live (db s) (clock s) (demo_key t ''demo-deprecated-field-key'') = None"
    and run: "demoDeprecatedField cl cc t s = ((out, f), s')" and soon: "clock s' - clock s < lifetime ttl"
  shows "(\<exists>e. f = Some (Fatal (issue_failed ''first'' e))) \<or> f = None \<and> deprecated_identical True \<in> set out"
proof -
  let ?r = "deprecated_request t"
  note call = demo_governed [OF demo_calls(3) [OF t(1)] t(2)]
  obtain r1 s1 where c1: "client_IssueToken cl cc ?r [] s = (r1, s1)" by fastforce
  obtain r2 s2 where c2: "client_IssueToken cl cc ?r [] s1 = (r2, s2)" by fastforce
  show ?thesis
  proof (cases r1)
    case (Inl e)
    with run c1 show ?thesis by (auto simp: demoDeprecatedField_def Let_def fatal_def)
  next
    case (Inr q)
    have "s' = s2"
      using run c1 c2 Inr by (cases r2) (simp_all add: demoDeprecatedField_def Let_def fatal_def returns_def)
    with twice [OF call free c1 [unfolded Inr] c2] soon have "r2 = Inr q" by simp
    with run c1 c2 Inr show ?thesis by (auto simp: demoDeprecatedField_def Let_def returns_def)
  qed
qed

lemma mismatch_demo:
  assumes t: "t \<noteq> ''''" "permitted identity t = (True, None)" and utf8: "valid_utf8 t"
    and free: "live (db s) (clock s) (demo_key t ''demo-mismatch-key'') = None"
    and run: "demoContentMismatch cl cc t s = ((out, f), s')" and soon: "clock s' - clock s < lifetime ttl"
  shows "(\<exists>e. f = Some (Fatal (issue_failed ''user-a'' e))) \<or>
    f = None \<and> user_b_status FailedPrecondition \<in> set out \<or>
    collision (issueFingerprintInput (mismatch_request ''user-a'' t))
      (issueFingerprintInput (mismatch_request ''user-b'' t))"
proof -
  let ?r = "mismatch_request ''user-a'' t" and ?r' = "mismatch_request ''user-b'' t"
    and ?md = "idempotentCtx ''demo-mismatch-key''"
  have ab: "''user-a'' \<noteq> ''''" "''user-b'' \<noteq> ''''" by simp_all
  note call = demo_governed [OF demo_calls(2) [OF t(1) ab(1)] t(2)]
    and call' = demo_governed [OF demo_calls(2) [OF t(1) ab(2)] t(2)]
  obtain r1 s1 where c1: "client_IssueToken cl cc ?r ?md s = (r1, s1)" by fastforce
  obtain r2 s2 where c2: "client_IssueToken cl cc ?r' ?md s1 = (r2, s2)" by fastforce
  show ?thesis
  proof (cases r1)
    case (Inl e)
    with run c1 show ?thesis by (auto simp: demoContentMismatch_def Let_def fatal_def)
  next
    case (Inr q)
    have "s' = s2" using run c1 c2 Inr
      by (simp add: demoContentMismatch_def Let_def fatal_def returns_def split: if_splits)
    with issue_record [OF call free c1 [unfolded Inr]] soon
    have "live (db s1) (clock s2) (demo_key t ''demo-mismatch-key'') \<noteq> None" by simp
    from issue_other [OF call call'(2-4) free c1 [unfolded Inr] c2 mismatch_contents [OF utf8] this] run c1 c2 Inr
    show ?thesis by (auto simp: demoContentMismatch_def Let_def returns_def)
  qed
qed

text \<open>The three of them, one after the other.\<close>

lemma all_demos:
  assumes t: "t \<noteq> ''''" "permitted identity t = (True, None)" and utf8: "valid_utf8 t"
    and free: "\<And>k. live (db s) (clock s) (demo_key t k) = None"
    and run: "and_then (demoRetry cl cc t) (and_then (demoContentMismatch cl cc t) (demoDeprecatedField cl cc t)) s =
      ((out, f), s')"
    and soon: "clock s' - clock s < lifetime ttl"
  shows "(\<exists>call e. call \<in> {''first'', ''user-a''} \<and> f = Some (Fatal (issue_failed call e))) \<or>
    f = None \<and> (\<exists>a. second_token a True \<in> set out) \<and> user_b_status FailedPrecondition \<in> set out \<and>
      deprecated_identical True \<in> set out \<or>
    collision (issueFingerprintInput (mismatch_request ''user-a'' t))
      (issueFingerprintInput (mismatch_request ''user-b'' t))"
    (is "?fails f \<or> _ \<or> ?c")
proof -
  obtain o1 f1 s1 where r1: "demoRetry cl cc t s = ((o1, f1), s1)" by (metis prod.collapse)
  obtain o2 f2 s2 where r2: "demoContentMismatch cl cc t s1 = ((o2, f2), s2)" by (metis prod.collapse)
  obtain o3 f3 s3 where r3: "demoDeprecatedField cl cc t s2 = ((o3, f3), s3)" by (metis prod.collapse)
  have a1: "after db {demo_key t ''demo-retry-key''} s s1"
    and a2: "after db {demo_key t ''demo-mismatch-key''} s1 s2"
    and a3: "after db {demo_key t ''demo-deprecated-field-key''} s2 s3"
    using demos_after [OF t] r1 r2 r3 by (metis snd_conv)+
  note a12 = after_trans [OF a1 a2] and prefix = demo_keys_differ(2)
  have mono: "clock s \<le> clock s1" "clock s1 \<le> clock s2" "clock s2 \<le> clock s3"
    using a1 a2 a3 by (simp_all add: after_def)
  have free2: "live (db s1) (clock s1) (demo_key t ''demo-mismatch-key'') = None"
    by (rule after_free [OF a1 _ prefix free]) (simp only: singleton_iff demo_keys_differ; simp)
  have free3: "live (db s2) (clock s2) (demo_key t ''demo-deprecated-field-key'') = None"
    by (rule after_free [OF a12 _ prefix free]) (simp only: Un_iff singleton_iff demo_keys_differ; simp)
  note d1 = retry_demo [OF t free r1] and d2 = mismatch_demo [OF t utf8 free2 r2]
    and d3 = deprecated_demo [OF t free3 r3]
  show ?thesis
  proof (cases f1)
    case (Some m)
    with run r1 have "s' = s1" "f = f1" by (simp_all add: and_then_def)
    with d1 soon Some show ?thesis by blast
  next
    case None
    show ?thesis
    proof (cases f2)
      case (Some m)
      with run r1 r2 None have "s' = s2" "f = f2" by (simp_all add: and_then_def)
      with d2 soon mono Some show ?thesis by auto
    next
      case None': None
      from run r1 r2 r3 None None' have s': "s' = s3" "f = f3" "out = o1 @ o2 @ o3"
        by (simp_all add: and_then_def)
      with soon mono have "clock s1 - clock s < lifetime ttl" "clock s2 - clock s1 < lifetime ttl"
        "clock s3 - clock s2 < lifetime ttl" by simp_all
      with d1 d2 d3 None None' s' show ?thesis by auto
    qed
  qed
qed

end


lemma envOrDefault_nonempty [simp]: "def \<noteq> '''' \<Longrightarrow> envOrDefault env key def \<noteq> ''''"
  by (simp add: envOrDefault_def)

text \<open>
  C6: The idempotency example, end to end.  The program runs against a service whose keys list
  its API key and whose caller registry permits its tenant, a name in valid UTF-8, on idempotency
  keys that are free, in less time than a response is kept; Redis answers every command and keeps
  the contract of the store, the connection gets every call through and the server reads each
  request as it was sent, the library issues tokens in valid UTF-8 and leaves the interceptor's
  keys alone, and the codec marshals a pair of such tokens and reads it back.  Then the program
  ends in one of three ways: client.NewClient fails; a first issuance fails; or it succeeds, and
  the two retries print that the tokens are identical, so each key was served one token pair, and
  the reuse of a key with other content prints FailedPrecondition.  The exception is that the two
  requests are a collision of SHA-256.  The calls run through every layer: the client's
  interceptor, the stub, the connection, the generated handler, the interceptor chain, the
  TokenEngine handler and the store.
\<close>
theorem idempotency_example:
  fixes st :: "'a world_scheme idempotency_store" and env :: "string \<Rightarrow> string"
  defines "addr \<equiv> envOrDefault env ''TOKEN_ENGINE_ADDR'' ''localhost:9090''"
    and "apiKey \<equiv> envOrDefault env ''TOKEN_ENGINE_STATIC_KEY'' ''example-key''"
    and "tenant \<equiv> envOrDefault env ''TOKEN_ENGINE_ISSUER'' ''local-dev''"
  assumes contract: "idempotency_store st db ttl pendingTTL" "reachable st" and ids: "token_source uuid db"
    and caller: "map_of keys apiKey = Some identity" "identity \<noteq> ''''" "permitted identity tenant = (True, None)"
    and codec: "codec_ok pc" "marshals_text pc"
    and managers: "managers_ok db get a other" "issues_text get"
    and conn: "routes_by_name route" "wire_ok w" "delivers deliver"
      "connected (pc_conn (net addr)) deliver route w (TokenEngine_Methods w panic (NewTokenHandler get a))
         (chain (service_chain uuid (StaticKeyAuthenticate keys) permitted pc st))"
      "\<And>s. clock s \<le> clock (snd (pc_close (net addr) s))"
    and start: "valid_utf8 tenant" "\<And>k. live (db s) (clock s) (demo_key tenant k) = None"
    and run: "idempotency_main ext env net s = ((out, f), s')" and soon: "clock s' - clock s < lifetime ttl"
  shows "(\<exists>e. f = Some (Fatal (''client.NewClient: '' @ e))) \<or>
    (\<exists>call e. call \<in> {''first'', ''user-a''} \<and> f = Some (Fatal (issue_failed call e))) \<or>
    f = None \<and> (\<exists>token. second_token token True \<in> set out) \<and> user_b_status FailedPrecondition \<in> set out \<and>
      deprecated_identical True \<in> set out \<or>
    collision (issueFingerprintInput (mismatch_request ''user-a'' tenant))
      (issueFingerprintInput (mismatch_request ''user-b'' tenant))"
proof (cases "NewClient ext (\<lambda>a. pc_dial (net a)) addr [WithPlaintext, WithStaticKey apiKey] ::
    client_error + (go_error + response, 'a world_scheme, 'b, 'c) client")
  case (Inl e)
  with run show ?thesis
    by (auto simp: idempotency_main_def Let_def fatal_def addr_def apiKey_def)
next
  case (Inr cl)
  have key: "apiKey \<noteq> ''''" and tenant: "tenant \<noteq> ''''" by (simp_all add: apiKey_def tenant_def)
  let ?cc = "pc_conn (net addr)"
  let ?demos = "and_then (demoRetry cl ?cc tenant)
    (and_then (demoContentMismatch cl ?cc tenant) (demoDeprecatedField cl ?cc tenant))"
  obtain o1 f1 s1 where demos: "?demos s = ((o1, f1), s1)" by (metis prod.collapse)
  from run Inr have run': "deferring_close ''close'' (pc_close (net addr)) ?demos s = ((out, f), s')"
    by (simp add: idempotency_main_def Let_def addr_def apiKey_def tenant_def)
  have close: "f = f1 \<and> set o1 \<subseteq> set out \<and> clock s1 \<le> clock s'"
    using run' demos conn(5) [of s1]
    by (auto simp: deferring_close_def Close_def split: option.splits prod.splits stop.splits)
  note dep = service_deployment [OF contract(1) ids plain_client [OF Inr key] caller(1,2) conn(1-4)
      contract(2) codec managers]
  have "clock s1 - clock s < lifetime ttl" using soon close by simp
  from deployment.all_demos [OF dep tenant caller(3) start demos this] close show ?thesis by blast
qed


text \<open>On the service in memory no call takes time.\<close>

definition still :: "'a world_scheme \<Rightarrow> 'a world_scheme \<Rightarrow> bool" where
  "still s t \<longleftrightarrow> clock t = clock s"

lemma still_steps: "steps still"
  by (simp add: steps_def still_def)

lemma mem_conn_still:
  fixes s :: "'b lock_world_scheme"
  assumes "full_method req = Some m"
  shows "clock (snd (mem_conn t m req md s)) = clock s"
proof -
  let ?i = "chain (service_chain mem_uuid (StaticKeyAuthenticate mem_keys) NoOpIsPermitted plain_codec mem_store)
      :: 'b lock_world_scheme interceptor"
  have svc: "handler_steps still (token_service (mem_lookup t) NewNoOpAuditStore mem_other :: 'b lock_world_scheme handler)"
  proof (rule service_steps [OF still_steps])
    have "tm_steps still (counting_manager :: 'b lock_world_scheme token_manager)"
      by (simp add: tm_steps_def counting_manager_def ok_manager_def still_def mem_uuid_def)
    then show "lookup_steps still (mem_lookup t :: 'b lock_world_scheme lookup)"
      by (auto simp: lookup_steps_def dest: mem_lookup_manager)
  qed (simp_all add: audit_steps_def NewNoOpAuditStore_def handler_steps_def mem_other_def still_def)
  have store: "store_steps still (mem_store :: 'b lock_world_scheme idempotency_store)"
    "\<And>s :: 'b lock_world_scheme. still s (snd (mem_uuid s))"
    by (simp_all add: store_steps_def run_simps still_def mem_uuid_def)
  have run: "still s (snd (?i m (token_service (mem_lookup t) NewNoOpAuditStore mem_other) c req s))" for c s
    using service_chain_steps [OF still_steps store(2,1) svc] unfolding handler_steps_def by blast
  from handler_dispatch [OF name_route plain_wire assms, of mem_other "mem_lookup t" NewNoOpAuditStore mem_other]
  obtain hdl where hdl: "name_route TokenEngine_ServiceName
        (TokenEngine_Methods plain_wire mem_other (NewTokenHandler (mem_lookup t) NewNoOpAuditStore)) m = Some hdl"
    "\<And>c s. hdl c (wr_encode plain_wire req) (Some ?i) s =
        ?i m (token_service (mem_lookup t) NewNoOpAuditStore mem_other) c req s"
    using service_chain_passes by blast
  show ?thesis
    unfolding mem_conn_def direct_conn_def hdl(1) option.case hdl(2) by (rule run [unfolded still_def])
qed

lemma mem_issue_still:
  "clock (snd (client_IssueToken (mem_client key) (mem_conn t) r md s)) = clock s"
  by (simp add: client_IssueToken_def mem_client_def staticKeyInterceptor_def stub_IssueToken_def mem_conn_still)

lemma mem_demos_still:
  "clock (snd (demoRetry (mem_client key) (mem_conn u) t s)) = clock s"
  "clock (snd (demoContentMismatch (mem_client key) (mem_conn u) t s)) = clock s"
  "clock (snd (demoDeprecatedField (mem_client key) (mem_conn u) t s)) = clock s"
  using mem_issue_still [of key u] unfolding demoRetry_def demoContentMismatch_def demoDeprecatedField_def
    Let_def fatal_def returns_def
  by (auto simp: split_beta split: sum.split)

definition mem_network :: "string \<Rightarrow> 'b lock_world_scheme network" where
  "mem_network t addr = \<lparr>pc_dial = None, pc_conn = mem_conn t, pc_close = (\<lambda>s. (None, s))\<rparr>"

definition demo_run :: "(printed list \<times> stop option) \<times> lock_world" where
  "demo_run = idempotency_main no_tls (\<lambda>_. '''') (mem_network ''local-dev'') lock_start"

lemma and_then_still:
  assumes "\<And>s. clock (snd (p s)) = clock s" and "\<And>s. clock (snd (q s)) = clock s"
  shows "clock (snd (and_then p q s)) = clock s"
  using assms(1) [of s] assms(2) by (auto simp: and_then_def split_beta split: option.split)

lemma close_still:
  assumes "\<And>s. clock (snd (p s)) = clock s" and "\<And>s. clock (snd (cl s)) = clock s"
  shows "clock (snd (deferring_close label cl p s)) = clock s"
proof -
  obtain out f s1 where p: "p s = ((out, f), s1)" by (metis prod.collapse)
  obtain e s2 where cl: "cl s1 = (e, s2)" by fastforce
  show ?thesis
    using assms(1) [of s] assms(2) [of s1]
    by (cases f; cases e) (auto simp: deferring_close_def Close_def p cl split: stop.split)
qed

lemma demo_run_still: "clock (snd demo_run) = clock lock_start"
proof -
  let ?c = "mem_client ''example-key''" and ?cc = "mem_conn ''local-dev'' :: lock_world client_conn"
  have "demo_run = deferring_close ''close'' (\<lambda>s. (None, s)) (and_then (demoRetry ?c ?cc ''local-dev'')
      (and_then (demoContentMismatch ?c ?cc ''local-dev'') (demoDeprecatedField ?c ?cc ''local-dev''))) lock_start"
    by (simp add: demo_run_def idempotency_main_def Let_def envOrDefault_def mem_network_def mem_NewClient)
  also have "clock (snd \<dots>) = clock lock_start"
    by (rule close_still, intro and_then_still mem_demos_still) simp
  finally show ?thesis .
qed

theorem idempotency_example_witness:
  "(case demo_run of ((out, f), s') \<Rightarrow>
     (\<exists>e. f = Some (Fatal (''client.NewClient: '' @ e))) \<or>
     (\<exists>call e. call \<in> {''first'', ''user-a''} \<and> f = Some (Fatal (issue_failed call e))) \<or>
     f = None \<and> (\<exists>token. second_token token True \<in> set out) \<and> user_b_status FailedPrecondition \<in> set out \<and>
       deprecated_identical True \<in> set out \<or>
     collision (issueFingerprintInput (mismatch_request ''user-a'' ''local-dev''))
       (issueFingerprintInput (mismatch_request ''user-b'' ''local-dev'')))"
proof -
  obtain out f s' where run: "demo_run = ((out, f), s')" by (metis prod.collapse)
  have soon: "clock s' - clock lock_start < lifetime (24 * nsHour)"
    using demo_run_still [unfolded run] by (simp add: lifetime_def nsHour_def nsMinute_def nsSecond_def)
  have caller: "map_of mem_keys (envOrDefault (\<lambda>_. '''') ''TOKEN_ENGINE_STATIC_KEY'' ''example-key'') = Some ''dev''"
    "''dev'' \<noteq> ''''" "NoOpIsPermitted ''dev'' (envOrDefault (\<lambda>_. '''') ''TOKEN_ENGINE_ISSUER'' ''local-dev'') = (True, None)"
    by (simp_all add: mem_keys_def envOrDefault_def NoOpIsPermitted_def)
  have conn: "connected (pc_conn (mem_network ''local-dev'' a)) plain_delivery name_route plain_wire
      (TokenEngine_Methods plain_wire mem_other (NewTokenHandler (mem_lookup ''local-dev'') NewNoOpAuditStore))
      (chain (service_chain mem_uuid (StaticKeyAuthenticate mem_keys) NoOpIsPermitted plain_codec mem_store))" for a
    unfolding mem_network_def by (simp add: mem_conn_def direct_connected)
  have utf8: "valid_utf8 (envOrDefault (\<lambda>_. '''') ''TOKEN_ENGINE_ISSUER'' ''local-dev'')" by code_simp
  have free: "live (mem_db lock_start) (clock lock_start) k = None" for k
    by (simp add: lock_start_def live_def)
  from idempotency_example [OF mem_store_contract mem_store_reachable mem_lock.token_source_axioms caller
      plain_codec_ok plain_marshals mem_managers mem_text name_route plain_wire plain_delivery conn _ utf8 free
      run [unfolded demo_run_def] soon]
  show ?thesis by (simp add: run mem_network_def envOrDefault_def)
qed

end
