(* ===== verification/Examples_Claims.thy ===== *)
theory Examples_Claims
  imports Examples
begin

text \<open>
  The program under \<^verbatim>\<open>examples/custom-claims\<close>: it issues a token with claims of its own, fetches
  the service's public key from the JWKS endpoint and validates the token with it.  The HTTP
  client and the JWT parser are parameters; the key is read as the code reads it, through
  \<^verbatim>\<open>encoding/json\<close>, \<^verbatim>\<open>encoding/base64\<close> and \<^verbatim>\<open>math/big\<close>.
\<close>


section \<open>Base64 for URLs, without padding\<close>

definition url_table :: string where
  "url_table = ''ABCDEFGHIJKLMNOPQRSTUVWXYZabcdefghijklmnopqrstuvwxyz0123456789-_''"

definition url_char :: "nat \<Rightarrow> char" where
  "url_char n = url_table ! n"

definition url_val :: "char \<Rightarrow> nat option" where
  "url_val c = map_of (zip url_table [0..<64]) c"

text \<open>\<^verbatim>\<open>base64.RawURLEncoding\<close>: a rest of two or three characters holds one or two bytes.\<close>

fun url_encode :: "bytes \<Rightarrow> string" where
  "url_encode [] = []"
| "url_encode [x] = map url_char (take 2 (sextets (quantum (byte_val x) 0 0)))"
| "url_encode [x, y] = map url_char (take 3 (sextets (quantum (byte_val x) (byte_val y) 0)))"
| "url_encode (x # y # z # rest) =
     map url_char (sextets (quantum (byte_val x) (byte_val y) (byte_val z))) @ url_encode rest"

fun url_quads :: "string \<Rightarrow> bytes option" where
  "url_quads [] = Some []"
| "url_quads [a] = None"
| "url_quads [a, b] =
     (case (url_val a, url_val b) of
        (Some a', Some b') \<Rightarrow> Some (take 1 (unsextets a' b' 0 0)) | _ \<Rightarrow> None)"
| "url_quads [a, b, c] =
     (case (url_val a, url_val b, url_val c) of
        (Some a', Some b', Some c') \<Rightarrow> Some (take 2 (unsextets a' b' c' 0)) | _ \<Rightarrow> None)"
| "url_quads (a # b # c # d # rest) =
     (case (url_val a, url_val b, url_val c, url_val d) of
        (Some a', Some b', Some c', Some d') \<Rightarrow> map_option (\<lambda>bs. unsextets a' b' c' d' @ bs) (url_quads rest)
      | _ \<Rightarrow> None)"

definition url_decode :: "string \<Rightarrow> bytes option" where
  "url_decode s = url_quads (filter (\<lambda>c. c \<noteq> CHR 0x0A \<and> c \<noteq> CHR 0x0D) s)"

lemma url_table_facts:
  "length url_table = 64" "distinct url_table"
  "CHR 0x0A \<notin> set url_table" "CHR 0x0D \<notin> set url_table" "\<forall>c \<in> set url_table. byte_val c < 128"
  by (simp_all add: url_table_def)

lemma url_val_char [simp]: "n < 64 \<Longrightarrow> url_val (url_char n) = Some n"
  unfolding url_val_def url_char_def
  using map_of_zip_nth [of url_table "[0..<64]" n] url_table_facts by simp

lemma url_char_in_table: "n < 64 \<Longrightarrow> url_char n \<in> set url_table"
  unfolding url_char_def using url_table_facts by simp

lemma url_quads_encode: "url_quads (url_encode bs) = Some bs"
proof (induction bs rule: url_encode.induct)
  case 1
  show ?case by simp
next
  case (2 x)
  let ?v = "quantum (byte_val x) 0 0"
  have lt: "?v div 262144 < 64" by (intro top_sextet quantum_bound) simp_all
  show ?case
    using lt unsextets_sextets [of ?v] quantum_parts [of 0 0 "byte_val x"]
    by (simp add: sextets_def quantum_low_zero)
next
  case (3 x y)
  let ?v = "quantum (byte_val x) (byte_val y) 0"
  have lt: "?v div 262144 < 64" by (intro top_sextet quantum_bound) simp_all
  show ?case
    using lt unsextets_sextets [of ?v] quantum_parts [of "byte_val y" 0 "byte_val x"]
    by (simp add: sextets_def quantum_low_zero numeral_3_eq_3 numeral_2_eq_2)
next
  case (4 x y z rest)
  let ?v = "quantum (byte_val x) (byte_val y) (byte_val z)"
  have lt: "?v div 262144 < 64" by (intro top_sextet quantum_bound) simp_all
  have "char_of (?v mod 256) = z" by (simp only: quantum_parts(3) byte_val_less char_of_char)
  then have low: "char_of ?v = z" by simp
  have "url_quads (url_encode (x # y # z # rest)) =
      map_option ((@) (unsextets (?v div 262144) (?v div 4096 mod 64) (?v div 64 mod 64) (?v mod 64)))
        (url_quads (url_encode rest))"
    using lt by (simp add: sextets_def)
  with "4.IH" show ?case
    unfolding unsextets_sextets
    using quantum_parts(1,2) [of "byte_val y" "byte_val z" "byte_val x"] by (simp add: low)
qed

lemma set_url_encode: "set (url_encode bs) \<subseteq> set url_table"
proof (induction bs rule: url_encode.induct)
  case (2 x)
  have "n < 64" if "n \<in> set (sextets (quantum (byte_val x) 0 0))" for n
    by (rule sextets_bound [OF quantum_bound that]) simp_all
  then show ?case by (auto dest!: in_set_takeD intro: url_char_in_table)
next
  case (3 x y)
  have "n < 64" if "n \<in> set (sextets (quantum (byte_val x) (byte_val y) 0))" for n
    by (rule sextets_bound [OF quantum_bound that]) simp_all
  then show ?case by (auto dest!: in_set_takeD intro: url_char_in_table)
next
  case (4 x y z rest)
  have "n < 64" if "n \<in> set (sextets (quantum (byte_val x) (byte_val y) (byte_val z)))" for n
    by (rule sextets_bound [OF quantum_bound that]) simp_all
  with "4.IH" show ?case by (auto intro: url_char_in_table)
qed simp

lemma url_decode_encode: "url_decode (url_encode bs) = Some bs"
proof -
  have "filter (\<lambda>c. c \<noteq> CHR 0x0A \<and> c \<noteq> CHR 0x0D) (url_encode bs) = url_encode bs"
    using set_url_encode [of bs] url_table_facts by (intro filter_True) auto
  then show ?thesis by (simp add: url_decode_def url_quads_encode)
qed

lemma url_encode_utf8: "valid_utf8 (url_encode bs)"
  by (rule valid_utf8_ascii) (use set_url_encode [of bs] url_table_facts(5) in blast)


section \<open>Big-endian integers\<close>

text \<open>\<^verbatim>\<open>(*big.Int).SetBytes\<close>, and the low 64 bits with sign, \<^verbatim>\<open>(*big.Int).Int64\<close>.\<close>

definition big_of_bytes :: "bytes \<Rightarrow> nat" where
  "big_of_bytes bs = foldl (\<lambda>n c. n * 256 + byte_val c) 0 bs"

definition Int64 :: "nat \<Rightarrow> int" where
  "Int64 n = sint (word_of_nat n :: 64 word)"

text \<open>The shortest big-endian bytes of a number.\<close>

fun big_bytes :: "nat \<Rightarrow> bytes" where
  "big_bytes n = (if n = 0 then [] else big_bytes (n div 256) @ [char_of (n mod 256)])"

declare big_bytes.simps [simp del]

lemma big_of_big_bytes: "big_of_bytes (big_bytes n) = n"
proof (induction n rule: big_bytes.induct)
  case (1 n)
  show ?case
  proof (cases "n = 0")
    case True
    then show ?thesis by (simp add: big_bytes.simps big_of_bytes_def)
  next
    case False
    then have "big_of_bytes (big_bytes n) = big_of_bytes (big_bytes (n div 256)) * 256 + n mod 256"
      by (subst big_bytes.simps) (simp add: big_of_bytes_def)
    with 1 False show ?thesis by simp
  qed
qed

lemma Int64_small: "n < 2 ^ 63 \<Longrightarrow> Int64 n = int n"
  unfolding Int64_def by (subst signed_of_nat) (simp add: signed_take_bit_int_eq_self)


section \<open>The key set\<close>

text \<open>
  Decoding into the anonymous struct of the program.  As in \<open>Idem_Record\<close>, a member names a field
  up to case folding, unknown members are skipped and the last of several wins.  A slice that is
  decoded into again keeps its elements behind its length, and an element is decoded into the
  value that is there: the slice is its backing array with its length.
\<close>

record jwk =
  jwk_N :: string
  jwk_E :: string

definition zero_jwk :: jwk where
  "zero_jwk = \<lparr>jwk_N = '''', jwk_E = ''''\<rparr>"

definition set_jwk_field :: "bytes \<times> json \<Rightarrow> jwk \<Rightarrow> jwk option" where
  "set_jwk_field kv k =
     (let name = fold_name (fst kv) in
      if name = ''N'' then map_option (\<lambda>s. k\<lparr>jwk_N := s\<rparr>) (set_string (snd kv) (jwk_N k))
      else if name = ''E'' then map_option (\<lambda>s. k\<lparr>jwk_E := s\<rparr>) (set_string (snd kv) (jwk_E k))
      else Some k)"

fun set_jwk_fields :: "(bytes \<times> json) list \<Rightarrow> jwk \<Rightarrow> jwk option" where
  "set_jwk_fields [] k = Some k"
| "set_jwk_fields (kv # kvs) k =
     (case set_jwk_field kv k of None \<Rightarrow> None | Some k' \<Rightarrow> set_jwk_fields kvs k')"

definition jwk_of_json :: "json \<Rightarrow> jwk \<Rightarrow> jwk option" where
  "jwk_of_json j old = (case j of JObj kvs \<Rightarrow> set_jwk_fields kvs old | JNull \<Rightarrow> Some old | _ \<Rightarrow> None)"

fun jwks_of_array :: "jwk list \<Rightarrow> json list \<Rightarrow> jwk list option" where
  "jwks_of_array backing [] = Some backing"
| "jwks_of_array backing (x # xs) =
     (case jwk_of_json x (case backing of [] \<Rightarrow> zero_jwk | old # _ \<Rightarrow> old) of
        None \<Rightarrow> None
      | Some k \<Rightarrow> map_option ((#) k) (jwks_of_array (drop 1 backing) xs))"

definition set_keys :: "json \<Rightarrow> jwk list \<times> nat \<Rightarrow> (jwk list \<times> nat) option" where
  "set_keys v old =
     (case v of
        JArr xs \<Rightarrow>
          if xs = [] then Some ([], 0)
          else map_option (\<lambda>backing. (backing, length xs)) (jwks_of_array (fst old) xs)
      | JNull \<Rightarrow> Some ([], 0)
      | _ \<Rightarrow> None)"

fun set_jwks_fields :: "(bytes \<times> json) list \<Rightarrow> jwk list \<times> nat \<Rightarrow> (jwk list \<times> nat) option" where
  "set_jwks_fields [] keys = Some keys"
| "set_jwks_fields (kv # kvs) keys =
     (case (if fold_name (fst kv) = ''KEYS'' then set_keys (snd kv) keys else Some keys) of
        None \<Rightarrow> None
      | Some keys' \<Rightarrow> set_jwks_fields kvs keys')"

definition jwks_of_body :: "bytes \<Rightarrow> jwk list option" where
  "jwks_of_body b =
     (case json_parse b of
        Some (JObj kvs) \<Rightarrow> map_option (\<lambda>(backing, n). take n backing) (set_jwks_fields kvs ([], 0))
      | Some JNull \<Rightarrow> Some []
      | _ \<Rightarrow> None)"

record rsa_public_key =
  rsa_N :: nat
  rsa_E :: int

datatype fetch_error =
    GetFailed string go_error
  | ReadFailed go_error
  | UnmarshalFailed
  | NoKeys string
  | DecodeNFailed
  | DecodeEFailed

text \<open>\<open>get\<close> is \<^verbatim>\<open>http.Get\<close> with the reading of the response's body, either of which may fail.\<close>

definition fetchFirstRSAKey ::
  "(string \<Rightarrow> 's \<Rightarrow> (go_error + go_error + bytes) \<times> 's) \<Rightarrow> string \<Rightarrow> 's \<Rightarrow>
   (fetch_error + rsa_public_key) \<times> 's" where
  "fetchFirstRSAKey get jwksURL s =
     (case get jwksURL s of
        (Inl err, s1) \<Rightarrow> (Inl (GetFailed jwksURL err), s1)
      | (Inr (Inl err), s1) \<Rightarrow> (Inl (ReadFailed err), s1)
      | (Inr (Inr b), s1) \<Rightarrow>
          (case jwks_of_body b of
             None \<Rightarrow> (Inl UnmarshalFailed, s1)
           | Some [] \<Rightarrow> (Inl (NoKeys jwksURL), s1)
           | Some (k # _) \<Rightarrow>
               (case url_decode (jwk_N k) of
                  None \<Rightarrow> (Inl DecodeNFailed, s1)
                | Some nBytes \<Rightarrow>
                    (case url_decode (jwk_E k) of
                       None \<Rightarrow> (Inl DecodeEFailed, s1)
                     | Some eBytes \<Rightarrow>
                         (Inr \<lparr>rsa_N = big_of_bytes nBytes, rsa_E = Int64 (big_of_bytes eBytes)\<rparr>, s1)))))"


section \<open>The round trip of a key\<close>

text \<open>A key of the set: members with the modulus and the exponent, once each.\<close>

definition named :: "bytes \<Rightarrow> (bytes \<times> json) list \<Rightarrow> (bytes \<times> json) list" where
  "named f kvs = filter (\<lambda>kv. fold_name (fst kv) = f) kvs"

definition shows_key :: "(bytes \<times> json) list \<Rightarrow> nat \<Rightarrow> nat \<Rightarrow> bool" where
  "shows_key kvs n e \<longleftrightarrow>
     named ''N'' kvs = [(''n'', JStr (url_encode (big_bytes n)))] \<and>
     named ''E'' kvs = [(''e'', JStr (url_encode (big_bytes e)))]"

lemma named_simps [simp]:
  "named f [] = []"
  "named f (kv # kvs) = (if fold_name (fst kv) = f then kv # named f kvs else named f kvs)"
  by (simp_all add: named_def)

definition str_of :: "bytes \<times> json \<Rightarrow> string" where
  "str_of kv = (case snd kv of JStr s \<Rightarrow> s | _ \<Rightarrow> '''')"

lemma set_jwk_fields_run:
  assumes "\<forall>kv \<in> set (named ''N'' kvs) \<union> set (named ''E'' kvs). \<exists>s. snd kv = JStr s"
  shows "set_jwk_fields kvs k =
    Some (k\<lparr>jwk_N := last (jwk_N k # map str_of (named ''N'' kvs)),
            jwk_E := last (jwk_E k # map str_of (named ''E'' kvs))\<rparr>)"
  using assms
proof (induction kvs arbitrary: k)
  case (Cons kv kvs)
  consider (n) "fold_name (fst kv) = ''N''" | (e) "fold_name (fst kv) = ''E''"
    | (other) "fold_name (fst kv) \<noteq> ''N''" "fold_name (fst kv) \<noteq> ''E''" by blast
  then show ?case
  proof cases
    case n
    with Cons.prems obtain v where "snd kv = JStr v" by auto
    with n Cons show ?thesis by (simp add: set_jwk_field_def set_string_def str_of_def)
  next
    case e
    with Cons.prems obtain v where "snd kv = JStr v" by auto
    with e Cons show ?thesis by (simp add: set_jwk_field_def set_string_def str_of_def)
  next
    case other
    with Cons show ?thesis by (simp add: set_jwk_field_def)
  qed
qed simp

lemma shown_key:
  assumes "shows_key kvs n e"
  shows "jwk_of_json (JObj kvs) k = Some (k\<lparr>jwk_N := url_encode (big_bytes n), jwk_E := url_encode (big_bytes e)\<rparr>)"
  using assms set_jwk_fields_run [of kvs k] by (simp add: shows_key_def jwk_of_json_def str_of_def)

text \<open>Every later element is a key, too.\<close>

lemma jwks_of_array_keys:
  assumes "\<forall>kvs \<in> set ks. \<exists>n e. shows_key kvs n e"
  shows "\<exists>js. jwks_of_array [] (map JObj ks) = Some js \<and> length js = length ks"
  using assms
proof (induction ks)
  case (Cons kvs ks)
  then obtain n e where "shows_key kvs n e" by auto
  from shown_key [OF this, of zero_jwk] Cons show ?case by auto
qed simp

lemma json_parse_encode:
  assumes "printable maxNestingDepth j"
  shows "json_parse (json_encode j) = Some j"
proof -
  have "parse_value (2 * length (json_print j @ [CHR 0x0A]) + 2) maxNestingDepth (json_print j @ [CHR 0x0A]) =
      Some (j, [CHR 0x0A])"
    by (rule printable_reads [OF assms, unfolded reads_def, rule_format]) simp
  moreover have "skip_ws [CHR 0x0A] = []" by (simp add: skip_ws_def is_ws_def)
  ultimately show ?thesis by (simp add: json_parse_def json_encode_def)
qed

lemma fetched_key:
  assumes "json_parse b = Some (JObj [(''keys'', JArr (map JObj (kvs # ks)))])"
    and "shows_key kvs n e" and "\<forall>kvs \<in> set ks. \<exists>n e. shows_key kvs n e"
  shows "\<exists>js. jwks_of_body b =
    Some (\<lparr>jwk_N = url_encode (big_bytes n), jwk_E = url_encode (big_bytes e)\<rparr> # js)"
proof -
  obtain js where js: "jwks_of_array [] (map JObj ks) = Some js" "length js = length ks"
    using jwks_of_array_keys [OF assms(3)] by blast
  have "fold_name ''keys'' = ''KEYS''" by code_simp
  with js shown_key [OF assms(2), of zero_jwk] show ?thesis
    by (simp add: jwks_of_body_def assms(1) set_keys_def zero_jwk_def del: fold_name.simps)
qed

section \<open>Property\<close>

text \<open>
  C28: The public key survives the JWKS endpoint.  A key set that prints as RFC 7517 has it, with
  the modulus and the exponent as unpadded base64url of their big-endian bytes, and is served by
  the service's JWKS handler, is read back by the example as the modulus and the exponent of its
  first key, for every modulus, every exponent of an int64 and any other keys behind it; and where
  the handler answers with its error document, or there is no key, the example reports that there
  are no keys: it never comes away with a key of its own.
\<close>
theorem jwks_key_roundtrip:
  assumes encode: "\<And>keys. encode keys = json_print (JObj [(''keys'', JArr (map (\<lambda>k. JObj (members k)) keys))])"
    and members: "\<And>k. shows_key (members k) (modulus k) (exponent k)"
      "\<And>k. printable (maxNestingDepth - 2) (JObj (members k))" "\<And>k. exponent k < 2 ^ 63"
    and answer: "km_key_info k c s = (infos, s1)"
      "km_jwks k c
         (case infos of Inr n \<Rightarrow> emit (EGauge MetricJWKSKeyCount (int n) [(''tenant_id'', tenantID)]) s1
                      | Inl _ \<Rightarrow> s1) = (res, s3)"
    and got: "get url s = (Inr (Inr (body (fst (JWKSHandler encode k tenantID cfg c s)))), s')"
  shows "fetchFirstRSAKey get url s =
    (case res of
       Inr (key # _) \<Rightarrow> Inr \<lparr>rsa_N = modulus key, rsa_E = int (exponent key)\<rparr>
     | _ \<Rightarrow> Inl (NoKeys url), s')"
proof -
  have error: "jwks_of_body (body (jwks_error reason)) = Some []" if "valid_utf8 reason" for reason
  proof -
    have "valid_utf8 ''error''" by code_simp
    with that have "printable maxNestingDepth (JObj [(''error'', JStr reason)])"
      by (simp add: maxNestingDepth_def del: valid_utf8.simps)
    from json_parse_encode [OF this] have parsed: "json_parse (body (jwks_error reason)) = Some (JObj [(''error'', JStr reason)])"
      by (simp add: jwks_error_def)
    have "fold_name ''error'' = ''ERROR''" by code_simp
    then show ?thesis by (simp add: jwks_of_body_def parsed del: fold_name.simps)
  qed
  have reasons: "valid_utf8 ''key manager unavailable''" "valid_utf8 ''no signing keys available''"
    by code_simp+
  consider (fails) e where "res = Inl e" | (none) "res = Inr []" | (keys) key keys where "res = Inr (key # keys)"
    by (metis list.exhaust sum.exhaust)
  then show ?thesis
  proof cases
    case fails
    with answer got error [OF reasons(1)] show ?thesis
      by (simp add: fetchFirstRSAKey_def JWKSHandler_def split: sum.splits)
  next
    case none
    with answer got error [OF reasons(2)] show ?thesis
      by (simp add: fetchFirstRSAKey_def JWKSHandler_def split: sum.splits)
  next
    case keys
    let ?doc = "JObj [(''keys'', JArr (map JObj (members key # map members keys)))]"
    have "valid_utf8 ''keys''" by code_simp
    with members(2) have "printable maxNestingDepth ?doc"
      by (simp add: maxNestingDepth_def list_all_iff numeral_2_eq_2 del: valid_utf8.simps)
    note parsed = json_parse_encode [OF this]
    have doc: "json_print ?doc @ [CHR 0x0A] = json_encode ?doc" by (simp only: json_encode_def)
    have "body (fst (JWKSHandler encode k tenantID cfg c s)) = json_encode ?doc"
      using answer keys encode [of "key # keys"]
      by (simp add: JWKSHandler_def json_encode_def comp_def split: sum.splits)
    with got have got': "get url s = (Inr (Inr (json_encode ?doc)), s')" by simp
    have "\<forall>kvs \<in> set (map members keys). \<exists>n e. shows_key kvs n e"
      using members(1) by auto
    from fetched_key [OF parsed members(1) this] obtain js where
      "jwks_of_body (json_encode ?doc) =
        Some (\<lparr>jwk_N = url_encode (big_bytes (modulus key)), jwk_E = url_encode (big_bytes (exponent key))\<rparr> # js)"
      by blast
    with got' keys members(3) show ?thesis
      by (simp add: fetchFirstRSAKey_def url_decode_encode big_of_big_bytes Int64_small)
  qed
qed

text \<open>A set of one key with a small modulus, as RFC 7517 prints it.\<close>

definition rfc_members :: "nat \<Rightarrow> (bytes \<times> json) list" where
  "rfc_members n =
     [(''kty'', JStr ''RSA''), (''use'', JStr ''sig''), (''kid'', JStr ''k1''), (''alg'', JStr ''RS256''),
      (''n'', JStr (url_encode (big_bytes n))), (''e'', JStr (url_encode (big_bytes 65537)))]"

lemma rfc_members:
  "shows_key (rfc_members n) n 65537" "printable (maxNestingDepth - 2) (JObj (rfc_members n))"
proof -
  have "fold_name ''kty'' = ''KTY''" "fold_name ''use'' = ''USE''" "fold_name ''kid'' = ''KID''"
    "fold_name ''alg'' = ''ALG''" "fold_name ''n'' = ''N''" "fold_name ''e'' = ''E''"
    by code_simp+
  then show "shows_key (rfc_members n) n 65537"
    by (simp add: shows_key_def rfc_members_def del: fold_name.simps)
  have "valid_utf8 ''kty''" "valid_utf8 ''use''" "valid_utf8 ''kid''" "valid_utf8 ''alg''" "valid_utf8 ''n''"
    "valid_utf8 ''e''" "valid_utf8 ''RSA''" "valid_utf8 ''sig''" "valid_utf8 ''k1''" "valid_utf8 ''RS256''"
    by code_simp+
  then show "printable (maxNestingDepth - 2) (JObj (rfc_members n))"
    by (simp add: rfc_members_def maxNestingDepth_def url_encode_utf8 del: valid_utf8.simps)
qed

definition rfc_print :: "nat list \<Rightarrow> bytes" where
  "rfc_print keys = json_print (JObj [(''keys'', JArr (map (\<lambda>k. JObj (rfc_members k)) keys))])"

definition one_key :: "(world, nat) key_manager" where
  "one_key = \<lparr>km_key_info = (\<lambda>c s. (Inr 1, s)), km_jwks = (\<lambda>c s. (Inr [3233], s))\<rparr>"

theorem jwks_key_roundtrip_witness:
  "\<forall>cfg. fst (fetchFirstRSAKey (\<lambda>url s. (Inr (Inr (body (fst (JWKSHandler rfc_print one_key ''t'' cfg background s)))), s))
     ''http://localhost:8080/.well-known/jwks.json'' \<lparr>clock = 0, trace = []\<rparr>) =
     Inr \<lparr>rsa_N = 3233, rsa_E = 65537\<rparr>"
proof
  fix cfg :: config
  let ?s = "\<lparr>clock = 0, trace = []\<rparr> :: world"
  have "65537 < (2::nat) ^ 63" by simp
  from jwks_key_roundtrip [where encode = rfc_print and members = rfc_members and modulus = "\<lambda>n. n" and
      exponent = "\<lambda>_. 65537" and k = one_key and c = background and s = ?s and infos = "Inr 1" and ?s1.0 = ?s and
      tenantID = "''t''" and res = "Inr [3233]" and cfg = cfg and
      ?s3.0 = "emit (EGauge MetricJWKSKeyCount (int 1) [(''tenant_id'', ''t'')]) ?s" and s' = ?s and
      get = "\<lambda>url s. (Inr (Inr (body (fst (JWKSHandler rfc_print one_key ''t'' cfg background s)))), s)" and
      url = "''http://localhost:8080/.well-known/jwks.json''",
      OF rfc_print_def rfc_members this]
  show "fst (fetchFirstRSAKey (\<lambda>url s. (Inr (Inr (body (fst (JWKSHandler rfc_print one_key ''t'' cfg background s)))), s))
     ''http://localhost:8080/.well-known/jwks.json'' ?s) = Inr \<lparr>rsa_N = 3233, rsa_E = 65537\<rparr>"
    by (simp add: one_key_def)
qed


section \<open>The program\<close>

text \<open>
  \<^verbatim>\<open>jwt.ParseWithClaims\<close>, the text of the errors of the fetch and the formatting of a time are
  parameters.  A token without an expiry leaves a nil pointer, which the program dereferences.
\<close>

record token_claims =
  tc_Subject :: string
  tc_Issuer :: string
  tc_Audience :: "string list"
  tc_ExpiresAt :: "int option"
  tc_Role :: string
  tc_OrgID :: string
  tc_Tier :: string

text \<open>A parsed, not yet verified token: whether its method is an RSA one, and its \<^verbatim>\<open>alg\<close>.\<close>

record jwt_token =
  jt_rsa :: bool
  jt_alg :: string

record jwt_library =
  jl_parse :: "string \<Rightarrow> (jwt_token \<Rightarrow> go_error + rsa_public_key) \<Rightarrow> go_error + token_claims"
  jl_fetch_text :: "fetch_error \<Rightarrow> string"
  jl_rfc3339 :: "int \<Rightarrow> string"

definition rsa_keyfunc :: "rsa_public_key \<Rightarrow> jwt_token \<Rightarrow> go_error + rsa_public_key" where
  "rsa_keyfunc publicKey t =
     (if \<not> jt_rsa t then Inl (PlainErr [] (''unexpected signing method: '' @ jt_alg t)) else Inr publicKey)"

definition claims_request :: issue_token_request where
  "claims_request = \<lparr>i_sub = ''user-123'', i_tenant_id = ''local-dev'', i_idempotency_key = '''',
     i_claims = Some [(''role'', ''admin''), (''org_id'', ''acme-corp''), (''tier'', ''premium'')],
     i_audiences = []\<rparr>"

definition print_claims :: "jwt_library \<Rightarrow> token_claims \<Rightarrow> 's prog" where
  "print_claims lib cl =
     and_then (returns [println ''=== Registered claims ==='', println (''sub: '' @ tc_Subject cl),
       println (''iss: '' @ tc_Issuer cl), println (''aud: ['' @ join_with (CHR '' '') (tc_Audience cl) @ '']'')])
     (case tc_ExpiresAt cl of
        None \<Rightarrow> (\<lambda>s. (([], Some Panicked), s))
      | Some t \<Rightarrow>
          returns [println (''exp: '' @ jl_rfc3339 lib t), println (CHR 0x0A # ''=== Custom claims ===''),
            println (''role:   '' @ tc_Role cl), println (''org_id: '' @ tc_OrgID cl),
            println (''tier:   '' @ tc_Tier cl)])"

definition claims_main ::
  "('cert, 'pool) tls_files \<Rightarrow> (string \<Rightarrow> string) \<Rightarrow> 's network \<Rightarrow>
   (string \<Rightarrow> 's \<Rightarrow> (go_error + go_error + bytes) \<times> 's) \<Rightarrow> jwt_library \<Rightarrow> 's prog" where
  "claims_main ext env net get lib s =
     (let addr = envOrDefault env ''TOKEN_ENGINE_ADDR'' ''localhost:9090'';
          httpAddr = envOrDefault env ''TOKEN_ENGINE_HTTP_ADDR'' ''localhost:8080'';
          key = envOrDefault env ''TOKEN_ENGINE_STATIC_KEY'' ''example-key''
      in
      case NewClient ext (\<lambda>a. pc_dial (net a)) addr [WithPlaintext, WithStaticKey key] of
        Inl err \<Rightarrow> fatal [] (''client.NewClient: '' @ client_error_string err) s
      | Inr c \<Rightarrow>
          deferring_close ''close'' (pc_close (net addr)) (\<lambda>s.
            case client_IssueToken c (pc_conn (net addr)) claims_request [] s of
              (Inl err, s1) \<Rightarrow> fatal [] (''IssueToken: '' @ error_string err) s1
            | (Inr pair, s1) \<Rightarrow>
                and_then (returns [println (''access_token:  '' @ GetAccessToken pair @ [CHR 0x0A])]) (\<lambda>s.
                  case fetchFirstRSAKey get (''http://'' @ httpAddr @ ''/.well-known/jwks.json'') s of
                    (Inl err, s2) \<Rightarrow> fatal [] (''fetchFirstRSAKey: '' @ jl_fetch_text lib err) s2
                  | (Inr publicKey, s2) \<Rightarrow>
                      (case jl_parse lib (GetAccessToken pair) (rsa_keyfunc publicKey) of
                         Inl err \<Rightarrow> fatal [] (''jwt.ParseWithClaims: '' @ error_string err) s2
                       | Inr cl \<Rightarrow> print_claims lib cl s2)) s1) s)"

text \<open>The key is handed out to RSA methods only, whatever the token's header says.\<close>

lemma rsa_keyfunc_guard: "(\<exists>key. rsa_keyfunc publicKey t = Inr key) \<longleftrightarrow> jt_rsa t"
  by (simp add: rsa_keyfunc_def)

text \<open>The reserved claim keys are not among the example's.\<close>

lemma claims_request_well_formed: "well_formed_request (IssueReq claims_request)"
  by (simp add: claims_request_def no_reserved_def ReservedClaimKeys_def)

end
