(* ===== verification/Examples_Tenants.thy ===== *)
theory Examples_Tenants
  imports Examples
begin

text \<open>
  The program under \<^verbatim>\<open>examples/multi-tenant\<close>: two servers with one tenant each, and a refresh
  token of one tenant presented for the other.
\<close>


section \<open>The program\<close>

text \<open>A call whose failure ends the program.\<close>

definition must ::
  "('s \<Rightarrow> (go_error + response) \<times> 's) \<Rightarrow> (go_error \<Rightarrow> string) \<Rightarrow> (response \<Rightarrow> 's prog) \<Rightarrow> 's prog" where
  "must call msg k s =
     (case call s of
        (Inl err, s1) \<Rightarrow> fatal [] (msg err) s1
      | (Inr r, s1) \<Rightarrow> k r s1)"

definition tenant_issue :: "string \<Rightarrow> string \<Rightarrow> issue_token_request" where
  "tenant_issue sub tenant = \<lparr>i_sub = sub, i_tenant_id = tenant, i_idempotency_key = '''', i_claims = None,
     i_audiences = []\<rparr>"

definition tenant_refresh :: "string \<Rightarrow> string \<Rightarrow> refresh_token_request" where
  "tenant_refresh token tenant = \<lparr>f_refresh_token = token, f_tenant_id = tenant, f_idempotency_key = '''',
     f_claims = None\<rparr>"

text \<open>The two lines that show a pair.\<close>

definition pair_lines :: "string \<Rightarrow> string \<Rightarrow> response \<Rightarrow> printed list" where
  "pair_lines access refresh pair =
     [println (access @ GetAccessToken pair), println (refresh @ GetRefreshToken pair @ [CHR 0x0A])]"

definition cross_rejected :: "go_error \<Rightarrow> printed" where
  "cross_rejected err = println (''[cross-tenant] RefreshToken correctly rejected: '' @ error_string err)"

definition isolation_broken :: string where
  "isolation_broken = ''[cross-tenant] RefreshToken succeeded '' @ em_dash @ '' tenant isolation broken''"

definition cross_tenant ::
  "(go_error + response, 's, 'cert, 'pool) client \<Rightarrow> 's client_conn \<Rightarrow> response \<Rightarrow> 's prog" where
  "cross_tenant alpha cc alpha2 s =
     (case client_RefreshToken alpha cc (tenant_refresh (GetRefreshToken alpha2) ''tenant-beta'') [] s of
        (Inl err, s1) \<Rightarrow> returns [cross_rejected err] s1
      | (Inr _, s1) \<Rightarrow> fatal [] isolation_broken s1)"

definition tenants_body ::
  "(go_error + response, 's, 'cert, 'pool) client \<Rightarrow> 's client_conn \<Rightarrow>
   (go_error + response, 's, 'cert, 'pool) client \<Rightarrow> 's client_conn \<Rightarrow> 's prog" where
  "tenants_body alpha ccA beta ccB =
     must (client_IssueToken alpha ccA (tenant_issue ''user-123'' ''tenant-alpha'') [])
       (\<lambda>e. ''IssueToken (alpha): '' @ error_string e) (\<lambda>alphaPair.
     and_then (returns (pair_lines ''[tenant-alpha] access_token:  '' ''[tenant-alpha] refresh_token: '' alphaPair))
     (must (client_IssueToken alpha ccA (tenant_issue ''cross-test-user'' ''tenant-alpha'') [])
       (\<lambda>e. ''IssueToken (alpha/cross-test): '' @ error_string e) (\<lambda>alpha2.
     must (client_IssueToken beta ccB (tenant_issue ''user-456'' ''tenant-beta'') [])
       (\<lambda>e. ''IssueToken (beta): '' @ error_string e) (\<lambda>betaPair.
     and_then (returns (pair_lines ''[tenant-beta]  access_token:  '' ''[tenant-beta]  refresh_token: '' betaPair))
     (must (client_RefreshToken alpha ccA (tenant_refresh (GetRefreshToken alphaPair) ''tenant-alpha'') [])
       (\<lambda>e. ''RefreshToken (alpha): '' @ error_string e) (\<lambda>alphaRefreshed.
     and_then (returns (pair_lines ''[tenant-alpha] refreshed access_token:  ''
       ''[tenant-alpha] refreshed refresh_token: '' alphaRefreshed))
     (must (client_RefreshToken beta ccB (tenant_refresh (GetRefreshToken betaPair) ''tenant-beta'') [])
       (\<lambda>e. ''RefreshToken (beta): '' @ error_string e) (\<lambda>betaRefreshed.
     and_then (returns (pair_lines ''[tenant-beta]  refreshed access_token:  ''
       ''[tenant-beta]  refreshed refresh_token: '' betaRefreshed))
     (cross_tenant alpha ccA alpha2)))))))))"

definition multi_tenant_main ::
  "('cert, 'pool) tls_files \<Rightarrow> (string \<Rightarrow> string) \<Rightarrow> 's network \<Rightarrow> 's prog" where
  "multi_tenant_main ext env net s =
     (let alphaAddr = envOrDefault env ''TOKEN_ENGINE_ALPHA_ADDR'' ''localhost:9090'';
          betaAddr = envOrDefault env ''TOKEN_ENGINE_BETA_ADDR'' ''localhost:9091'';
          key = envOrDefault env ''TOKEN_ENGINE_STATIC_KEY'' ''devkey''
      in
      case NewClient ext (\<lambda>a. pc_dial (net a)) alphaAddr [WithPlaintext, WithStaticKey key] of
        Inl err \<Rightarrow> fatal [] (''client.NewClient (alpha): '' @ client_error_string err) s
      | Inr alpha \<Rightarrow>
          deferring_close ''close alpha'' (pc_close (net alphaAddr)) (\<lambda>s.
            case NewClient ext (\<lambda>a. pc_dial (net a)) betaAddr [WithPlaintext, WithStaticKey key] of
              Inl err \<Rightarrow> fatal [] (''client.NewClient (beta): '' @ client_error_string err) s
            | Inr beta \<Rightarrow>
                deferring_close ''close beta'' (pc_close (net betaAddr))
                  (tenants_body alpha (pc_conn (net alphaAddr)) beta (pc_conn (net betaAddr))) s) s)"


section \<open>A tenant that is not registered\<close>

text \<open>A handler that refuses a request, in every context with the given metadata.\<close>

definition refuses :: "string list str_map option \<Rightarrow> request \<Rightarrow> 'a world_scheme handler \<Rightarrow> bool" where
  "refuses md req h \<longleftrightarrow> (\<forall>c s. incoming_md c = md \<longrightarrow> (\<exists>e. fst (h c req s) = Inl e))"

lemma gates_refuse:
  assumes "refuses md req h"
  shows "refuses md req (NewCorrelationInterceptor uuid m h)" and "refuses md req (NewAuthInterceptor auth m h)"
    and "refuses md req (NewCallerAuthorizationInterceptor isPermitted m h)"
    and "refuses md req (NewValidationInterceptor m h)"
proof -
  show "refuses md req (NewCorrelationInterceptor uuid m h)"
    unfolding refuses_def
  proof (intro allI impI)
    fix c :: ctx and s
    assume c: "incoming_md c = md"
    let ?c = "WithCorrelationID c (fst (correlated uuid c s))"
    obtain s1 s' where "NewCorrelationInterceptor uuid m h c req s = (fst (h ?c req s1), s')"
      using correlation_run [of uuid c s req m] by blast
    with assms c show "\<exists>e. fst (NewCorrelationInterceptor uuid m h c req s) = Inl e"
      by (simp add: refuses_def)
  qed
qed (use assms in \<open>auto simp: refuses_def NewAuthInterceptor_def NewCallerAuthorizationInterceptor_def
    NewValidationInterceptor_def Let_def split: sum.split option.split prod.split\<close>)

lemma chain_refuses:
  assumes h: "refuses md req h" and key: "\<And>c. incoming_md c = md \<Longrightarrow> idem_class m c req \<in> insert Bypass (range Refused)"
  shows "refuses md req (chain (service_chain uuid auth isPermitted pc st) m h)"
proof -
  have "refuses md req (NewIdempotencyInterceptor pc st m h)"
    unfolding refuses_def
  proof (intro allI impI)
    fix c :: ctx and s
    assume c: "incoming_md c = md"
    from key [OF c] consider "idem_class m c req = Bypass" | e where "idem_class m c req = Refused e" by auto
    then show "\<exists>e. fst (NewIdempotencyInterceptor pc st m h c req s) = Inl e"
    proof cases
      case 1
      from interceptor_bypass [OF this] h c show ?thesis unfolding refuses_def by metis
    next
      case 2
      from interceptor_refused [OF this] show ?thesis by (metis fst_conv)
    qed
  qed
  then show ?thesis
    unfolding service_chain_def chain.simps by (intro gates_refuse)
qed

text \<open>The tenant is looked up before anything else is done.\<close>

lemma unregistered_refresh:
  assumes "map_of ts (f_tenant_id r) = None"
  shows "refuses md (RefreshReq r) (token_service (lookup_manager deref ts) a other)"
    and "f_tenant_id r \<noteq> '''' \<Longrightarrow> fst (token_service (lookup_manager deref ts) a other c (RefreshReq r) s) =
      Inl (StatusErr NotFound (''tenant '' @ f_tenant_id r @ '' not found''))"
  using assms
  by (auto simp: refuses_def token_service_def RefreshToken_def lookup_manager_def GetTenant_def fail_with_def Let_def)

lemma keyless_refresh:
  assumes "f_idempotency_key r = ''''" and "header_key c = ''''"
  shows "idem_class m c (RefreshReq r) \<in> insert Bypass (range Refused)"
    and "f_tenant_id r \<noteq> '''' \<Longrightarrow> idem_class m c (RefreshReq r) = Bypass"
  using assms by (auto simp: idem_class_def keyed_by_def)

text \<open>What a call over the connection answers is the chain's answer, in a context with its metadata.\<close>

lemma call_reaches_chain:
  assumes conn: "routes_by_name route" "wire_ok w"
      "connected cc deliver route w (TokenEngine_Methods w panic (NewTokenHandler get a))
         (chain (service_chain uuid auth permitted pc st))"
    and m: "full_method req = Some m" and sent: "cc m req md s = (r, s')"
  obtains c s1 where "incoming_md c = Some (deliver md)"
    and "r = fst (chain (service_chain uuid auth permitted pc st) m (token_service get a panic) c req s1)"
proof -
  let ?chain = "chain (service_chain uuid auth permitted pc st)"
  from handler_dispatch [OF conn(1,2) m, of panic get a panic] obtain hdl where
    hdl: "route TokenEngine_ServiceName (TokenEngine_Methods w panic (NewTokenHandler get a)) m = Some hdl"
      "\<And>c s. hdl c (wr_encode w req) (Some ?chain) s = ?chain m (token_service get a panic) c req s"
    using service_chain_passes by blast
  from conn(3) [unfolded connected_def, rule_format, OF hdl(1), of md s req, unfolded hdl(2)] sent that
  show thesis by auto
qed

text \<open>What such a call answers, from the client to the handler and back.\<close>

lemma cross_call:
  assumes conn: "routes_by_name route" "wire_ok w" "delivers deliver"
      "connected cc deliver route w (TokenEngine_Methods w panic (NewTokenHandler (lookup_manager deref ts) a))
         (chain (service_chain uuid (StaticKeyAuthenticate keys) permitted pc st))"
    and client: "cl_interceptors cl = [staticKeyInterceptor key]"
    and none: "map_of ts t = None" "t \<noteq> ''''"
    and run: "client_RefreshToken cl cc (tenant_refresh token t) [] s = (r, s')"
  shows "\<exists>e. r = Inl e"
    and "map_of keys key = Some identity \<Longrightarrow> identity \<noteq> '''' \<Longrightarrow> permitted identity t = (True, None) \<Longrightarrow>
      token \<noteq> '''' \<Longrightarrow> r = Inl (StatusErr NotFound (''tenant '' @ t @ '' not found''))"
proof -
  let ?chain = "chain (service_chain uuid (StaticKeyAuthenticate keys) permitted pc st)"
    and ?svc = "token_service (lookup_manager deref ts) a panic" and ?req = "RefreshReq (tenant_refresh token t)"
    and ?md = "[(MetadataKeyAPIKey, key)]" and ?m = TokenEngine_RefreshToken_FullMethodName
  have m: "full_method ?req = Some ?m" by simp
  have sent: "cc ?m ?req ?md s = (r, s')"
    using run client by (simp add: client_RefreshToken_def stub_RefreshToken_def staticKeyInterceptor_def
        MetadataKeyAPIKey_def)
  from call_reaches_chain [OF conn(1,2,4) m sent] obtain c s1 where
    c: "incoming_md c = Some (deliver ?md)" and r: "r = fst (?chain ?m ?svc c ?req s1)" .
  have apart: "MetadataKeyAPIKey \<noteq> MetadataKeyIdempotencyKey"
    by (simp add: MetadataKeyAPIKey_def MetadataKeyIdempotencyKey_def)
  have header: "header_key c' = ''''" if "incoming_md c' = Some (deliver ?md)" for c'
    using conn(3) that apart by (simp add: header_key_def delivers_def)
  have tenant: "f_tenant_id (tenant_refresh token t) = t" "f_idempotency_key (tenant_refresh token t) = ''''"
    by (simp_all add: tenant_refresh_def)
  note keyless = keyless_refresh [OF tenant(2) header]
  have unregistered: "map_of ts (f_tenant_id (tenant_refresh token t)) = None" using none(1) tenant(1) by simp
  have "refuses (Some (deliver ?md)) ?req (?chain ?m ?svc)"
    by (rule chain_refuses [OF unregistered_refresh(1) [OF unregistered] keyless(1)])
  with c r show "\<exists>e. r = Inl e" by (auto simp: refuses_def)
  assume known: "map_of keys key = Some identity" "identity \<noteq> ''''"
    and perm: "permitted identity t = (True, None)" and token: "token \<noteq> ''''"
  have auth: "StaticKeyAuthenticate keys c = Inr identity"
    using conn(3) c known(1) by (simp add: StaticKeyAuthenticate_def delivers_def)
  have perm': "permitted identity (case GetTenantId ?req of None \<Rightarrow> '''' | Some t \<Rightarrow> t) = (True, None)"
    using perm tenant(1) by simp
  have wf: "well_formed_request ?req"
    using token none(2) by (simp add: tenant_refresh_def no_reserved_def)
  let ?c = "WithCallerIdentity (WithCorrelationID c (fst (correlated uuid c s1))) identity"
  obtain s2 where "r = fst (NewIdempotencyInterceptor pc st ?m ?svc ?c ?req s2)"
    using chain_run [of "StaticKeyAuthenticate keys" c identity permitted ?req uuid s1 pc st ?m ?svc,
        OF credentials_read(2) auth known(2) perm' wf] r by (auto simp: Let_def)
  moreover have "idem_class ?m ?c ?req = Bypass"
    by (rule keyless(2)) (use c none(2) tenant(1) in simp_all)
  ultimately obtain s3 where "r = fst (?svc ?c ?req s3)" using interceptor_bypass by metis
  with unregistered_refresh(2) [OF unregistered] none(2) tenant(1)
  show "r = Inl (StatusErr NotFound (''tenant '' @ t @ '' not found''))" by simp
qed


text \<open>A program that does not end in the failure of the demonstration, and prints the rejection if it returns.\<close>

definition rejecting :: "'s prog \<Rightarrow> bool" where
  "rejecting p \<longleftrightarrow> (\<forall>s. snd (fst (p s)) \<noteq> Some (Fatal isolation_broken) \<and>
     (snd (fst (p s)) = None \<longrightarrow> (\<exists>err. cross_rejected err \<in> set (fst (fst (p s))))))"

lemma rejecting_must:
  assumes "\<And>e. msg e \<noteq> isolation_broken" and "\<And>r. rejecting (k r)"
  shows "rejecting (must call msg k)"
  using assms by (auto simp: rejecting_def must_def fatal_def split: prod.split sum.split)

lemma rejecting_print: "rejecting p \<Longrightarrow> rejecting (and_then (returns l) p)"
  by (auto simp: rejecting_def and_then_def returns_def split_beta)

lemma rejecting_close:
  assumes "rejecting p"
  shows "rejecting (deferring_close label conn_close p)"
  unfolding rejecting_def
proof
  fix s
  obtain out f s1 where p: "p s = ((out, f), s1)" by (metis prod.collapse)
  obtain e s2 where cl: "conn_close s1 = (e, s2)" by fastforce
  from assms [unfolded rejecting_def, rule_format, of s]
  show "snd (fst (deferring_close label conn_close p s)) \<noteq> Some (Fatal isolation_broken) \<and>
      (snd (fst (deferring_close label conn_close p s)) = None \<longrightarrow>
        (\<exists>err. cross_rejected err \<in> set (fst (fst (deferring_close label conn_close p s)))))"
    by (cases f; cases e) (auto simp: deferring_close_def Close_def p cl split: stop.split)
qed

lemma rejecting_case:
  assumes "\<And>e. msg e \<noteq> isolation_broken" and "\<And>c. r = Inr c \<Longrightarrow> rejecting (k c)"
  shows "rejecting (\<lambda>s. case r of Inl e \<Rightarrow> fatal [] (msg e) s | Inr c \<Rightarrow> k c s)"
  using assms by (cases r) (simp_all add: rejecting_def fatal_def)

lemma rejecting_body:
  assumes "\<And>alpha2. rejecting (cross_tenant alpha ccA alpha2)"
  shows "rejecting (tenants_body alpha ccA beta ccB)"
  unfolding tenants_body_def
  by (intro rejecting_must rejecting_print assms) (simp_all add: isolation_broken_def)


section \<open>Property\<close>

text \<open>
  C7: The multi-tenant example, end to end.  On a server that does not have tenant-beta
  registered, the program never ends with the message that tenant isolation is broken, whatever
  the other server does and whoever the caller is; if it returns, it has printed that the
  refresh token of tenant-alpha, presented as tenant-beta's, was rejected.  For a caller the
  server knows and permits for tenant-beta, such a call is answered with codes.NotFound.
\<close>
theorem tenant_isolation_example:
  fixes s :: "'a world_scheme" and env :: "string \<Rightarrow> string"
  defines "addr \<equiv> envOrDefault env ''TOKEN_ENGINE_ALPHA_ADDR'' ''localhost:9090''"
    and "apiKey \<equiv> envOrDefault env ''TOKEN_ENGINE_STATIC_KEY'' ''devkey''"
  assumes conn: "routes_by_name route" "wire_ok w" "delivers deliver"
      "connected (pc_conn (net addr)) deliver route w
         (TokenEngine_Methods w panic (NewTokenHandler (lookup_manager deref ts) a))
         (chain (service_chain uuid (StaticKeyAuthenticate keys) permitted pc st))"
    and none: "map_of ts ''tenant-beta'' = None"
    and run: "multi_tenant_main ext env net s = ((out, f), s')"
  shows "f \<noteq> Some (Fatal isolation_broken) \<and> (f = None \<longrightarrow> (\<exists>err. cross_rejected err \<in> set out)) \<and>
    (\<forall>identity token t.
       map_of keys apiKey = Some identity \<and> identity \<noteq> '''' \<and>
       permitted identity ''tenant-beta'' = (True, None) \<and> token \<noteq> '''' \<and>
       NewClient ext (\<lambda>a. pc_dial (net a)) addr [WithPlaintext, WithStaticKey apiKey] = Inr alpha \<longrightarrow>
       fst (client_RefreshToken alpha (pc_conn (net addr)) (tenant_refresh token ''tenant-beta'') [] t) =
         Inl (StatusErr NotFound ''tenant tenant-beta not found''))"
proof -
  have key: "apiKey \<noteq> ''''" by (simp add: apiKey_def)
  note call = cross_call [OF conn plain_client [OF _ key] none]
  have cross: "rejecting (cross_tenant cl (pc_conn (net addr)) alpha2)"
    if cl: "NewClient ext (\<lambda>a. pc_dial (net a)) addr [WithPlaintext, WithStaticKey apiKey] = Inr cl"
    for cl :: "(go_error + response, 'a world_scheme, 'b, 'c) client" and alpha2
    unfolding rejecting_def
  proof
    fix t
    obtain r t' where r: "client_RefreshToken cl (pc_conn (net addr))
        (tenant_refresh (GetRefreshToken alpha2) ''tenant-beta'') [] t = (r, t')" by fastforce
    from call(1) [OF cl _ r] obtain e where "r = Inl e" by auto
    with r show "snd (fst (cross_tenant cl (pc_conn (net addr)) alpha2 t)) \<noteq> Some (Fatal isolation_broken) \<and>
        (snd (fst (cross_tenant cl (pc_conn (net addr)) alpha2 t)) = None \<longrightarrow>
          (\<exists>err. cross_rejected err \<in> set (fst (fst (cross_tenant cl (pc_conn (net addr)) alpha2 t)))))"
      by (auto simp: cross_tenant_def returns_def)
  qed
  have main: "rejecting (multi_tenant_main ext env net :: 'a world_scheme prog)"
    unfolding multi_tenant_main_def [abs_def] Let_def addr_def [symmetric] apiKey_def [symmetric]
    by (intro rejecting_case rejecting_close rejecting_body cross) (simp_all add: isolation_broken_def)
  have denied: "fst (client_RefreshToken alpha (pc_conn (net addr)) (tenant_refresh token ''tenant-beta'') [] t) =
      Inl (StatusErr NotFound ''tenant tenant-beta not found'')"
    if "map_of keys apiKey = Some identity" "identity \<noteq> ''''" "permitted identity ''tenant-beta'' = (True, None)"
      "token \<noteq> ''''" "NewClient ext (\<lambda>a. pc_dial (net a)) addr [WithPlaintext, WithStaticKey apiKey] = Inr alpha"
    for identity token t
    using call(2) [OF that(5) _ prod.collapse [symmetric] that(1-4)] by simp
  from main [unfolded rejecting_def, rule_format, of s] run denied show ?thesis by auto
qed

definition two_servers :: "'b lock_world_scheme network" where
  "two_servers addr = mem_network (if addr = ''localhost:9091'' then ''tenant-beta'' else ''tenant-alpha'') addr"

theorem tenant_isolation_example_witness:
  "snd (fst (multi_tenant_main no_tls (\<lambda>_. '''') two_servers lock_start)) \<noteq> Some (Fatal isolation_broken) \<and>
   fst (client_RefreshToken (mem_client ''devkey'') (mem_conn ''tenant-alpha'')
     (tenant_refresh ''refresh'' ''tenant-beta'') [] lock_start) =
     Inl (StatusErr NotFound ''tenant tenant-beta not found'')"
proof -
  let ?env = "\<lambda>_. ''''"
  have addr: "envOrDefault ?env ''TOKEN_ENGINE_ALPHA_ADDR'' ''localhost:9090'' = ''localhost:9090''"
    and key: "envOrDefault ?env ''TOKEN_ENGINE_STATIC_KEY'' ''devkey'' = ''devkey''"
    by (simp_all add: envOrDefault_def)
  have alpha: "pc_conn (two_servers ''localhost:9090'') = mem_conn ''tenant-alpha''"
    "pc_dial (two_servers a) = None" for a
    by (simp_all add: two_servers_def mem_network_def)
  have conn: "connected (pc_conn (two_servers (envOrDefault ?env ''TOKEN_ENGINE_ALPHA_ADDR'' ''localhost:9090'')))
      plain_delivery name_route plain_wire
      (TokenEngine_Methods plain_wire mem_other (NewTokenHandler (mem_lookup ''tenant-alpha'') NewNoOpAuditStore))
      (chain (service_chain mem_uuid (StaticKeyAuthenticate mem_keys) NoOpIsPermitted plain_codec mem_store))"
    unfolding addr alpha mem_conn_def by (rule direct_connected)
  have none: "map_of (one_tenant ''tenant-alpha'') ''tenant-beta'' = None"
    by (simp add: one_tenant_def)
  obtain out f s' where run: "multi_tenant_main no_tls ?env two_servers lock_start = ((out, f), s')"
    by (metis prod.collapse)
  have "map_of mem_keys ''devkey'' = Some ''dev''" "''dev'' \<noteq> ''''" "NoOpIsPermitted ''dev'' ''tenant-beta'' = (True, None)"
    "''refresh'' \<noteq> ''''" "NewClient no_tls (\<lambda>a. None) ''localhost:9090'' [WithPlaintext, WithStaticKey ''devkey''] =
      Inr (mem_client ''devkey'' :: (go_error + response, lock_world, unit, unit) client)"
    using mem_NewClient [of "''devkey''"] by (simp_all add: mem_keys_def NoOpIsPermitted_def)
  with tenant_isolation_example [OF name_route plain_wire plain_delivery conn none run, unfolded addr key alpha,
      of "mem_client ''devkey''"] run
  show ?thesis by simp
qed

end
