(* ===== verification/Examples_Clients.thy ===== *)
theory Examples_Clients
  imports Examples_Tenants
begin

text \<open>
  The two smallest programs, \<^verbatim>\<open>examples/grpc-client\<close> and \<^verbatim>\<open>examples/mtls-client\<close>: one issuance each,
  with a static key and with a client certificate.  Without a certificate the second falls back
  to plaintext.
\<close>

definition first_issue :: "string \<Rightarrow> issue_token_request" where
  "first_issue tenantID = \<lparr>i_sub = ''user-123'', i_tenant_id = tenantID, i_idempotency_key = '''',
     i_claims = None, i_audiences = []\<rparr>"

text \<open>What both do with their client.\<close>

definition issue_and_print ::
  "(string \<Rightarrow> string) \<Rightarrow> (go_error + response, 's, 'cert, 'pool) client \<Rightarrow> 's client_conn \<Rightarrow> 's prog" where
  "issue_and_print env c cc s =
     (let tenantID = envOrDefault env ''TOKEN_ENGINE_ISSUER'' ''local-dev'' in
      case client_IssueToken c cc (first_issue tenantID) [] s of
        (Inl err, s1) \<Rightarrow> fatal [] (''IssueToken: '' @ error_string err) s1
      | (Inr pair, s1) \<Rightarrow>
          returns [println (''access_token:  '' @ GetAccessToken pair),
            println (''refresh_token: '' @ GetRefreshToken pair)] s1)"

definition grpc_client_main ::
  "('cert, 'pool) tls_files \<Rightarrow> (string \<Rightarrow> string) \<Rightarrow> 's network \<Rightarrow> 's prog" where
  "grpc_client_main ext env net s =
     (let addr = envOrDefault env ''TOKEN_ENGINE_ADDR'' ''localhost:9090'';
          staticKey = envOrDefault env ''TOKEN_ENGINE_STATIC_KEY'' ''example-key''
      in
      case NewClient ext (\<lambda>a. pc_dial (net a)) addr [WithPlaintext, WithStaticKey staticKey] of
        Inl err \<Rightarrow> fatal [] (''client.NewClient: '' @ client_error_string err) s
      | Inr c \<Rightarrow>
          deferring_close ''close'' (pc_close (net addr)) (issue_and_print env c (pc_conn (net addr))) s)"

definition fallback_line :: printed where
  "fallback_line = Log (''CLIENT_CERT/CLIENT_KEY/CA_CERT not set '' @ em_dash @ '' falling back to plaintext'')"

definition mtls_client_main ::
  "('cert, 'pool) tls_files \<Rightarrow> (string \<Rightarrow> string) \<Rightarrow> 's network \<Rightarrow> 's prog" where
  "mtls_client_main ext env net s =
     (let addr = envOrDefault env ''TOKEN_ENGINE_ADDR'' ''localhost:9090'';
          certFile = env ''CLIENT_CERT'';
          keyFile = env ''CLIENT_KEY'';
          caFile = env ''CA_CERT'';
          (opts, out) =
            (if certFile \<noteq> '''' \<and> keyFile \<noteq> '''' \<and> caFile \<noteq> '''' then ([WithMTLS certFile keyFile caFile], [])
             else ([WithPlaintext], [fallback_line]))
      in
      case NewClient ext (\<lambda>a. pc_dial (net a)) addr opts of
        Inl err \<Rightarrow> fatal out (''client.NewClient: '' @ client_error_string err) s
      | Inr c \<Rightarrow>
          deferring_close ''close'' (pc_close (net addr))
            (and_then (returns out) (issue_and_print env c (pc_conn (net addr)))) s)"


section \<open>The fallback\<close>

lemma no_key_refused:
  assumes "delivers deliver" and "incoming_md c = Some (deliver [])"
  shows "StaticKeyAuthenticate keys c = Inl (StatusErr Unauthenticated ''invalid or missing api key'')"
  using assms by (simp add: StaticKeyAuthenticate_def delivers_def)

lemma unauthenticated_chain:
  assumes "\<And>c'. incoming_md c' = incoming_md c \<Longrightarrow> auth c' = Inl e"
  shows "fst (chain (service_chain uuid auth permitted pc st) m h c req s) = Inl e"
proof -
  let ?rest = "NewAuthInterceptor auth m (NewCallerAuthorizationInterceptor permitted m
    (NewValidationInterceptor m (NewIdempotencyInterceptor pc st m h)))"
    and ?c = "WithCorrelationID c (fst (correlated uuid c s))"
  obtain s1 s' where "NewCorrelationInterceptor uuid m ?rest c req s = (fst (?rest ?c req s1), s')"
    using correlation_run [of uuid c s req m] by blast
  moreover have "auth ?c = Inl e" by (rule assms) simp
  then have "?rest ?c req s1 = (Inl e, s1)" by (simp add: NewAuthInterceptor_def)
  ultimately show ?thesis by (simp add: service_chain_def)
qed

text \<open>
  The plaintext fallback is always refused.  Without its three certificate paths the mTLS
  example connects in plaintext and sends no API key; a service that accepts plaintext
  authenticates its callers by static keys only, so whatever its keys, its caller registry, its
  tenants and its store are, the program prints no token: it ends with the refusal
  codes.Unauthenticated of its only call.
\<close>
theorem plaintext_fallback_refused:
  fixes env :: "string \<Rightarrow> string" and s :: "'a world_scheme"
  defines "addr \<equiv> envOrDefault env ''TOKEN_ENGINE_ADDR'' ''localhost:9090''"
  assumes unset: "env ''CLIENT_CERT'' = '''' \<or> env ''CLIENT_KEY'' = '''' \<or> env ''CA_CERT'' = ''''"
    and conn: "routes_by_name route" "wire_ok w" "delivers deliver"
      "connected (pc_conn (net addr)) deliver route w (TokenEngine_Methods w panic (NewTokenHandler get a))
         (chain (service_chain uuid (StaticKeyAuthenticate keys) permitted pc st))"
    and dial: "pc_dial (net addr) = None"
  shows "fst (mtls_client_main ext env net s) =
    ([fallback_line],
     Some (Fatal ''IssueToken: rpc error: code = Unauthenticated desc = invalid or missing api key''))"
proof -
  let ?m = TokenEngine_IssueToken_FullMethodName
    and ?r = "first_issue (envOrDefault env ''TOKEN_ENGINE_ISSUER'' ''local-dev'')"
    and ?e = "StatusErr Unauthenticated ''invalid or missing api key''"
  obtain cl :: "(go_error + response, 'a world_scheme, 'b, 'c) client" where
    cl: "NewClient ext (\<lambda>a. pc_dial (net a)) addr [WithPlaintext] = Inr cl" "cl_interceptors cl = []"
    using dial by (simp add: NewClient_def default_dial_config_def)
  obtain r s1 where sent: "pc_conn (net addr) ?m (IssueReq ?r) [] s = (r, s1)" by fastforce
  have m: "full_method (IssueReq ?r) = Some ?m" by simp
  from call_reaches_chain [OF conn(1,2,4) m sent] obtain c t where
    c: "incoming_md c = Some (deliver [])"
      "r = fst (chain (service_chain uuid (StaticKeyAuthenticate keys) permitted pc st) ?m
         (token_service get a panic) c (IssueReq ?r) t)" .
  have "r = Inl ?e"
    unfolding c(2) by (rule unauthenticated_chain) (use no_key_refused [OF conn(3)] c(1) in simp)
  with sent cl(2) have "client_IssueToken cl (pc_conn (net addr)) ?r [] s = (Inl ?e, s1)"
    by (simp add: client_IssueToken_def stub_IssueToken_def)
  moreover have "opts = ([WithPlaintext], [fallback_line])" if
    "opts = (if env ''CLIENT_CERT'' \<noteq> '''' \<and> env ''CLIENT_KEY'' \<noteq> '''' \<and> env ''CA_CERT'' \<noteq> ''''
       then ([WithMTLS (env ''CLIENT_CERT'') (env ''CLIENT_KEY'') (env ''CA_CERT'')], [])
       else ([WithPlaintext], [fallback_line]))" for opts :: "_ client_option list \<times> printed list"
    using that unset by auto
  ultimately show ?thesis
    using unset cl(1)
    by (auto simp: mtls_client_main_def Let_def addr_def deferring_close_def and_then_def returns_def
        issue_and_print_def fatal_def)
qed


theorem plaintext_fallback_refused_witness:
  "fst (mtls_client_main no_tls (\<lambda>_. '''') (mem_network ''local-dev'') lock_start) =
    ([fallback_line],
     Some (Fatal ''IssueToken: rpc error: code = Unauthenticated desc = invalid or missing api key''))"
proof -
  let ?env = "\<lambda>_. ''''"
  have conn: "connected (pc_conn (mem_network ''local-dev'' a)) plain_delivery name_route plain_wire
      (TokenEngine_Methods plain_wire mem_other (NewTokenHandler (mem_lookup ''local-dev'') NewNoOpAuditStore))
      (chain (service_chain mem_uuid (StaticKeyAuthenticate mem_keys) NoOpIsPermitted plain_codec mem_store))" for a
    unfolding mem_network_def by (simp add: mem_conn_def direct_connected)
  have dial: "pc_dial (mem_network ''local-dev'' a) = None" for a by (simp add: mem_network_def)
  show ?thesis
    by (rule plaintext_fallback_refused [OF _ name_route plain_wire plain_delivery conn dial]) simp
qed

end
