(* ===== verification/Service_Lifecycle.thy ===== *)
theory Service_Lifecycle
  imports Service_Main
begin

text \<open>
  The life of the started service in \<^verbatim>\<open>cmd/token-engine/main.go\<close>: the background loops, and the
  graceful shutdown as a step relation between the main goroutine, the gRPC server, the calls in
  flight and the timer.
\<close>


section \<open>The background loops\<close>

text \<open>What a \<^verbatim>\<open>select\<close> between \<^verbatim>\<open>ctx.Done()\<close> and the ticker picks.\<close>

datatype wakeup = Done | Tick

text \<open>A loop up to the given wake-ups; \<open>True\<close> if it has returned.\<close>

fun background_loop :: "('s \<Rightarrow> 's) \<Rightarrow> wakeup list \<Rightarrow> 's \<Rightarrow> bool \<times> 's" where
  "background_loop pass [] s = (False, s)"
| "background_loop pass (Done # ws) s = (True, s)"
| "background_loop pass (Tick # ws) s = background_loop pass ws (pass s)"

lemma loop_after_done: "background_loop pass (replicate n Tick @ Done # ws) s = (True, (pass ^^ n) s)"
  by (induction n arbitrary: s) (simp_all add: funpow_swap1)

text \<open>The reconciliation runner, and the key rotation of a tenant.\<close>

definition reconciler_loop ::
  "'a world_scheme cursor_reconciler \<Rightarrow> ctx \<Rightarrow> wakeup list \<Rightarrow> int \<times> 'a world_scheme \<Rightarrow>
   bool \<times> int \<times> 'a world_scheme" where
  "reconciler_loop r c = background_loop (\<lambda>st. snd (Run r c st))"

definition rotation_loop ::
  "'a world_scheme redis_client \<Rightarrow> 'a world_scheme locker \<Rightarrow> time_text \<Rightarrow>
   (ctx \<Rightarrow> 'a world_scheme \<Rightarrow> go_error option \<times> 'a world_scheme) \<Rightarrow> config \<Rightarrow> string \<Rightarrow> ctx \<Rightarrow>
   wakeup list \<Rightarrow> 'a world_scheme \<Rightarrow> bool \<times> 'a world_scheme" where
  "rotation_loop client acquire tt rotateKeys cfg tenantID c =
     background_loop (rotation_tick client acquire tt rotateKeys (RotationWindowGuard cfg) (LockTTL cfg) tenantID c)"


section \<open>Shutting down\<close>

text \<open>
  Where the main goroutine is: it waits for a signal, waits for the drain until the timer's
  deadline, flushes the spans, shuts the key managers down one by one in the order the range over
  the map gives, and stops the HTTP server last.
\<close>

datatype phase =
    Serving
  | Draining int
  | Flushing
  | StoppingKeys "string list"
  | StoppingHTTP
  | Exited

datatype grpc_state = Accepting | Stopping | Stopped

record lifecycle =
  lc_now :: int
  lc_phase :: phase
  lc_signalled :: "int option"
  lc_grpc :: grpc_state
  lc_inflight :: nat
  lc_cut :: nat
  lc_http :: bool
  lc_flushed :: bool
  lc_down :: "string list"
  lc_log :: "string list"

definition grpcDrainTimeout :: int where
  "grpcDrainTimeout = 10 * nsSecond"

definition lc_start :: "int \<Rightarrow> lifecycle" where
  "lc_start t = \<lparr>lc_now = t, lc_phase = Serving, lc_signalled = None, lc_grpc = Accepting, lc_inflight = 0,
     lc_cut = 0, lc_http = True, lc_flushed = False, lc_down = [], lc_log = []\<rparr>"

text \<open>The line an error of a shutdown call prints, if there is one.\<close>

definition logged_error :: "string \<Rightarrow> go_error option \<Rightarrow> lifecycle \<Rightarrow> lifecycle" where
  "logged_error msg err s =
     (case err of None \<Rightarrow> s | Some e \<Rightarrow> s\<lparr>lc_log := lc_log s @ [msg @ '': '' @ error_string e]\<rparr>)"

text \<open>
  The steps.  A timer fires on time: no time passes beyond the deadline while main waits for it.
  \<^verbatim>\<open>GracefulStop\<close> runs in a goroutine of its own: it stops the server from accepting calls some
  time after the signal, and returns when no call is left.  \<^verbatim>\<open>Stop\<close> cuts the calls that are left:
  it cancels them, without waiting for their handlers.  The errors of the calls are arbitrary.
\<close>

inductive lc_step :: "string list \<Rightarrow> lifecycle \<Rightarrow> lifecycle \<Rightarrow> bool" for tenants where
  time: "\<lbrakk>0 \<le> d; lc_phase s \<noteq> Exited; \<And>t. lc_phase s = Draining t \<Longrightarrow> lc_now s + d \<le> t\<rbrakk> \<Longrightarrow>
    lc_step tenants s (s\<lparr>lc_now := lc_now s + d\<rparr>)"
| rpc: "\<lbrakk>lc_phase s \<noteq> Exited; lc_grpc s = Accepting\<rbrakk> \<Longrightarrow>
    lc_step tenants s (s\<lparr>lc_inflight := Suc (lc_inflight s)\<rparr>)"
| reply: "\<lbrakk>lc_phase s \<noteq> Exited; lc_inflight s = Suc n\<rbrakk> \<Longrightarrow> lc_step tenants s (s\<lparr>lc_inflight := n\<rparr>)"
| signal: "lc_phase s = Serving \<Longrightarrow>
    lc_step tenants s (s\<lparr>lc_phase := Draining (lc_now s + grpcDrainTimeout), lc_signalled := Some (lc_now s)\<rparr>)"
| graceful: "\<lbrakk>lc_phase s \<notin> {Serving, Exited}; lc_grpc s = Accepting\<rbrakk> \<Longrightarrow>
    lc_step tenants s (s\<lparr>lc_grpc := Stopping\<rparr>)"
| drained: "\<lbrakk>lc_phase s \<noteq> Exited; lc_grpc s = Stopping; lc_inflight s = 0\<rbrakk> \<Longrightarrow>
    lc_step tenants s (s\<lparr>lc_grpc := Stopped\<rparr>)"
| drain_done: "\<lbrakk>lc_phase s = Draining t; lc_grpc s = Stopped\<rbrakk> \<Longrightarrow> lc_step tenants s (s\<lparr>lc_phase := Flushing\<rparr>)"
| drain_timeout: "\<lbrakk>lc_phase s = Draining t; t \<le> lc_now s\<rbrakk> \<Longrightarrow>
    lc_step tenants s (s\<lparr>lc_phase := Flushing, lc_grpc := Stopped, lc_inflight := 0,
      lc_cut := lc_inflight s, lc_log := lc_log s @ [''graceful gRPC stop timed out; forcing stop'']\<rparr>)"
| flush: "\<lbrakk>lc_phase s = Flushing; mset ks = mset tenants\<rbrakk> \<Longrightarrow>
    lc_step tenants s (logged_error ''otel shutdown error'' err (s\<lparr>lc_phase := StoppingKeys ks, lc_flushed := True\<rparr>))"
| stop_key: "lc_phase s = StoppingKeys (k # ks) \<Longrightarrow>
    lc_step tenants s (logged_error (''key manager shutdown error for tenant '' @ k) err
      (s\<lparr>lc_phase := StoppingKeys ks, lc_down := lc_down s @ [k]\<rparr>))"
| keys_stopped: "lc_phase s = StoppingKeys [] \<Longrightarrow> lc_step tenants s (s\<lparr>lc_phase := StoppingHTTP\<rparr>)"
| stop_http: "lc_phase s = StoppingHTTP \<Longrightarrow>
    lc_step tenants s (logged_error ''http server shutdown error'' err (s\<lparr>lc_phase := Exited, lc_http := False\<rparr>))"

inductive lc_reachable :: "string list \<Rightarrow> lifecycle \<Rightarrow> bool" for tenants where
  start: "lc_reachable tenants (lc_start t)"
| step: "\<lbrakk>lc_reachable tenants s; lc_step tenants s s'\<rbrakk> \<Longrightarrow> lc_reachable tenants s'"

inductive_cases lc_step_cases: "lc_step tenants s s'"


section \<open>The order of a shutdown\<close>

text \<open>
  The invariant, in three parts: what the main goroutine has done so far, what the gRPC server
  and its calls are in each phase, and the timer.
\<close>

fun progress :: "string list \<Rightarrow> phase \<Rightarrow> bool \<Rightarrow> string list \<Rightarrow> bool \<Rightarrow> bool" where
  "progress tenants (StoppingKeys ks) flushed down http \<longleftrightarrow>
     flushed \<and> mset (down @ ks) = mset tenants \<and> http"
| "progress tenants StoppingHTTP flushed down http \<longleftrightarrow> flushed \<and> mset down = mset tenants \<and> http"
| "progress tenants Exited flushed down http \<longleftrightarrow> flushed \<and> mset down = mset tenants \<and> \<not> http"
| "progress tenants p flushed down http \<longleftrightarrow> \<not> flushed \<and> down = [] \<and> http"

definition grpc_inv :: "lifecycle \<Rightarrow> bool" where
  "grpc_inv s \<longleftrightarrow>
     (case lc_phase s of
        Serving \<Rightarrow> lc_grpc s = Accepting \<and> lc_cut s = 0
      | Draining t \<Rightarrow> (lc_grpc s = Stopped \<longrightarrow> lc_inflight s = 0) \<and> lc_cut s = 0
      | _ \<Rightarrow> lc_grpc s = Stopped \<and> lc_inflight s = 0)"

definition timer_inv :: "lifecycle \<Rightarrow> bool" where
  "timer_inv s \<longleftrightarrow>
     (case (lc_phase s, lc_signalled s) of
        (Serving, t) \<Rightarrow> t = None
      | (_, None) \<Rightarrow> False
      | (Draining d, Some t) \<Rightarrow> d = t + grpcDrainTimeout \<and> t \<le> lc_now s \<and> lc_now s \<le> d
      | (_, Some t) \<Rightarrow> t \<le> lc_now s \<and> (0 < lc_cut s \<longrightarrow> t + grpcDrainTimeout \<le> lc_now s))"

definition lc_inv :: "string list \<Rightarrow> lifecycle \<Rightarrow> bool" where
  "lc_inv tenants s \<longleftrightarrow>
     progress tenants (lc_phase s) (lc_flushed s) (lc_down s) (lc_http s) \<and> grpc_inv s \<and> timer_inv s"

lemma logged_error_frame [simp]:
  "lc_now (logged_error m err s) = lc_now s" "lc_phase (logged_error m err s) = lc_phase s"
  "lc_signalled (logged_error m err s) = lc_signalled s" "lc_grpc (logged_error m err s) = lc_grpc s"
  "lc_inflight (logged_error m err s) = lc_inflight s" "lc_cut (logged_error m err s) = lc_cut s"
  "lc_http (logged_error m err s) = lc_http s" "lc_flushed (logged_error m err s) = lc_flushed s"
  "lc_down (logged_error m err s) = lc_down s"
  by (simp_all add: logged_error_def split: option.split)

lemma lc_inv_step:
  assumes "lc_step tenants s s'" and "lc_inv tenants s"
  shows "lc_inv tenants s'"
  using assms
proof cases
  case (time d)
  with assms(2) show ?thesis
    by (cases "lc_phase s") (auto simp: lc_inv_def grpc_inv_def timer_inv_def split: option.splits)
qed (cases "lc_phase s"; auto simp: lc_inv_def grpc_inv_def timer_inv_def grpcDrainTimeout_def nsSecond_def
    split: option.splits)+

lemma lc_reachable_inv: "lc_reachable tenants s \<Longrightarrow> lc_inv tenants s"
proof (induction rule: lc_reachable.induct)
  case (start t)
  show ?case by (simp add: lc_inv_def grpc_inv_def timer_inv_def lc_start_def)
next
  case (step s s')
  then show ?case using lc_inv_step by blast
qed


section \<open>Properties\<close>


text \<open>One call in flight when the signal comes, and not answered in time.\<close>

definition cut_run :: lifecycle where
  "cut_run = (lc_start 0)\<lparr>lc_inflight := 0, lc_phase := Flushing, lc_signalled := Some 0,
     lc_now := 10 * nsSecond, lc_grpc := Stopped, lc_cut := 1,
     lc_log := [''graceful gRPC stop timed out; forcing stop'']\<rparr>"




section \<open>A shutdown completes\<close>

text \<open>
  What is left for the main goroutine to do: every step of its own makes it smaller, and no other
  step changes where it is.
\<close>

fun remaining :: "string list \<Rightarrow> phase \<Rightarrow> nat" where
  "remaining tenants Serving = length tenants + 5"
| "remaining tenants (Draining t) = length tenants + 4"
| "remaining tenants Flushing = length tenants + 3"
| "remaining tenants (StoppingKeys ks) = length ks + 2"
| "remaining tenants StoppingHTTP = 1"
| "remaining tenants Exited = 0"

lemma lc_step_progress:
  assumes "lc_step tenants s s'"
  shows "lc_phase s' = lc_phase s \<or> remaining tenants (lc_phase s') < remaining tenants (lc_phase s)"
  using assms by cases (auto dest: mset_eq_length)

text \<open>The main goroutine can take a step of its own.\<close>

definition main_can :: "string list \<Rightarrow> lifecycle \<Rightarrow> bool" where
  "main_can tenants s \<longleftrightarrow> (\<exists>s'. lc_step tenants s s' \<and> lc_phase s' \<noteq> lc_phase s)"

lemma main_can_move:
  assumes "lc_phase s \<noteq> Exited" and "\<And>t. lc_phase s = Draining t \<Longrightarrow> t \<le> lc_now s"
  shows "main_can tenants s"
proof (cases "lc_phase s")
  case Serving
  from lc_step.signal [OF this, of tenants] Serving show ?thesis unfolding main_can_def by fastforce
next
  case (Draining t)
  from lc_step.drain_timeout [OF this assms(2) [OF this], of tenants] Draining
  show ?thesis unfolding main_can_def by fastforce
next
  case Flushing
  from lc_step.flush [OF this refl, of tenants None] Flushing show ?thesis unfolding main_can_def by fastforce
next
  case (StoppingKeys ks)
  show ?thesis
  proof (cases ks)
    case Nil
    with lc_step.keys_stopped [of s tenants] StoppingKeys show ?thesis unfolding main_can_def by fastforce
  next
    case (Cons k ks')
    with lc_step.stop_key [of s k ks' tenants None] StoppingKeys show ?thesis unfolding main_can_def by fastforce
  qed
next
  case StoppingHTTP
  from lc_step.stop_http [OF this, of tenants None] StoppingHTTP show ?thesis unfolding main_can_def by fastforce
qed (use assms in simp)

text \<open>
  A run that goes on for ever: after an exit it stays where it is.  Time reaches a deadline that
  main waits for, and main is not starved: it is not held back for ever from a step it can take.
\<close>

definition lc_run :: "string list \<Rightarrow> (nat \<Rightarrow> lifecycle) \<Rightarrow> bool" where
  "lc_run tenants f \<longleftrightarrow> lc_reachable tenants (f 0) \<and>
     (\<forall>i. lc_step tenants (f i) (f (Suc i)) \<or> lc_phase (f i) = Exited \<and> f (Suc i) = f i)"

definition time_goes_on :: "(nat \<Rightarrow> lifecycle) \<Rightarrow> bool" where
  "time_goes_on f \<longleftrightarrow>
     (\<forall>i t. lc_phase (f i) = Draining t \<longrightarrow> (\<exists>j\<ge>i. lc_phase (f j) = Draining t \<longrightarrow> t \<le> lc_now (f j)))"

definition main_not_starved :: "string list \<Rightarrow> (nat \<Rightarrow> lifecycle) \<Rightarrow> bool" where
  "main_not_starved tenants f \<longleftrightarrow>
     (\<forall>i. \<exists>j\<ge>i. main_can tenants (f j) \<longrightarrow> lc_phase (f (Suc j)) \<noteq> lc_phase (f j))"

lemma lc_run_reachable:
  assumes "lc_run tenants f"
  shows "lc_reachable tenants (f i)"
proof (induction i)
  case (Suc i)
  with assms lc_reachable.step show ?case unfolding lc_run_def by metis
qed (use assms in \<open>simp add: lc_run_def\<close>)

lemma lc_run_progress:
  assumes "lc_run tenants f"
  shows "lc_phase (f (Suc i)) = lc_phase (f i) \<or>
    remaining tenants (lc_phase (f (Suc i))) < remaining tenants (lc_phase (f i))"
  using assms lc_step_progress unfolding lc_run_def by metis

text \<open>In a phase that main never leaves nothing is left to do.\<close>

lemma stuck_exited:
  assumes run: "lc_run tenants f" and time: "time_goes_on f" and main: "main_not_starved tenants f"
    and stuck: "\<And>j. i \<le> j \<Longrightarrow> lc_phase (f j) = p"
  shows "p = Exited"
proof (rule ccontr)
  assume p: "p \<noteq> Exited"
  have "\<exists>k\<ge>i. \<forall>j\<ge>k. main_can tenants (f j)"
  proof (cases "\<exists>t. p = Draining t")
    case True
    then obtain t where t: "p = Draining t" by blast
    obtain k where k: "i \<le> k" "t \<le> lc_now (f k)"
      using time stuck [of i] stuck t unfolding time_goes_on_def by (metis order_refl)
    have "t \<le> lc_now (f j)" if "k \<le> j" for j
      using that
    proof (induction rule: dec_induct)
      case base
      show ?case by (rule k(2))
    next
      case (step j)
      have "lc_step tenants (f j) (f (Suc j))" "lc_phase (f j) = p" "lc_phase (f (Suc j)) = p"
        using run stuck [of j] stuck [of "Suc j"] k(1) step.hyps p unfolding lc_run_def by auto
      then have "lc_now (f j) \<le> lc_now (f (Suc j))" by cases (simp_all add: t)
      with step.IH show ?case by simp
    qed
    then have "main_can tenants (f j)" if "k \<le> j" for j
      using that stuck [of j] k(1) t by (intro main_can_move) auto
    with k(1) show ?thesis by blast
  next
    case False
    then have "main_can tenants (f j)" if "i \<le> j" for j
      using stuck [OF that] p by (intro main_can_move) auto
    then show ?thesis by blast
  qed
  then obtain k where k: "i \<le> k" "\<And>j. k \<le> j \<Longrightarrow> main_can tenants (f j)" by blast
  from main obtain j where j: "k \<le> j" "main_can tenants (f j) \<longrightarrow> lc_phase (f (Suc j)) \<noteq> lc_phase (f j)"
    unfolding main_not_starved_def by blast
  with k stuck [of j] stuck [of "Suc j"] show False by simp
qed

lemma lc_run_exits:
  assumes "lc_run tenants f" and "time_goes_on f" and "main_not_starved tenants f"
  shows "\<exists>j\<ge>i. lc_phase (f j) = Exited"
proof (induction "remaining tenants (lc_phase (f i))" arbitrary: i rule: less_induct)
  case (less i)
  show ?case
  proof (cases "\<forall>j\<ge>i. lc_phase (f j) = lc_phase (f i)")
    case True
    then have "lc_phase (f i) = Exited" by (intro stuck_exited [OF assms, of i]) blast
    then show ?thesis by blast
  next
    case False
    let ?moved = "\<lambda>j. i \<le> j \<and> lc_phase (f j) \<noteq> lc_phase (f i)"
    define j where "j = (LEAST j. ?moved j)"
    from False have "\<exists>j. ?moved j" by blast
    from LeastI_ex [OF this] have j: "i \<le> j" "lc_phase (f j) \<noteq> lc_phase (f i)"
      unfolding j_def by blast+
    then have "i < j" by (cases "j = i") simp_all
    then obtain k where k: "j = Suc k" "i \<le> k" by (cases j) simp_all
    then have "lc_phase (f k) = lc_phase (f i)"
      using not_less_Least [of k ?moved] by (auto simp: j_def)
    with lc_run_progress [OF assms(1), of k] j(2) k(1)
    have "remaining tenants (lc_phase (f j)) < remaining tenants (lc_phase (f i))" by simp
    from less [OF this] j(1) show ?thesis by (meson order_trans)
  qed
qed

text \<open>
  C14: A shutdown always completes.  Take any run of the service from a state after the signal,
  with calls, replies and time in any order, in which calls may hang for ever.  If time goes on
  while main waits for the drain, and main is in the end scheduled when it can move (which says
  that the flush and the shutdown calls return), then the program exits; and however the calls
  behave, main waits for the drain no longer than ten seconds after the signal.
\<close>
theorem shutdown_completes:
  assumes "lc_run tenants f" and "lc_signalled (f 0) = Some t"
    and "time_goes_on f" and "main_not_starved tenants f"
  shows "(\<exists>i. lc_phase (f i) = Exited) \<and>
    (\<forall>i d. lc_phase (f i) = Draining d \<longrightarrow> lc_now (f i) \<le> t + 10 * nsSecond)"
proof (intro conjI allI impI)
  show "\<exists>i. lc_phase (f i) = Exited" using lc_run_exits [OF assms(1,3,4)] by blast
next
  have signalled: "lc_signalled (f i) = Some t" for i
  proof (induction i)
    case (Suc i)
    have "lc_inv tenants (f i)" by (rule lc_reachable_inv [OF lc_run_reachable [OF assms(1)]])
    with Suc have "lc_phase (f i) \<noteq> Serving" by (auto simp: lc_inv_def timer_inv_def)
    moreover have "lc_step tenants (f i) (f (Suc i)) \<or> f (Suc i) = f i"
      using assms(1) unfolding lc_run_def by blast
    ultimately show ?case using Suc by (auto elim!: lc_step_cases)
  qed (rule assms(2))
  fix i d
  assume "lc_phase (f i) = Draining d"
  moreover have "lc_inv tenants (f i)" by (rule lc_reachable_inv [OF lc_run_reachable [OF assms(1)]])
  ultimately show "lc_now (f i) \<le> t + 10 * nsSecond"
    using signalled [of i] by (simp add: lc_inv_def timer_inv_def grpcDrainTimeout_def)
qed

text \<open>A call hangs: the drain times out, and main goes on to the exit.\<close>

definition hung :: lifecycle where
  "hung = (lc_start 0)\<lparr>lc_inflight := 1, lc_phase := Draining (10 * nsSecond), lc_signalled := Some 0\<rparr>"

definition hung_states :: "lifecycle list" where
  "hung_states =
     [hung, hung\<lparr>lc_now := 10 * nsSecond\<rparr>, cut_run,
      cut_run\<lparr>lc_phase := StoppingKeys [''t''], lc_flushed := True\<rparr>,
      cut_run\<lparr>lc_phase := StoppingKeys [], lc_flushed := True, lc_down := [''t'']\<rparr>,
      cut_run\<lparr>lc_phase := StoppingHTTP, lc_flushed := True, lc_down := [''t'']\<rparr>,
      cut_run\<lparr>lc_phase := Exited, lc_flushed := True, lc_down := [''t''], lc_http := False\<rparr>]"

definition hung_run :: "nat \<Rightarrow> lifecycle" where
  "hung_run i = hung_states ! min i 6"

lemma hung_steps: "i < 6 \<Longrightarrow> lc_step [''t''] (hung_run i) (hung_run (Suc i))"
proof -
  assume "i < 6"
  then consider "i = 0" | "i = 1" | "i = 2" | "i = 3" | "i = 4" | "i = 5" by linarith
  then show ?thesis
  proof cases
    case 1
    with lc_step.time [of "10 * nsSecond" hung "[''t'']"] show ?thesis
      by (simp add: hung_run_def hung_states_def hung_def lc_start_def nsSecond_def)
  next
    case 2
    with lc_step.drain_timeout [of "hung\<lparr>lc_now := 10 * nsSecond\<rparr>" "10 * nsSecond" "[''t'']"]
    show ?thesis by (simp add: hung_run_def hung_states_def hung_def cut_run_def lc_start_def)
  next
    case 3
    with lc_step.flush [of cut_run "[''t'']" "[''t'']" None] show ?thesis
      by (simp add: hung_run_def hung_states_def cut_run_def lc_start_def logged_error_def)
  next
    case 4
    with lc_step.stop_key [of "hung_states ! 3" "''t''" "[]" "[''t'']" None] show ?thesis
      by (simp add: hung_run_def hung_states_def cut_run_def lc_start_def logged_error_def)
  next
    case 5
    with lc_step.keys_stopped [of "hung_states ! 4" "[''t'']"] show ?thesis
      by (simp add: hung_run_def hung_states_def cut_run_def lc_start_def)
  next
    case 6
    with lc_step.stop_http [of "hung_states ! 5" "[''t'']" None] show ?thesis
      by (simp add: hung_run_def hung_states_def cut_run_def lc_start_def logged_error_def)
  qed
qed

lemma hung_run_end: "6 \<le> i \<Longrightarrow> hung_run i = hung_run 6"
  by (simp add: hung_run_def)

lemma hung_run_exited: "lc_phase (hung_run 6) = Exited"
  by (simp add: hung_run_def hung_states_def)

lemma hung_reachable: "lc_reachable [''t''] hung"
proof -
  let ?s0 = "lc_start 0"
  let ?s1 = "?s0\<lparr>lc_inflight := 1\<rparr>"
  have "lc_step [''t''] ?s0 ?s1" using lc_step.rpc [of ?s0 "[''t'']"] by (simp add: lc_start_def)
  moreover have "lc_step [''t''] ?s1 hung"
    using lc_step.signal [of ?s1 "[''t'']"] by (simp add: hung_def lc_start_def grpcDrainTimeout_def)
  ultimately show ?thesis using lc_reachable.start [of "[''t'']" 0] lc_reachable.step by blast
qed

theorem shutdown_completes_witness:
  "lc_inflight (hung_run 1) = 1 \<and> (\<exists>i. lc_phase (hung_run i) = Exited)"
proof -
  have zero: "hung_run 0 = hung" by (simp add: hung_run_def hung_states_def)
  have "lc_run [''t''] hung_run"
    unfolding lc_run_def zero
  proof (intro conjI allI hung_reachable)
    fix i
    show "lc_step [''t''] (hung_run i) (hung_run (Suc i)) \<or>
        lc_phase (hung_run i) = Exited \<and> hung_run (Suc i) = hung_run i"
    proof (cases "i < 6")
      case False
      then have "hung_run i = hung_run 6" "hung_run (Suc i) = hung_run 6"
        by (intro hung_run_end; simp)+
      with hung_run_exited show ?thesis by simp
    qed (simp add: hung_steps)
  qed
  moreover have "lc_signalled (hung_run 0) = Some 0" by (simp add: zero hung_def)
  moreover have late: "lc_phase (hung_run (max i 6)) = Exited" for i
    by (subst hung_run_end) (simp_all only: max.cobounded2 hung_run_exited)
  have "time_goes_on hung_run"
    unfolding time_goes_on_def
  proof (intro allI impI)
    fix i t
    show "\<exists>j\<ge>i. lc_phase (hung_run j) = Draining t \<longrightarrow> t \<le> lc_now (hung_run j)"
      by (intro exI [of _ "max i 6"]) (simp add: late)
  qed
  moreover have idle: "\<not> main_can [''t''] s" if "lc_phase s = Exited" for s
    using that unfolding main_can_def by (auto elim!: lc_step_cases)
  have "main_not_starved [''t''] hung_run"
    unfolding main_not_starved_def
  proof
    fix i
    show "\<exists>j\<ge>i. main_can [''t''] (hung_run j) \<longrightarrow> lc_phase (hung_run (Suc j)) \<noteq> lc_phase (hung_run j)"
      by (intro exI [of _ "max i 6"]) (simp add: idle [OF late])
  qed
  ultimately have "\<exists>i. lc_phase (hung_run i) = Exited" using shutdown_completes by blast
  then show ?thesis by (simp add: hung_run_def hung_states_def hung_def lc_start_def)
qed

end
