(* ===== verification/Registry_Concurrency.thy ===== *)
theory Registry_Concurrency
  imports Tenant_Registry "HOL-Library.Multiset"
begin

text \<open>
  \<^verbatim>\<open>internal/registry/multi_tenant.go\<close> as many goroutines run it: the methods in small steps over
  the shared map and its \<^verbatim>\<open>sync.RWMutex\<close>, interleaved in any order, with anything else that runs
  in the program in between.

  The specification is the registry of \<open>Tenant_Registry\<close>, whose operations are single steps.
  Whatever the goroutines do, the answers they have got are those of the single-step operations,
  run one after the other in the order in which the methods returned.
\<close>


section \<open>Calls and answers\<close>

datatype snapshot = KeyManagers | Backfillers | Managers

fun snapshot_of :: "snapshot \<Rightarrow> tenants \<Rightarrow> obj str_map" where
  "snapshot_of KeyManagers ts = AllKeyManagers ts"
| "snapshot_of Backfillers ts = AllBackfillers ts"
| "snapshot_of Managers ts = GetAllTenants ts"

lemma snapshot_of_Nil [simp]: "snapshot_of k [] = []"
  by (cases k) (simp_all add: AllKeyManagers_def AllBackfillers_def GetAllTenants_def)

lemma snapshot_of_append: "snapshot_of k (xs @ ys) = snapshot_of k xs @ snapshot_of k ys"
  by (cases k) (simp_all add: AllKeyManagers_def AllBackfillers_def GetAllTenants_def)

datatype reg_call = Update ctx reg_op | Lookup ctx string | Snapshot snapshot

datatype reg_event =
    Updated ctx reg_op "go_error option"
  | Looked ctx string "go_error + obj"
  | Listed snapshot "obj str_map"

text \<open>
  What a single-step operation may answer, and leave, on a map of tenants: the update with some
  state of the world, the lookup, and the snapshot in some order of the entries.
\<close>

inductive spec_step :: "'a world_scheme jwtauth \<Rightarrow> tenants \<Rightarrow> reg_event \<Rightarrow> tenants \<Rightarrow> bool" for jw where
  updated: "reg_step jw c op (ts, s) = (err, (ts', s')) \<Longrightarrow> spec_step jw ts (Updated c op err) ts'"
| looked: "spec_step jw ts (Looked c t (GetTenant ts c t)) ts"
| listed: "mset ts' = mset ts \<Longrightarrow> spec_step jw ts (Listed k (snapshot_of k ts')) ts"

inductive spec_run :: "'a world_scheme jwtauth \<Rightarrow> reg_event list \<Rightarrow> tenants \<Rightarrow> bool" for jw where
  start: "spec_run jw [] NewMultiTenantRegistry"
| step: "\<lbrakk>spec_run jw es ts; spec_step jw ts e ts'\<rbrakk> \<Longrightarrow> spec_run jw (es @ [e]) ts'"


section \<open>The methods in small steps\<close>

text \<open>
  Where a goroutine is: outside, inside a method but before its lock, at a step of a method that
  holds the write lock, or at one of a method that holds the read lock.  A \<^verbatim>\<open>range\<close> over the map
  has the names it has yet to visit, and the copy so far.
\<close>

datatype pc =
    Outside
  | Called reg_call
  | AddLocked ctx string tenant_config
  | AddBuilding ctx string tenant_config
  | AddInsert ctx string tenant_config tenant_entry
  | AddMetrics ctx string tenant_config
  | DrainLocked ctx string
  | DrainMark ctx string tenant_entry
  | DrainMetrics ctx string
  | RemoveLocked ctx string
  | RemoveShutdown ctx string tenant_entry
  | RemoveDelete ctx string
  | RemoveMetrics ctx string
  | Unlocking ctx reg_op "go_error option"
  | GetLocked ctx string
  | GetDone ctx string "go_error + obj"
  | Ranging snapshot "string list" "obj str_map"

text \<open>
  The registry, its lock, the gauge of active tenants (0 before it is first set), the world, and
  the answers given so far.
\<close>

record 'a shared =
  rs_tenants :: tenants
  rs_writer :: "nat option"
  rs_readers :: "nat set"
  rs_gauge :: int
  rs_world :: "'a world_scheme"
  rs_hist :: "reg_event list"

text \<open>Step 1 of the methods, before any lock.\<close>

fun early_error :: "reg_op \<Rightarrow> go_error option" where
  "early_error (Add_op t cfg) =
     (if t = '''' then Some (StatusErr InvalidArgument ''tenantID must not be empty'')
      else if cfg_Issuer cfg = '''' then Some (StatusErr InvalidArgument ''cfg.Issuer must not be empty'')
      else if cfg_Audience cfg = '''' then Some (StatusErr InvalidArgument ''cfg.Audience must not be empty'')
      else None)"
| "early_error (Drain_op t) =
     (if t = '''' then Some (StatusErr InvalidArgument ''tenantID must not be empty'') else None)"
| "early_error (Remove_op t) =
     (if t = '''' then Some (StatusErr InvalidArgument ''tenantID must not be empty'') else None)"

fun locked :: "ctx \<Rightarrow> reg_op \<Rightarrow> pc" where
  "locked c (Add_op t cfg) = AddLocked c t cfg"
| "locked c (Drain_op t) = DrainLocked c t"
| "locked c (Remove_op t) = RemoveLocked c t"

definition not_found :: "string \<Rightarrow> go_error" where
  "not_found t = StatusErr NotFound (''tenant '' @ t @ '' not found'')"

definition already_registered :: "string \<Rightarrow> go_error" where
  "already_registered t = StatusErr AlreadyExists (''tenant '' @ t @ '' is already registered'')"

definition not_drained :: "string \<Rightarrow> go_error" where
  "not_drained t = StatusErr FailedPrecondition (''tenant '' @ t @ '' must be drained before removal'')"

lemmas registry_errors = not_found_def already_registered_def not_drained_def

text \<open>
  A step of goroutine \<open>i\<close>.  A write lock waits for every holder, a read lock for the writer only;
  the preference \<^verbatim>\<open>sync.RWMutex\<close> gives a waiting writer over later readers is left open.
\<close>

inductive g_step ::
  "'a world_scheme jwtauth \<Rightarrow> nat \<Rightarrow> 'a shared \<Rightarrow> pc \<Rightarrow> 'a shared \<Rightarrow> pc \<Rightarrow> bool" for jw i where
  call: "g_step jw i sh Outside sh (Called m)"
| invalid: "early_error op = Some e \<Longrightarrow>
    g_step jw i sh (Called (Update c op)) (sh\<lparr>rs_hist := rs_hist sh @ [Updated c op (Some e)]\<rparr>) Outside"
| lock: "\<lbrakk>early_error op = None; rs_writer sh = None; rs_readers sh = {}\<rbrakk> \<Longrightarrow>
    g_step jw i sh (Called (Update c op)) (sh\<lparr>rs_writer := Some i\<rparr>) (locked c op)"
| unlock: "g_step jw i sh (Unlocking c op err)
    (sh\<lparr>rs_writer := None, rs_hist := rs_hist sh @ [Updated c op err]\<rparr>) Outside"
| add_exists: "map_has (rs_tenants sh) t \<Longrightarrow>
    g_step jw i sh (AddLocked c t cfg) sh
      (Unlocking c (Add_op t cfg) (Some (already_registered t)))"
| add_free: "\<not> map_has (rs_tenants sh) t \<Longrightarrow> g_step jw i sh (AddLocked c t cfg) sh (AddBuilding c t cfg)"
| add_failed: "build_stack jw c t cfg (rs_world sh) = (Inl e, w) \<Longrightarrow>
    g_step jw i sh (AddBuilding c t cfg) (sh\<lparr>rs_world := w\<rparr>) (Unlocking c (Add_op t cfg) (Some e))"
| add_built: "build_stack jw c t cfg (rs_world sh) = (Inr entry, w) \<Longrightarrow>
    g_step jw i sh (AddBuilding c t cfg) (sh\<lparr>rs_world := w\<rparr>) (AddInsert c t cfg entry)"
| add_insert: "g_step jw i sh (AddInsert c t cfg entry)
    (sh\<lparr>rs_tenants := map_put t entry (rs_tenants sh)\<rparr>) (AddMetrics c t cfg)"
| add_metrics: "g_step jw i sh (AddMetrics c t cfg)
    (sh\<lparr>rs_gauge := int (length (rs_tenants sh)),
        rs_world := count_registry_op ''add'' (set_tenant_gauge (rs_tenants sh) (rs_world sh))\<rparr>)
    (Unlocking c (Add_op t cfg) None)"
| drain_missing: "map_of (rs_tenants sh) t = None \<Longrightarrow>
    g_step jw i sh (DrainLocked c t) sh (Unlocking c (Drain_op t) (Some (not_found t)))"
| drain_found: "map_of (rs_tenants sh) t = Some entry \<Longrightarrow> g_step jw i sh (DrainLocked c t) sh (DrainMark c t entry)"
| drain_mark: "g_step jw i sh (DrainMark c t entry)
    (sh\<lparr>rs_tenants := map_put t (entry\<lparr>draining := True\<rparr>) (rs_tenants sh)\<rparr>) (DrainMetrics c t)"
| drain_metrics: "g_step jw i sh (DrainMetrics c t)
    (sh\<lparr>rs_world := count_registry_op ''drain'' (rs_world sh)\<rparr>) (Unlocking c (Drain_op t) None)"
| remove_missing: "map_of (rs_tenants sh) t = None \<Longrightarrow>
    g_step jw i sh (RemoveLocked c t) sh (Unlocking c (Remove_op t) (Some (not_found t)))"
| remove_active: "\<lbrakk>map_of (rs_tenants sh) t = Some entry; \<not> draining entry\<rbrakk> \<Longrightarrow>
    g_step jw i sh (RemoveLocked c t) sh
      (Unlocking c (Remove_op t)
        (Some (not_drained t)))"
| remove_draining: "\<lbrakk>map_of (rs_tenants sh) t = Some entry; draining entry\<rbrakk> \<Longrightarrow>
    g_step jw i sh (RemoveLocked c t) sh (RemoveShutdown c t entry)"
| remove_shutdown: "km_shutdown jw (km entry) c (rs_world sh) = (err, w) \<Longrightarrow>
    g_step jw i sh (RemoveShutdown c t entry)
      (sh\<lparr>rs_world := (case err of
            None \<Rightarrow> w
          | Some e \<Rightarrow> log_warn c ''key manager shutdown error during tenant removal''
                        [AStr ''tenant'', AStr t, AStr ''error'', AErr e] w)\<rparr>) (RemoveDelete c t)"
| remove_delete: "g_step jw i sh (RemoveDelete c t)
    (sh\<lparr>rs_tenants := map_del t (rs_tenants sh)\<rparr>) (RemoveMetrics c t)"
| remove_metrics: "g_step jw i sh (RemoveMetrics c t)
    (sh\<lparr>rs_gauge := int (length (rs_tenants sh)),
        rs_world := count_registry_op ''remove'' (set_tenant_gauge (rs_tenants sh) (rs_world sh))\<rparr>)
    (Unlocking c (Remove_op t) None)"
| get_invalid: "g_step jw i sh (Called (Lookup c ''''))
    (sh\<lparr>rs_hist := rs_hist sh @ [Looked c '''' (Inl (StatusErr InvalidArgument ''tenant_id must not be empty''))]\<rparr>)
    Outside"
| get_lock: "\<lbrakk>t \<noteq> ''''; rs_writer sh = None\<rbrakk> \<Longrightarrow>
    g_step jw i sh (Called (Lookup c t)) (sh\<lparr>rs_readers := insert i (rs_readers sh)\<rparr>) (GetLocked c t)"
| get_read: "g_step jw i sh (GetLocked c t) sh
    (GetDone c t (case map_of (rs_tenants sh) t of
        None \<Rightarrow> Inl (not_found t)
      | Some entry \<Rightarrow> if draining entry then Inl (not_found t) else Inr (manager entry)))"
| get_unlock: "g_step jw i sh (GetDone c t r)
    (sh\<lparr>rs_readers := rs_readers sh - {i}, rs_hist := rs_hist sh @ [Looked c t r]\<rparr>) Outside"
| range_lock: "\<lbrakk>rs_writer sh = None; mset ids = mset (map fst (rs_tenants sh))\<rbrakk> \<Longrightarrow>
    g_step jw i sh (Called (Snapshot k)) (sh\<lparr>rs_readers := insert i (rs_readers sh)\<rparr>) (Ranging k ids [])"
| range_entry: "map_of (rs_tenants sh) t = Some entry \<Longrightarrow>
    g_step jw i sh (Ranging k (t # ids) acc) sh (Ranging k ids (acc @ snapshot_of k [(t, entry)]))"
| range_deleted: "map_of (rs_tenants sh) t = None \<Longrightarrow>
    g_step jw i sh (Ranging k (t # ids) acc) sh (Ranging k ids acc)"
| range_unlock: "g_step jw i sh (Ranging k [] acc)
    (sh\<lparr>rs_readers := rs_readers sh - {i}, rs_hist := rs_hist sh @ [Listed k acc]\<rparr>) Outside"

inductive_cases g_stepE: "g_step jw i sh p sh' q"

text \<open>The program: a step of some goroutine, or of anything else, which leaves the registry alone.\<close>

inductive rs_reachable :: "'a world_scheme jwtauth \<Rightarrow> 'a shared \<Rightarrow> (nat \<Rightarrow> pc) \<Rightarrow> bool" for jw where
  start: "rs_reachable jw
    \<lparr>rs_tenants = NewMultiTenantRegistry, rs_writer = None, rs_readers = {}, rs_gauge = 0, rs_world = w,
     rs_hist = []\<rparr> (\<lambda>_. Outside)"
| step: "\<lbrakk>rs_reachable jw sh p; g_step jw i sh (p i) sh' q\<rbrakk> \<Longrightarrow> rs_reachable jw sh' (p(i := q))"
| other: "rs_reachable jw sh p \<Longrightarrow> rs_reachable jw (sh\<lparr>rs_world := w\<rparr>) p"


section \<open>The invariant\<close>

fun writing :: "pc \<Rightarrow> bool" where
  "writing Outside = False"
| "writing (Called m) = False"
| "writing (GetLocked c t) = False"
| "writing (GetDone c t r) = False"
| "writing (Ranging k ids acc) = False"
| "writing p = True"

fun reading :: "pc \<Rightarrow> bool" where
  "reading (GetLocked c t) = True"
| "reading (GetDone c t r) = True"
| "reading (Ranging k ids acc) = True"
| "reading p = False"

text \<open>
  What a goroutine in a method has done so far, from the map \<open>base\<close> that the method found to the
  present map \<open>ts\<close> and gauge \<open>g\<close>.
\<close>

fun pc_ok :: "'a world_scheme jwtauth \<Rightarrow> tenants \<Rightarrow> tenants \<Rightarrow> int \<Rightarrow> pc \<Rightarrow> bool" where
  "pc_ok jw base ts g (AddLocked c t cfg) \<longleftrightarrow>
     early_error (Add_op t cfg) = None \<and> ts = base \<and> g = int (length base)"
| "pc_ok jw base ts g (AddBuilding c t cfg) \<longleftrightarrow>
     early_error (Add_op t cfg) = None \<and> \<not> map_has base t \<and> ts = base \<and> g = int (length base)"
| "pc_ok jw base ts g (AddInsert c t cfg entry) \<longleftrightarrow>
     early_error (Add_op t cfg) = None \<and> \<not> map_has base t \<and> ts = base \<and> g = int (length base) \<and>
     (\<exists>s s'. build_stack jw c t cfg s = (Inr entry, s'))"
| "pc_ok jw base ts g (AddMetrics c t cfg) \<longleftrightarrow>
     early_error (Add_op t cfg) = None \<and> \<not> map_has base t \<and>
     (\<exists>entry s s'. build_stack jw c t cfg s = (Inr entry, s') \<and> ts = map_put t entry base)"
| "pc_ok jw base ts g (DrainLocked c t) \<longleftrightarrow> t \<noteq> '''' \<and> ts = base \<and> g = int (length base)"
| "pc_ok jw base ts g (DrainMark c t entry) \<longleftrightarrow>
     t \<noteq> '''' \<and> map_of base t = Some entry \<and> ts = base \<and> g = int (length base)"
| "pc_ok jw base ts g (DrainMetrics c t) \<longleftrightarrow>
     t \<noteq> '''' \<and> g = int (length base) \<and>
     (\<exists>entry. map_of base t = Some entry \<and> ts = map_put t (entry\<lparr>draining := True\<rparr>) base)"
| "pc_ok jw base ts g (RemoveLocked c t) \<longleftrightarrow> t \<noteq> '''' \<and> ts = base \<and> g = int (length base)"
| "pc_ok jw base ts g (RemoveShutdown c t entry) \<longleftrightarrow>
     t \<noteq> '''' \<and> map_of base t = Some entry \<and> draining entry \<and> ts = base"
| "pc_ok jw base ts g (RemoveDelete c t) \<longleftrightarrow>
     t \<noteq> '''' \<and> (\<exists>entry. map_of base t = Some entry \<and> draining entry) \<and> ts = base"
| "pc_ok jw base ts g (RemoveMetrics c t) \<longleftrightarrow>
     t \<noteq> '''' \<and> (\<exists>entry. map_of base t = Some entry \<and> draining entry) \<and> ts = map_del t base"
| "pc_ok jw base ts g (Unlocking c op err) \<longleftrightarrow> spec_step jw base (Updated c op err) ts \<and> g = int (length ts)"
| "pc_ok jw base ts g (GetLocked c t) \<longleftrightarrow> t \<noteq> ''''"
| "pc_ok jw base ts g (GetDone c t r) \<longleftrightarrow> r = GetTenant ts c t"
| "pc_ok jw base ts g (Ranging k ids acc) \<longleftrightarrow>
     (\<exists>seen. mset (seen @ map (\<lambda>t. (t, the (map_of ts t))) ids) = mset ts \<and> acc = snapshot_of k seen)"
| "pc_ok jw base ts g _ \<longleftrightarrow> True"

lemma pc_ok_outside: "\<not> writing p \<Longrightarrow> \<not> reading p \<Longrightarrow> pc_ok jw base ts g p"
  by (cases p) simp_all

lemma pc_ok_reading: "\<not> writing p \<Longrightarrow> pc_ok jw base ts g p \<Longrightarrow> pc_ok jw base' ts g' p"
  by (cases p) simp_all

definition locks_ok :: "'a shared \<Rightarrow> (nat \<Rightarrow> pc) \<Rightarrow> bool" where
  "locks_ok sh p \<longleftrightarrow>
     (\<forall>i. writing (p i) \<longleftrightarrow> rs_writer sh = Some i) \<and> (\<forall>i. reading (p i) \<longleftrightarrow> i \<in> rs_readers sh) \<and>
     (rs_writer sh \<noteq> None \<longrightarrow> rs_readers sh = {})"

definition rs_inv :: "'a world_scheme jwtauth \<Rightarrow> 'a shared \<Rightarrow> (nat \<Rightarrow> pc) \<Rightarrow> bool" where
  "rs_inv jw sh p \<longleftrightarrow>
     locks_ok sh p \<and> reg_wf (rs_tenants sh) \<and>
     (\<exists>base. spec_run jw (rs_hist sh) base \<and> reg_wf base \<and>
        (rs_writer sh = None \<longrightarrow> rs_tenants sh = base \<and> rs_gauge sh = int (length base)) \<and>
        (\<forall>i. pc_ok jw base (rs_tenants sh) (rs_gauge sh) (p i)))"

lemma locked_writing: "writing (locked c op)" "\<not> reading (locked c op)"
  by (cases op; simp)+

text \<open>What a step does to the lock: nothing, or take or release it in one of its two modes.\<close>

lemma step_locks:
  assumes "g_step jw i sh a sh' q"
  obtains (same) "rs_writer sh' = rs_writer sh" "rs_readers sh' = rs_readers sh" "writing q = writing a"
      "reading q = reading a"
    | (wlock) "rs_writer sh = None" "rs_readers sh = {}" "rs_writer sh' = Some i" "rs_readers sh' = {}"
      "\<not> writing a" "\<not> reading a" "writing q" "\<not> reading q"
    | (wunlock) "writing a" "rs_writer sh' = None" "rs_readers sh' = rs_readers sh" "\<not> writing q" "\<not> reading q"
    | (rlock) "\<not> writing a" "\<not> reading a" "rs_writer sh = None" "rs_writer sh' = None"
      "rs_readers sh' = insert i (rs_readers sh)" "\<not> writing q" "reading q"
    | (runlock) "\<not> writing a" "reading a" "rs_writer sh' = rs_writer sh"
      "rs_readers sh' = rs_readers sh - {i}" "\<not> writing q" "\<not> reading q"
  using assms by cases (simp_all add: locked_writing)

lemma not_both: "writing a \<Longrightarrow> \<not> reading a"
  by (cases a) simp_all

lemma locks_step:
  assumes ok: "locks_ok sh p" and step: "g_step jw i sh (p i) sh' q"
  shows "locks_ok sh' (p(i := q))"
proof -
  have w: "writing (p j) \<longleftrightarrow> rs_writer sh = Some j" and r: "reading (p j) \<longleftrightarrow> j \<in> rs_readers sh"
    and excl: "rs_writer sh \<noteq> None \<Longrightarrow> rs_readers sh = {}" for j
    using ok by (simp_all add: locks_ok_def)
  from step show ?thesis
    by (cases rule: step_locks) (use w r excl in \<open>auto simp: locks_ok_def\<close>)
qed

text \<open>The methods' outcomes are outcomes of the single-step operations.\<close>

lemma spec_updated:
  assumes "fst (reg_step jw c op (ts, s)) = err" and "fst (snd (reg_step jw c op (ts, s))) = ts'"
  shows "spec_step jw ts (Updated c op err) ts'"
  using spec_step.updated [of jw c op ts s err ts'] assms by (metis prod.collapse)

lemma spec_early: "early_error op = Some e \<Longrightarrow> spec_step jw ts (Updated c op (Some e)) ts"
  by (rule spec_updated [where s = undefined]; cases op)
    (auto simp: AddTenant_def DrainTenant_def RemoveTenant_def split: if_splits)

lemma spec_add:
  assumes "t \<noteq> ''''" and "cfg_Issuer cfg \<noteq> ''''" and "cfg_Audience cfg \<noteq> ''''"
  shows "map_has base t \<Longrightarrow> spec_step jw base (Updated c (Add_op t cfg)
      (Some (already_registered t))) base"
    and "\<lbrakk>\<not> map_has base t; build_stack jw c t cfg s = (Inl e, s')\<rbrakk> \<Longrightarrow>
      spec_step jw base (Updated c (Add_op t cfg) (Some e)) base"
    and "\<lbrakk>\<not> map_has base t; build_stack jw c t cfg s = (Inr entry, s')\<rbrakk> \<Longrightarrow>
      spec_step jw base (Updated c (Add_op t cfg) None) (map_put t entry base)"
  by (rule spec_updated [where s = s]; use assms in \<open>simp add: AddTenant_def Let_def registry_errors split: if_splits\<close>)+

lemma spec_drain:
  assumes "t \<noteq> ''''"
  shows "map_of base t = None \<Longrightarrow> spec_step jw base (Updated c (Drain_op t) (Some (not_found t))) base"
    and "map_of base t = Some entry \<Longrightarrow>
      spec_step jw base (Updated c (Drain_op t) None) (map_put t (entry\<lparr>draining := True\<rparr>) base)"
  by (rule spec_updated [where s = undefined]; use assms in \<open>simp add: DrainTenant_def registry_errors\<close>)+

lemma spec_remove:
  assumes "t \<noteq> ''''"
  shows "map_of base t = None \<Longrightarrow> spec_step jw base (Updated c (Remove_op t) (Some (not_found t))) base"
    and "\<lbrakk>map_of base t = Some entry; \<not> draining entry\<rbrakk> \<Longrightarrow>
      spec_step jw base (Updated c (Remove_op t)
        (Some (not_drained t))) base"
    and "\<lbrakk>map_of base t = Some entry; draining entry\<rbrakk> \<Longrightarrow>
      spec_step jw base (Updated c (Remove_op t) None) (map_del t base)"
  by (rule spec_updated [where s = undefined];
      use assms in \<open>simp add: RemoveTenant_def Let_def registry_errors split: prod.splits\<close>)+

lemmas spec_outcomes = spec_add spec_drain spec_remove

lemma length_put: "map_of m k = Some v \<Longrightarrow> length (map_put k w m) = length m"
  by (induction k w m rule: map_put.induct) (auto split: if_splits)

lemma updating_step:
  assumes "g_step jw i sh a sh' q" and "writing a" and "reg_wf base"
    and "pc_ok jw base (rs_tenants sh) (rs_gauge sh) a" and "reg_wf (rs_tenants sh)"
  shows "reg_wf (rs_tenants sh') \<and>
    (writing q \<and> rs_hist sh' = rs_hist sh \<and> pc_ok jw base (rs_tenants sh') (rs_gauge sh') q \<or>
     q = Outside \<and> (\<exists>e. rs_hist sh' = rs_hist sh @ [e] \<and> spec_step jw base e (rs_tenants sh')) \<and>
     rs_gauge sh' = int (length (rs_tenants sh')))"
  using assms
  by (cases rule: g_step.cases)
    (auto simp: length_put split: if_splits intro: spec_outcomes reg_wf_put reg_wf_del)

text \<open>A range over the map visits every entry once, in the order it chose at its start.\<close>

lemma range_start:
  assumes "map_wf ts" and "mset ids = mset (map fst ts)"
  shows "mset (map (\<lambda>t. (t, the (map_of ts t))) ids) = mset ts"
proof -
  have "mset (map (\<lambda>t. (t, the (map_of ts t))) ids) =
      mset (map ((\<lambda>t. (t, the (map_of ts t))) \<circ> fst) ts)"
    using assms(2) by (metis map_map mset_map)
  also have "map ((\<lambda>t. (t, the (map_of ts t))) \<circ> fst) ts = ts"
    by (rule map_idI) (use map_of_in [OF assms(1)] in force)
  finally show ?thesis .
qed

lemma range_present:
  assumes "mset (seen @ map (\<lambda>t. (t, the (map_of ts t))) (t # ids)) = mset ts"
  shows "map_of ts t \<noteq> None"
proof -
  have "(t, the (map_of ts t)) \<in> set ts"
    using mset_eq_setD [OF assms] by auto
  then have "t \<in> fst ` set ts" by (metis fst_conv imageI)
  then show ?thesis by (simp add: map_of_eq_None_iff)
qed

lemma get_tenant_read:
  "t \<noteq> '''' \<Longrightarrow> GetTenant ts c t =
    (case map_of ts t of
       None \<Rightarrow> Inl (not_found t)
     | Some entry \<Rightarrow> if draining entry then Inl (not_found t) else Inr (manager entry))"
  by (simp add: GetTenant_def not_found_def split: option.split)

lemma reading_step:
  assumes "g_step jw i sh a sh' q" and "reading a" and "pc_ok jw base (rs_tenants sh) g a"
  shows "rs_tenants sh' = rs_tenants sh \<and> rs_gauge sh' = rs_gauge sh \<and> rs_writer sh' = rs_writer sh \<and>
    (reading q \<and> \<not> writing q \<and> rs_hist sh' = rs_hist sh \<and> pc_ok jw base (rs_tenants sh) g q \<or>
     q = Outside \<and> (\<exists>e. rs_hist sh' = rs_hist sh @ [e] \<and> spec_step jw (rs_tenants sh) e (rs_tenants sh)))"
  using assms
proof (cases rule: g_step.cases)
  case (range_entry t entry k ids acc)
  with assms(3) obtain seen where
    seen: "mset (seen @ map (\<lambda>t. (t, the (map_of (rs_tenants sh) t))) (t # ids)) = mset (rs_tenants sh)"
      "acc = snapshot_of k seen"
    by auto
  with range_entry have "pc_ok jw base (rs_tenants sh) g q"
    by (auto simp: snapshot_of_append intro!: exI [of _ "seen @ [(t, entry)]"])
  with range_entry show ?thesis by simp
next
  case (range_deleted t k ids acc)
  with assms(3) obtain seen where
    "mset (seen @ map (\<lambda>t. (t, the (map_of (rs_tenants sh) t))) (t # ids)) = mset (rs_tenants sh)"
    by auto
  from range_present [OF this] range_deleted show ?thesis by simp
next
  case (range_unlock k acc)
  with assms(3) show ?thesis by (auto intro: spec_step.listed)
qed (auto simp: get_tenant_read intro: spec_step.looked)

lemma entering_step:
  assumes "g_step jw i sh a sh' q" and "\<not> writing a" and "\<not> reading a" and "reg_wf (rs_tenants sh)"
  shows "rs_tenants sh' = rs_tenants sh \<and> rs_gauge sh' = rs_gauge sh \<and>
    (rs_hist sh' = rs_hist sh \<or>
     (\<exists>e. rs_hist sh' = rs_hist sh @ [e] \<and> (\<forall>ts. spec_step jw ts e ts))) \<and>
    (rs_writer sh' = rs_writer sh \<and> \<not> writing q \<or> rs_writer sh = None) \<and>
    (rs_writer sh \<noteq> None \<or> rs_gauge sh = int (length (rs_tenants sh)) \<longrightarrow>
      pc_ok jw (rs_tenants sh) (rs_tenants sh) (rs_gauge sh) q)"
  using assms
proof (cases rule: g_step.cases)
  case (invalid op e c)
  with spec_early [of op e jw _ c] show ?thesis by auto
next
  case (lock op c)
  then show ?thesis by (cases op) (auto split: if_splits)
next
  case (get_invalid c)
  have "spec_step jw ts (Looked c '''' (Inl (StatusErr InvalidArgument ''tenant_id must not be empty''))) ts" for ts
    using spec_step.looked [of jw ts c "''''"] by (simp add: GetTenant_def)
  with get_invalid show ?thesis by simp
next
  case (range_lock ids k)
  then have "mset (map (\<lambda>t. (t, the (map_of (rs_tenants sh) t))) ids) = mset (rs_tenants sh)"
    using assms(4) by (intro range_start) (simp_all add: reg_wf_def)
  then have "pc_ok jw (rs_tenants sh) (rs_tenants sh) (rs_gauge sh) q"
    using range_lock by (auto intro!: exI [of _ "[]"])
  with range_lock show ?thesis by simp
qed simp_all

lemma spec_step_wf: "spec_step jw ts e ts' \<Longrightarrow> reg_wf ts \<Longrightarrow> reg_wf ts'"
  by (cases rule: spec_step.cases) (auto dest: step_wf)

lemma rs_inv_step:
  assumes inv: "rs_inv jw sh p" and step: "g_step jw i sh (p i) sh' q"
  shows "rs_inv jw sh' (p(i := q))"
proof -
  from inv obtain base where locks: "locks_ok sh p" and wf: "reg_wf (rs_tenants sh)" "reg_wf base"
    and run: "spec_run jw (rs_hist sh) base"
    and free: "rs_writer sh = None \<Longrightarrow> rs_tenants sh = base \<and> rs_gauge sh = int (length base)"
    and ok: "pc_ok jw base (rs_tenants sh) (rs_gauge sh) (p j)" for j
    by (auto simp: rs_inv_def)
  have w: "writing (p j) \<longleftrightarrow> rs_writer sh = Some j" and r: "reading (p j) \<longleftrightarrow> j \<in> rs_readers sh"
    and excl: "rs_writer sh \<noteq> None \<Longrightarrow> rs_readers sh = {}" for j
    using locks by (simp_all add: locks_ok_def)
  have locks': "locks_ok sh' (p(i := q))" by (rule locks_step [OF locks step])
  have w': "rs_writer sh' = None \<longleftrightarrow> (\<forall>j. \<not> writing ((p(i := q)) j))"
    using locks' by (simp add: locks_ok_def)
  have inv': "rs_inv jw sh' (p(i := q))"
    if "spec_run jw (rs_hist sh') base'" "reg_wf base'" "reg_wf (rs_tenants sh')"
      "rs_writer sh' = None \<Longrightarrow> rs_tenants sh' = base' \<and> rs_gauge sh' = int (length base')"
      "\<And>j. j \<noteq> i \<Longrightarrow> pc_ok jw base' (rs_tenants sh') (rs_gauge sh') (p j)"
      "pc_ok jw base' (rs_tenants sh') (rs_gauge sh') q" for base'
    unfolding rs_inv_def using locks' that by auto
  consider "writing (p i)" | "reading (p i)" | "\<not> writing (p i)" "\<not> reading (p i)" by blast
  then show ?thesis
  proof cases
    case 1
    then have others: "\<not> writing (p j) \<and> \<not> reading (p j)" if "j \<noteq> i" for j
      using w r excl that by (metis empty_iff option.distinct(1) option.inject)
    from updating_step [OF step 1 wf(2) ok wf(1)] consider
      (in_method) "reg_wf (rs_tenants sh')" "writing q" "rs_hist sh' = rs_hist sh"
        "pc_ok jw base (rs_tenants sh') (rs_gauge sh') q"
    | (returned) e where "reg_wf (rs_tenants sh')" "q = Outside" "rs_hist sh' = rs_hist sh @ [e]"
        "spec_step jw base e (rs_tenants sh')" "rs_gauge sh' = int (length (rs_tenants sh'))"
      by blast
    then show ?thesis
    proof cases
      case in_method
      then have "rs_writer sh' \<noteq> None" using w' by (metis fun_upd_same)
      with in_method run wf others show ?thesis by (intro inv' [of base]) (auto intro: pc_ok_outside)
    next
      case returned
      with run others show ?thesis
        by (intro inv' [of "rs_tenants sh'"]) (auto intro: pc_ok_outside spec_run.step)
    qed
  next
    case 2
    then have "rs_writer sh = None" using r excl by (metis empty_iff)
    with free have base: "rs_writer sh = None" "base = rs_tenants sh" "rs_gauge sh = int (length base)"
      by auto
    then have others: "pc_ok jw base' ts g (p j)" if "ts = rs_tenants sh" for j base' ts g
      using w [of j] base(1) that pc_ok_reading [OF _ ok [of j]] by simp
    from reading_step [OF step 2 ok] base run wf others show ?thesis
      by (intro inv' [of base]) (auto intro: spec_run.step)
  next
    case 3
    have same: "rs_tenants sh' = rs_tenants sh" "rs_gauge sh' = rs_gauge sh"
      "rs_writer sh' = rs_writer sh \<and> \<not> writing q \<or> rs_writer sh = None"
      and q: "rs_writer sh \<noteq> None \<or> rs_gauge sh = int (length (rs_tenants sh)) \<Longrightarrow>
        pc_ok jw (rs_tenants sh) (rs_tenants sh) (rs_gauge sh) q"
      and hist: "rs_hist sh' = rs_hist sh \<or>
        (\<exists>e. rs_hist sh' = rs_hist sh @ [e] \<and> (\<forall>ts. spec_step jw ts e ts))"
      using entering_step [OF step 3 wf(1)] by simp_all
    have run': "spec_run jw (rs_hist sh') base" using hist run by (metis spec_run.step)
    show ?thesis
    proof (cases "rs_writer sh")
      case None
      with free q same run' wf ok show ?thesis by (intro inv' [of base]) auto
    next
      case (Some j)
      with same have "\<not> writing q" "rs_writer sh' = Some j" by auto
      moreover have "pc_ok jw base (rs_tenants sh) (rs_gauge sh) q"
        by (rule pc_ok_reading [OF \<open>\<not> writing q\<close> q]) (simp add: Some)
      ultimately show ?thesis using same run' wf ok by (intro inv' [of base]) auto
    qed
  qed
qed

lemma rs_reachable_inv: "rs_reachable jw sh p \<Longrightarrow> rs_inv jw sh p"
proof (induction rule: rs_reachable.induct)
  case (start w)
  show ?case
    unfolding rs_inv_def
    by (intro conjI exI [of _ NewMultiTenantRegistry])
      (simp_all add: locks_ok_def reg_wf_new spec_run.start, simp add: NewMultiTenantRegistry_def)
next
  case (step sh p i sh' q)
  then show ?case by (blast intro: rs_inv_step)
next
  case (other sh p w)
  then show ?case by (simp add: rs_inv_def locks_ok_def)
qed


section \<open>Deadlock\<close>

lemma held_step: "writing a \<or> reading a \<Longrightarrow> \<exists>sh' q. g_step jw i sh a sh' q"
proof (cases a)
  case (AddLocked c t cfg)
  then show ?thesis by (cases "map_has (rs_tenants sh) t") (blast intro: g_step.intros)+
next
  case (AddBuilding c t cfg)
  obtain b w where "build_stack jw c t cfg (rs_world sh) = (b, w)" by fastforce
  with AddBuilding show ?thesis by (cases b) (blast intro: g_step.intros)+
next
  case (DrainLocked c t)
  then show ?thesis by (cases "map_of (rs_tenants sh) t") (blast intro: g_step.intros)+
next
  case (RemoveLocked c t)
  then show ?thesis by (cases "map_of (rs_tenants sh) t") (blast intro: g_step.intros)+
next
  case (RemoveShutdown c t entry)
  obtain b w where "km_shutdown jw (km entry) c (rs_world sh) = (b, w)" by fastforce
  with RemoveShutdown show ?thesis by (blast intro: g_step.intros)
next
  case (Ranging k ids acc)
  then show ?thesis
    by (cases ids; cases "map_of (rs_tenants sh) (hd ids)") (auto intro: g_step.intros)
qed (auto intro: g_step.intros)

lemma entry_step:
  assumes "rs_writer sh = None" and "rs_readers sh = {}"
  shows "\<exists>sh' q. g_step jw i sh (Called m) sh' q"
proof (cases m)
  case (Update c op)
  with assms show ?thesis by (cases "early_error op") (blast intro: g_step.intros)+
next
  case (Lookup c t)
  with assms show ?thesis by (cases "t = ''''") (blast intro: g_step.intros)+
next
  case (Snapshot k)
  with assms show ?thesis by (blast intro: g_step.intros)
qed


section \<open>Properties\<close>

text \<open>
  C18: The tenant registry is linearizable.  However the small steps of its methods interleave,
  between any number of goroutines and with anything else the program does: the answers given so
  far are answers of the single-step operations run one after the other, in the order the methods
  returned, from the empty registry; while no update is under way, the map is what that sequence
  leaves, and the gauge of active tenants is the number of its entries, the draining ones
  included; an update excludes every other method; and no tenant is ever registered twice or
  without a name.
\<close>
theorem registry_linearizable:
  assumes "rs_reachable jw sh p"
  shows "(\<exists>ts. spec_run jw (rs_hist sh) ts \<and>
       ((\<forall>i. \<not> writing (p i)) \<longrightarrow> rs_tenants sh = ts \<and> rs_gauge sh = int (length ts))) \<and>
    (\<forall>i j. writing (p i) \<and> (writing (p j) \<or> reading (p j)) \<longrightarrow> i = j) \<and>
    distinct (map fst (rs_tenants sh)) \<and> '''' \<notin> fst ` set (rs_tenants sh)"
proof -
  have inv: "rs_inv jw sh p" by (rule rs_reachable_inv [OF assms])
  then have locks: "locks_ok sh p" and wf: "reg_wf (rs_tenants sh)" by (simp_all add: rs_inv_def)
  have free: "(\<forall>i. \<not> writing (p i)) \<longleftrightarrow> rs_writer sh = None"
    using locks by (auto simp: locks_ok_def)
  have "i = j" if "writing (p i)" "writing (p j) \<or> reading (p j)" for i j
  proof -
    from that(1) locks have "rs_writer sh = Some i" "rs_readers sh = {}" by (simp_all add: locks_ok_def)
    with that(2) locks show ?thesis by (auto simp: locks_ok_def)
  qed
  with inv wf free show ?thesis by (auto simp: rs_inv_def reg_wf_def map_wf_def)
qed

text \<open>Goroutine 1 asks for a tenant, and gets its answer, before goroutine 0's Add has the lock.\<close>

definition sample_cfg :: tenant_config where
  "sample_cfg = \<lparr>cfg_Issuer = ''t'', cfg_Audience = ''a''\<rparr>"

definition sample_run :: "(unit shared) \<times> (nat \<Rightarrow> pc)" where
  "sample_run =
     (\<lparr>rs_tenants = NewMultiTenantRegistry, rs_writer = Some 0, rs_readers = {}, rs_gauge = 0,
       rs_world = \<lparr>clock = 0, trace = []\<rparr>, rs_hist = [Looked background ''t'' (Inl (not_found ''t''))]\<rparr>,
      (\<lambda>_. Outside)(0 := AddLocked background ''t'' sample_cfg))"

lemma reach_step:
  assumes "rs_reachable jw sh p" and "g_step jw i sh a sh' q" and "p i = a" and "sh' = sh''" and "p(i := q) = p'"
  shows "rs_reachable jw sh'' p'"
  using assms rs_reachable.step by blast

lemma sample_run_reachable: "rs_reachable idle_jwtauth (fst sample_run) (snd sample_run)"
proof -
  let ?jw = "idle_jwtauth :: world jwtauth"
  let ?sh = "\<lparr>rs_tenants = NewMultiTenantRegistry, rs_writer = None, rs_readers = {}, rs_gauge = 0,
       rs_world = \<lparr>clock = 0, trace = []\<rparr>, rs_hist = []\<rparr> :: unit shared"
  let ?reads = "?sh\<lparr>rs_readers := {1}\<rparr>"
  let ?r = "Inl (not_found ''t'')" and ?op = "Add_op ''t'' sample_cfg"
  let ?done = "?sh\<lparr>rs_hist := [Looked background ''t'' ?r]\<rparr>"
  let ?p = "(\<lambda>_. Outside)(0 := Called (Update background ?op))"
  have "rs_reachable ?jw ?sh ?p"
    by (rule reach_step [OF rs_reachable.start call [of ?jw 0 _ "Update background ?op"]]) simp_all
  then have "rs_reachable ?jw ?sh (?p(1 := Called (Lookup background ''t'')))"
    by (rule reach_step [OF _ call [of ?jw 1 _ "Lookup background ''t''"]]) simp_all
  then have "rs_reachable ?jw ?reads (?p(1 := GetLocked background ''t''))"
    by (rule reach_step [OF _ get_lock [of "''t''" _ ?jw 1 background]]) simp_all
  then have "rs_reachable ?jw ?reads (?p(1 := GetDone background ''t'' ?r))"
    by (rule reach_step [OF _ get_read [of ?jw 1 _ background "''t''"]]) (simp_all add: NewMultiTenantRegistry_def)
  then have "rs_reachable ?jw ?done ?p"
    by (rule reach_step [OF _ get_unlock [of ?jw 1 _ background "''t''"]]) (auto simp: fun_eq_iff)
  then show ?thesis
    by (rule reach_step [OF _ lock [of ?op _ ?jw 0 background]])
      (simp_all add: sample_run_def sample_cfg_def fun_eq_iff)
qed

theorem registry_linearizable_witness:
  "(\<exists>ts. spec_run (idle_jwtauth :: world jwtauth) [Looked background ''t'' (Inl (not_found ''t''))] ts) \<and>
   writing (snd sample_run 0)"
  using registry_linearizable [OF sample_run_reachable] by (auto simp: sample_run_def)

text \<open>
  C19: The registry never deadlocks.  Whenever some goroutine is inside one of its methods, some
  goroutine inside one of them can take a step: a holder of the lock is never blocked (given that
  the library's calls, which Add and Remove make under the lock, return), and when nobody holds
  it everyone who waits can enter.
\<close>
theorem registry_never_deadlocks:
  assumes "rs_reachable jw sh p" and "p i \<noteq> Outside"
  shows "\<exists>j sh' q. p j \<noteq> Outside \<and> g_step jw j sh (p j) sh' q"
proof (cases "rs_writer sh = None \<and> rs_readers sh = {}")
  case True
  have "locks_ok sh p" using rs_reachable_inv [OF assms(1)] by (simp add: rs_inv_def)
  with True have "\<not> writing (p i)" "\<not> reading (p i)" by (simp_all add: locks_ok_def)
  with assms(2) obtain m where "p i = Called m" by (cases "p i") simp_all
  with entry_step True show ?thesis by (metis pc.distinct(1))
next
  case False
  have "locks_ok sh p" using rs_reachable_inv [OF assms(1)] by (simp add: rs_inv_def)
  with False obtain j where "writing (p j) \<or> reading (p j)" by (auto simp: locks_ok_def)
  with held_step show ?thesis by (metis reading.simps(4) writing.simps(1))
qed

theorem registry_never_deadlocks_witness:
  "\<exists>j sh' q. snd sample_run j \<noteq> Outside \<and> g_step idle_jwtauth j (fst sample_run) (snd sample_run j) sh' q"
  by (rule registry_never_deadlocks [OF sample_run_reachable, of 0]) (simp add: sample_run_def)

end
