(* ===== verification/Service_Endpoints.thy ===== *)
theory Service_Endpoints
  imports Service_Main Grpc_Service
begin

text \<open>
  What the started service of \<^verbatim>\<open>cmd/token-engine/main.go\<close> answers on its two ports beside the
  token calls: the HTTP mux with liveness, readiness, the public key set and the metrics page,
  the services registered with the gRPC server, and health calls over gRPC.

  Of \<^verbatim>\<open>net/http\<close> the model has what main relies on: \<^verbatim>\<open>ServeMux\<close> on patterns of a method and a
  literal path, for requests in origin form whose path has no percent escapes.  The pages the
  library writes by itself (redirect, not found, method not allowed) are constructors.
\<close>


section \<open>Paths\<close>

text \<open>\<^verbatim>\<open>path.Clean\<close> of a rooted path, segment by segment, and \<^verbatim>\<open>cleanPath\<close> of \<^verbatim>\<open>net/http\<close>.\<close>

fun clean_segments :: "string list \<Rightarrow> string list \<Rightarrow> string list" where
  "clean_segments acc [] = rev acc"
| "clean_segments acc (w # ws) =
     (if w = '''' \<or> w = ''.'' then clean_segments acc ws
      else if w = ''..'' then clean_segments (tl acc) ws
      else clean_segments (w # acc) ws)"

abbreviation slash :: char where
  "slash \<equiv> CHR ''/''"

definition rooted :: "string \<Rightarrow> string" where
  "rooted p = (if p \<noteq> '''' \<and> hd p = slash then p else slash # p)"

definition clean_path :: "string \<Rightarrow> string" where
  "clean_path p =
     (if p = '''' then ''/''
      else
        let segs = clean_segments [] (split_at slash (rooted p));
            np = slash # join_with slash segs
        in if last (rooted p) = slash \<and> np \<noteq> ''/'' then np @ ''/'' else np)"

definition plain_segment :: "string \<Rightarrow> bool" where
  "plain_segment w \<longleftrightarrow> w \<notin> {'''', ''.'', ''..''} \<and> slash \<notin> set w"

lemma clean_segments_plain:
  "\<forall>w \<in> set ws. slash \<notin> set w \<Longrightarrow> \<forall>w \<in> set acc. plain_segment w \<Longrightarrow>
   \<forall>w \<in> set (clean_segments acc ws). plain_segment w"
proof (induction acc ws rule: clean_segments.induct)
  case (1 acc)
  then show ?case by simp
next
  case (2 acc w ws)
  have ws: "\<forall>w \<in> set ws. slash \<notin> set w" using "2.prems"(1) by simp
  consider (skip) "w = '''' \<or> w = ''.''" | (up) "\<not> (w = '''' \<or> w = ''.'')" "w = ''..''"
    | (keep) "\<not> (w = '''' \<or> w = ''.'')" "w \<noteq> ''..''" by blast
  then show ?case
  proof cases
    case skip
    from "2.IH"(1) [OF skip ws "2.prems"(2)] skip show ?thesis by (simp only: clean_segments.simps if_True)
  next
    case up
    have "\<forall>w \<in> set (tl acc). plain_segment w" using "2.prems"(2) by (cases acc) simp_all
    from "2.IH"(2) [OF up ws this] up(1) show ?thesis
      unfolding up(2) by (simp only: clean_segments.simps if_False if_True refl)
  next
    case keep
    have "plain_segment w" using "2.prems"(1) keep by (simp only: plain_segment_def) simp
    with "2.prems"(2) have "\<forall>w \<in> set (w # acc). plain_segment w" by simp
    from "2.IH"(3) [OF keep ws this] keep show ?thesis by (simp only: clean_segments.simps if_False)
  qed
qed

lemma clean_segments_same:
  "(\<And>w. w \<in> set ws \<Longrightarrow> plain_segment w) \<Longrightarrow> clean_segments acc ws = rev acc @ ws"
  by (induction acc ws rule: clean_segments.induct) (auto simp: plain_segment_def)

lemma clean_segments_snoc: "clean_segments acc (ws @ ['''']) = clean_segments acc ws"
  by (induction acc ws rule: clean_segments.induct) auto

lemma split_at_pieces: "\<forall>w \<in> set (split_at c s). c \<notin> set w"
proof (induction c s rule: split_at.induct)
  case (1 c)
  show ?case by simp
next
  case (2 c x xs)
  then show ?case by (cases "split_at c xs") auto
qed

text \<open>A list of plain segments, as a path with or without a slash at its end.\<close>

lemma split_joined:
  assumes "\<And>w. w \<in> set ws \<Longrightarrow> plain_segment w" and "ws \<noteq> []"
  shows "split_at slash (slash # join_with slash ws) = '''' # ws"
    and "split_at slash (slash # join_with slash ws @ ''/'') = '''' # ws @ ['''']"
proof -
  have "slash \<notin> set w" if "w \<in> set ws" for w using assms(1) [OF that] by (simp add: plain_segment_def)
  moreover have "join_with slash ws @ ''/'' = join_with slash (ws @ [''''])"
    using assms(2) by (induction slash ws rule: join_with.induct) simp_all
  moreover have "slash \<notin> set w" if "w \<in> set (ws @ [''''])" for w
    using that \<open>\<And>w. w \<in> set ws \<Longrightarrow> slash \<notin> set w\<close> by auto
  ultimately show "split_at slash (slash # join_with slash ws) = '''' # ws"
    "split_at slash (slash # join_with slash ws @ ''/'') = '''' # ws @ ['''']"
    using split_at_join [of ws slash] split_at_join [of "ws @ ['''']" slash] assms(2) by simp_all
qed

lemma last_join:
  assumes "\<And>w. w \<in> set ws \<Longrightarrow> plain_segment w" and "ws \<noteq> []"
  shows "last (join_with slash ws) \<noteq> slash" "join_with slash ws \<noteq> ''''"
proof -
  have "last (join_with slash ws) = last (last ws) \<and> join_with slash ws \<noteq> ''''"
    using assms by (induction slash ws rule: join_with.induct) (auto simp: plain_segment_def)
  moreover have "plain_segment (last ws)" using assms by simp
  ultimately show "last (join_with slash ws) \<noteq> slash" "join_with slash ws \<noteq> ''''"
    by (auto simp: plain_segment_def) (metis last_in_set)
qed

lemma clean_joined:
  assumes "\<And>w. w \<in> set ws \<Longrightarrow> plain_segment w" and "ws \<noteq> []"
  shows "clean_path (slash # join_with slash ws) = slash # join_with slash ws"
    and "clean_path (slash # join_with slash ws @ ''/'') = slash # join_with slash ws @ ''/''"
  using split_joined [OF assms] last_join [OF assms] clean_segments_same [OF assms(1), of ws "[]"]
    clean_segments_snoc [of "[]" ws]
  by (simp_all add: clean_path_def rooted_def Let_def)

text \<open>A cleaned path is clean.\<close>

lemma clean_path_clean: "clean_path (clean_path p) = clean_path p"
proof -
  let ?ws = "clean_segments [] (split_at slash (rooted p))"
  have plain: "plain_segment w" if "w \<in> set ?ws" for w
    using clean_segments_plain [of "split_at slash (rooted p)" "[]"] split_at_pieces that by auto
  have root: "clean_path ''/'' = ''/''" by (simp add: clean_path_def rooted_def)
  have shape: "clean_path p = ''/'' \<or>
      ?ws \<noteq> [] \<and> clean_path p \<in> {slash # join_with slash ?ws, slash # join_with slash ?ws @ ''/''}"
    by (cases "?ws = []"; cases "p = ''''"; cases "last (rooted p) = slash") (simp_all add: clean_path_def Let_def)
  show ?thesis
  proof (cases "clean_path p = ''/''")
    case False
    then have "?ws \<noteq> []" using shape by blast
    from clean_joined [OF plain this] shape False show ?thesis by auto
  qed (simp add: root)
qed


section \<open>The mux\<close>

text \<open>A handler, with \<open>None\<close> for a panic, which the server ends the connection on.\<close>

type_synonym 's http_handler = "ctx \<Rightarrow> 's \<Rightarrow> http_response option \<times> 's"

type_synonym 's mux = "(string \<times> string \<times> 's http_handler) list"

text \<open>\<^verbatim>\<open>Handle\<close> panics (\<open>None\<close>) on a pattern that is registered already.\<close>

definition mux_handle :: "string \<Rightarrow> string \<Rightarrow> 's http_handler \<Rightarrow> 's mux \<Rightarrow> 's mux option" where
  "mux_handle method path h mux =
     (if list_ex (\<lambda>(m, p, _). m = method \<and> p = path) mux then None else Some (mux @ [(method, path, h)]))"

datatype 's routed = Handler "'s http_handler" | MovedTo string | MethodNotAllowed "string list" | PageNotFound

text \<open>GET in a pattern stands for GET and HEAD.\<close>

definition pattern_methods :: "string \<Rightarrow> string list" where
  "pattern_methods m = (if m = ''GET'' then [''GET'', ''HEAD''] else [m])"

definition mux_route :: "'s mux \<Rightarrow> string \<Rightarrow> string \<Rightarrow> 's routed" where
  "mux_route mux method path =
     (if method \<noteq> ''CONNECT'' \<and> clean_path path \<noteq> path then MovedTo (clean_path path)
      else
        (case find (\<lambda>(m, p, _). p = path \<and> method \<in> set (pattern_methods m)) mux of
           Some (_, _, h) \<Rightarrow> Handler h
         | None \<Rightarrow>
             let allowed = concat (map (\<lambda>(m, p, _). if p = path then pattern_methods m else []) mux)
             in if allowed \<noteq> [] then MethodNotAllowed (sort (remdups allowed)) else PageNotFound))"

datatype http_answer = Answered http_response | Aborted | Redirected string | NotAllowed "string list" | NotFound404

definition serve_http :: "'s mux \<Rightarrow> string \<Rightarrow> string \<Rightarrow> ctx \<Rightarrow> 's \<Rightarrow> http_answer \<times> 's" where
  "serve_http mux method path c s =
     (case mux_route mux method path of
        Handler h \<Rightarrow> (case h c s of (Some r, s1) \<Rightarrow> (Answered r, s1) | (None, s1) \<Rightarrow> (Aborted, s1))
      | MovedTo p \<Rightarrow> (Redirected p, s)
      | MethodNotAllowed ms \<Rightarrow> (NotAllowed ms, s)
      | PageNotFound \<Rightarrow> (NotFound404, s))"


section \<open>The service's mux\<close>

definition answers :: "(ctx \<Rightarrow> 's \<Rightarrow> http_response \<times> 's) \<Rightarrow> 's http_handler" where
  "answers h c s = (case h c s of (r, s1) \<Rightarrow> (Some r, s1))"

text \<open>
  The key set of the configured issuer.  The map's value for a tenant it does not have is a nil
  interface, on which the handler's first call panics.
\<close>

definition jwks_route ::
  "('k list \<Rightarrow> bytes) \<Rightarrow> (obj \<Rightarrow> ('a world_scheme, 'k) key_manager) \<Rightarrow> config \<Rightarrow> tenants \<Rightarrow>
   'a world_scheme http_handler" where
  "jwks_route encode deref cfg ts =
     (case map_of (AllKeyManagers ts) (Issuer cfg) of
        None \<Rightarrow> (\<lambda>c s. (None, s))
      | Some k \<Rightarrow> answers (JWKSHandler encode (deref k) (Issuer cfg) cfg))"

text \<open>\<open>prom\<close> is the handler of \<^verbatim>\<open>promhttp\<close>.\<close>

definition http_mux ::
  "('k list \<Rightarrow> bytes) \<Rightarrow> 'a world_scheme http_handler \<Rightarrow> (obj \<Rightarrow> ('a world_scheme, 'k) key_manager) \<Rightarrow>
   config \<Rightarrow> tenants \<Rightarrow> 'a world_scheme checker list \<Rightarrow> 'a world_scheme mux option" where
  "http_mux encode prom deref cfg ts checkers =
     Option.bind (mux_handle ''GET'' ''/healthz/live'' (answers NewLiveHandler) [])
     (\<lambda>m1. Option.bind (mux_handle ''GET'' ''/healthz/ready'' (answers (NewReadyHandler checkers)) m1)
     (\<lambda>m2. Option.bind (mux_handle ''GET'' ''/.well-known/jwks.json'' (jwks_route encode deref cfg ts) m2)
     (\<lambda>m3. mux_handle ''GET'' ''/metrics'' prom m3)))"

definition http_paths :: "string list" where
  "http_paths = [''/healthz/live'', ''/healthz/ready'', ''/.well-known/jwks.json'', ''/metrics'']"


section \<open>The gRPC server's services\<close>

text \<open>\<^verbatim>\<open>RegisterService\<close> ends the program on a second service of the same name.\<close>

type_synonym 's services = "(string \<times> 's method_desc list) list"

definition register_service :: "string \<Rightarrow> 's method_desc list \<Rightarrow> 's services \<Rightarrow> 's services option" where
  "register_service name methods services =
     (if map_has services name then None else Some (services @ [(name, methods)]))"

definition RegisterTokenEngineServer ::
  "wire \<Rightarrow> 's handler \<Rightarrow> 's token_engine_server \<Rightarrow> 's services \<Rightarrow> 's services option" where
  "RegisterTokenEngineServer w panic srv =
     register_service TokenEngine_ServiceName (TokenEngine_Methods w panic srv)"

text \<open>
  main registers the TokenEngine service, then grpc-go's health service, and reflection if TLS is
  disabled; the methods of the latter two are grpc-go's.
\<close>

definition grpc_services ::
  "wire \<Rightarrow> 's handler \<Rightarrow> 's token_engine_server \<Rightarrow> 's method_desc list \<Rightarrow> 's method_desc list \<Rightarrow> bool \<Rightarrow>
   's services option" where
  "grpc_services w panic srv health reflect reflection =
     Option.bind (RegisterTokenEngineServer w panic srv [])
     (\<lambda>s1. Option.bind (register_service ''grpc.health.v1.Health'' health s1)
     (\<lambda>s2. if reflection
        then Option.bind (register_service ''grpc.reflection.v1.ServerReflection'' reflect s2)
          (register_service ''grpc.reflection.v1alpha.ServerReflection'' reflect)
        else Some s2))"

lemma grpc_services_registered:
  "\<exists>ss. grpc_services w panic srv health reflect reflection = Some ss \<and>
     map_of ss TokenEngine_ServiceName = Some (TokenEngine_Methods w panic srv) \<and>
     (map_has ss ''grpc.reflection.v1.ServerReflection'' \<longleftrightarrow> reflection)"
  by (simp add: grpc_services_def RegisterTokenEngineServer_def register_service_def map_has_def
      TokenEngine_ServiceName_def)


section \<open>The HTTP port\<close>

lemma http_mux_routes:
  "http_mux encode prom deref cfg ts checkers =
     Some [(''GET'', ''/healthz/live'', answers NewLiveHandler),
           (''GET'', ''/healthz/ready'', answers (NewReadyHandler checkers)),
           (''GET'', ''/.well-known/jwks.json'', jwks_route encode deref cfg ts),
           (''GET'', ''/metrics'', prom)]"
  by (simp add: http_mux_def mux_handle_def)

lemma http_paths_clean: "p \<in> set http_paths \<Longrightarrow> clean_path p = p"
  by (auto simp: http_paths_def clean_path_def rooted_def Let_def)

lemma methods_sorted: "sort (remdups [''GET'', ''HEAD'']) = [''GET'', ''HEAD'']"
  by (simp add: less_eq_list_code)

text \<open>Requests for one of the four paths, and for any other.\<close>

lemma route_known:
  assumes "http_mux encode prom deref cfg ts checkers = Some mux" and "p \<in> set http_paths"
  shows "mux_route mux m p =
    (if m = ''GET'' \<or> m = ''HEAD'' then Handler (the (map_of (map snd mux) p))
     else MethodNotAllowed [''GET'', ''HEAD''])"
  using assms(1) http_paths_clean [OF assms(2)] assms(2) methods_sorted
  by (auto simp: http_mux_routes mux_route_def pattern_methods_def http_paths_def Let_def)

lemma route_unknown:
  assumes "http_mux encode prom deref cfg ts checkers = Some mux" and "p \<notin> set http_paths"
    and "clean_path p = p"
  shows "mux_route mux m p = PageNotFound"
  using assms by (auto simp: http_mux_routes mux_route_def pattern_methods_def http_paths_def Let_def)

lemma start_frontend_checkers:
  assumes "start_frontend dp cfg ts c s = (Inr sv, s')"
  shows "sv_checkers sv = ready_checkers (dp_redis dp) NewSlogAuditStore (ReconciliationInterval cfg)
    (map (\<lambda>(t, k). dp_key_manager dp k) (AllKeyManagers ts))"
  using assms by (auto simp: start_frontend_def Let_def split: sum.splits prod.splits option.splits)


section \<open>Properties\<close>

text \<open>
  C11: What the HTTP port answers once the service has started.  The mux registers its four
  patterns without a conflict.  A GET (or HEAD) of /healthz/live is always 200 and changes
  nothing; of /healthz/ready it is decided by the checks of Redis, the audit store, the
  reconciler and the issuer's keys, in this order, by the first that fails, and is an empty 200
  if none does; of /.well-known/jwks.json it is the key set of the issuer's own key manager,
  which is always there; of /metrics it is the Prometheus handler's.  Any other method on these
  paths is refused and names the two that are allowed, any other path is not found, and a path
  that is not clean is redirected, in one step, to one that is.
\<close>
theorem http_surface:
  assumes backend: "start_backend dp env c s = Some (Inr (cfg, ts), s1)"
    and front: "start_frontend dp cfg ts c s1 = (Inr sv, s2)"
  shows "\<exists>mux k. http_mux encode prom (dp_key_manager dp) cfg ts (sv_checkers sv last_success) = Some mux \<and>
    map_of (AllKeyManagers ts) (Issuer cfg) = Some k \<and>
    (\<forall>m u w. m = ''GET'' \<or> m = ''HEAD'' \<longrightarrow>
       serve_http mux m ''/healthz/live'' u w = (Answered \<lparr>status_line = 200, headers = [], body = []\<rparr>, w) \<and>
       (\<exists>f w'. first_failure u
            [NewRedisChecker (dp_redis dp), NewAuditChecker NewSlogAuditStore,
             NewReconcilerChecker (LastSuccessAt last_success) (wrap64 (2 * ReconciliationInterval cfg)),
             NewKeyAvailabilityChecker (dp_key_manager dp k)] w f w' \<and>
          serve_http mux m ''/healthz/ready'' u w = (Answered (ready_answer f), w')) \<and>
       serve_http mux m ''/.well-known/jwks.json'' u w =
         map_prod Answered id (JWKSHandler encode (dp_key_manager dp k) (Issuer cfg) cfg u w) \<and>
       serve_http mux m ''/metrics'' u w =
         map_prod (case_option Aborted Answered) id (prom u w)) \<and>
    (\<forall>m p u w.
       (p \<in> set http_paths \<and> m \<noteq> ''GET'' \<and> m \<noteq> ''HEAD'' \<longrightarrow>
          serve_http mux m p u w = (NotAllowed [''GET'', ''HEAD''], w)) \<and>
       (p \<notin> set http_paths \<and> clean_path p = p \<longrightarrow> serve_http mux m p u w = (NotFound404, w)) \<and>
       (m \<noteq> ''CONNECT'' \<and> clean_path p \<noteq> p \<longrightarrow>
          serve_http mux m p u w = (Redirected (clean_path p), w) \<and> clean_path (clean_path p) = clean_path p))"
proof -
  from start_backend_Inr [OF backend] obtain entry where ts: "ts = [(Issuer cfg, entry)]" by blast
  let ?k = "km entry" and ?checkers = "sv_checkers sv last_success"
  obtain mux where mux: "http_mux encode prom (dp_key_manager dp) cfg ts ?checkers = Some mux"
    by (simp add: http_mux_routes)
  have keys: "AllKeyManagers ts = [(Issuer cfg, ?k)]" by (simp add: ts AllKeyManagers_def)
  have checkers: "?checkers =
      [NewRedisChecker (dp_redis dp), NewAuditChecker NewSlogAuditStore,
       NewReconcilerChecker (LastSuccessAt last_success) (wrap64 (2 * ReconciliationInterval cfg)),
       NewKeyAvailabilityChecker (dp_key_manager dp ?k)]"
    by (simp add: start_frontend_checkers [OF front] ready_checkers_def keys)
  have routes: "serve_http mux m p u w =
      (case the (map_of (map snd mux) p) u w of (Some r, w') \<Rightarrow> (Answered r, w') | (None, w') \<Rightarrow> (Aborted, w'))"
    if "m = ''GET'' \<or> m = ''HEAD''" "p \<in> set http_paths" for m p u w
    using route_known [OF mux that(2)] that(1) by (auto simp: serve_http_def)
  have handlers: "map_of (map snd mux) ''/healthz/live'' = Some (answers NewLiveHandler)"
    "map_of (map snd mux) ''/healthz/ready'' = Some (answers (NewReadyHandler ?checkers))"
    "map_of (map snd mux) ''/.well-known/jwks.json'' = Some (jwks_route encode (dp_key_manager dp) cfg ts)"
    "map_of (map snd mux) ''/metrics'' = Some prom"
    using mux by (auto simp: http_mux_routes)
  have paths: "''/healthz/live'' \<in> set http_paths" "''/healthz/ready'' \<in> set http_paths"
    "''/.well-known/jwks.json'' \<in> set http_paths" "''/metrics'' \<in> set http_paths"
    by (simp_all add: http_paths_def)
  have ready: "\<exists>f w'. first_failure u ?checkers w f w' \<and>
      serve_http mux m ''/healthz/ready'' u w = (Answered (ready_answer f), w')"
    if "m = ''GET'' \<or> m = ''HEAD''" for m u w
  proof -
    obtain r w' where r: "NewReadyHandler ?checkers u w = (r, w')" by fastforce
    with ready_handler_exact [of ?checkers u w r w'] obtain f where "first_failure u ?checkers w f w'"
      "r = ready_answer f" by blast
    with r routes [OF that paths(2)] handlers(2) show ?thesis by (auto simp: answers_def)
  qed
  have others: "serve_http mux m p u w = (NotAllowed [''GET'', ''HEAD''], w)"
    if "p \<in> set http_paths" "m \<noteq> ''GET''" "m \<noteq> ''HEAD''" for m p u w
    using route_known [OF mux that(1)] that(2,3) by (simp add: serve_http_def)
  show ?thesis
    using mux keys ready others routes paths handlers route_unknown [OF mux] clean_path_clean
    by (intro exI [of _ mux] exI [of _ ?k] conjI allI impI)
      (auto simp: answers_def NewLiveHandler_def StatusOK200_def jwks_route_def checkers serve_http_def
        mux_route_def split: prod.split option.split)
qed

theorem http_surface_witness:
  "\<exists>sv cfg ts s1 s2 mux.
     start_backend sample_deps sample_env background lock_start = Some (Inr (cfg, ts), s1) \<and>
     start_frontend sample_deps cfg ts background s1 = (Inr sv, s2) \<and>
     http_mux (\<lambda>_. '''') (\<lambda>c s. (None, s)) (dp_key_manager sample_deps) cfg ts (sv_checkers sv 0) = Some mux \<and>
     fst (serve_http mux ''GET'' ''/healthz/live'' background lock_start) =
       Answered \<lparr>status_line = 200, headers = [], body = []\<rparr> \<and>
     fst (serve_http mux ''POST'' ''/metrics'' background lock_start) = NotAllowed [''GET'', ''HEAD''] \<and>
     fst (serve_http mux ''GET'' ''//healthz/x/../live'' background lock_start) = Redirected ''/healthz/live''"
proof -
  from sample_starts obtain sv s2 where
    "start_service sample_deps sample_env background lock_start = Some (Inr sv, s2)" by blast
  from start_service_Inr [OF this] obtain cfg ts s1 where
    st: "start_backend sample_deps sample_env background lock_start = Some (Inr (cfg, ts), s1)"
      "start_frontend sample_deps cfg ts background s1 = (Inr sv, s2)"
    by (elim exE conjE)
  have dirty: "clean_path ''//healthz/x/../live'' = ''/healthz/live''"
    by (simp add: clean_path_def rooted_def)
  have known: "''/metrics'' \<in> set http_paths" by (simp add: http_paths_def)
  show ?thesis
    using http_surface [OF st, of "\<lambda>_. ''''" "\<lambda>c s. (None, s)" 0]
  proof (elim exE conjE, goal_cases)
    case (1 mux k)
    note get = 1(3) [rule_format, of "''GET''" background lock_start, OF disjI1 [OF refl], THEN conjunct1]
    note other = 1(4) [rule_format]
    have post: "serve_http mux ''POST'' ''/metrics'' background lock_start = (NotAllowed [''GET'', ''HEAD''], lock_start)"
      by (rule other [THEN conjunct1, rule_format]) (simp add: known)
    have moved: "serve_http mux ''GET'' ''//healthz/x/../live'' background lock_start =
        (Redirected (clean_path ''//healthz/x/../live''), lock_start)"
      by (rule other [THEN conjunct2, THEN conjunct2, rule_format, THEN conjunct1]) (simp add: dirty)
    show ?case
      by (intro exI conjI, rule st(1), rule st(2), rule 1(1))
        (simp_all only: get post moved dirty fst_conv)
  qed
qed


section \<open>Health over gRPC\<close>

lemma health_not_idempotent:
  assumes "has_prefix m grpcHealthPrefix"
  shows "m \<noteq> grpcMethodIssueToken \<and> m \<noteq> grpcMethodRefreshToken"
  using assms
  by (auto simp: has_prefix_def grpcHealthPrefix_def grpcMethodIssueToken_def grpcMethodRefreshToken_def)

text \<open>
  C12: Health calls over gRPC.  A call of grpc-go's health service passes caller authorization,
  validation and idempotency untouched, whatever the caller registry says: it is answered by the
  health service exactly if the authenticator accepts the caller, and with the authenticator's
  error otherwise.  So a probe that brings no API key is refused with codes.Unauthenticated by
  every service with TLS disabled, and never learns the health status.
\<close>
theorem health_over_grpc:
  assumes auth: "reads_credentials auth" and m: "has_prefix m grpcHealthPrefix"
  shows "\<exists>c' s1. only_logged (snd (correlated uuid c s)) s1 \<and>
    fst (chain (service_chain uuid auth permitted pc st) m h c OtherReq s) =
      (case auth c of
         Inl e \<Rightarrow> Inl e
       | Inr identity \<Rightarrow> fst (h (WithCallerIdentity c' identity) OtherReq s1)) \<and>
    (\<forall>keys. auth = StaticKeyAuthenticate keys \<and>
        (\<forall>md. incoming_md c = Some md \<longrightarrow> md_get md MetadataKeyAPIKey = []) \<longrightarrow>
      fst (chain (service_chain uuid auth permitted pc st) m h c OtherReq s) =
        Inl (StatusErr Unauthenticated ''invalid or missing api key''))"
proof -
  let ?rest = "NewAuthInterceptor auth m (NewCallerAuthorizationInterceptor permitted m
    (NewValidationInterceptor m (NewIdempotencyInterceptor pc st m h)))"
    and ?c = "WithCorrelationID c (fst (correlated uuid c s))"
  have inner: "?rest ?c OtherReq t =
      (case auth c of Inl e \<Rightarrow> (Inl e, t) | Inr identity \<Rightarrow> h (WithCallerIdentity ?c identity) OtherReq t)" for t
  proof -
    have "auth ?c = auth c" using auth unfolding reads_credentials_def by (metis context_get_set(5,7))
    moreover have "validate_request OtherReq = None" by (simp add: validate_request_None)
    ultimately show ?thesis
      using m health_not_idempotent [OF m]
      by (simp add: NewAuthInterceptor_def NewCallerAuthorizationInterceptor_def NewValidationInterceptor_def
          NewIdempotencyInterceptor_def split: sum.split)
  qed
  obtain s1 s' where s1: "only_logged (snd (correlated uuid c s)) s1"
    "NewCorrelationInterceptor uuid m ?rest c OtherReq s = (fst (?rest ?c OtherReq s1), s')"
    using correlation_run [of uuid c s OtherReq m] by blast
  then have run: "fst (chain (service_chain uuid auth permitted pc st) m h c OtherReq s) =
      (case auth c of
         Inl e \<Rightarrow> Inl e
       | Inr identity \<Rightarrow> fst (h (WithCallerIdentity ?c identity) OtherReq s1))"
    by (simp add: service_chain_def inner split: sum.split)
  have "auth c = Inl (StatusErr Unauthenticated ''invalid or missing api key'')"
    if "auth = StaticKeyAuthenticate keys" "\<forall>md. incoming_md c = Some md \<longrightarrow> md_get md MetadataKeyAPIKey = []" for keys
    using that by (auto simp: StaticKeyAuthenticate_def split: option.split)
  with s1(1) run show ?thesis by (intro exI conjI allI impI) auto
qed

theorem health_over_grpc_witness:
  "fst (chain (service_chain mem_uuid (StaticKeyAuthenticate [(''k'', ''probe'')]) (\<lambda>_ _. (False, None))
     plain_codec NewNoOpIdempotencyStore) ''/grpc.health.v1.Health/Check'' (\<lambda>c r s. (Inr OtherResp, s))
     background OtherReq lock_start) = Inl (StatusErr Unauthenticated ''invalid or missing api key'')"
proof -
  have "has_prefix ''/grpc.health.v1.Health/Check'' grpcHealthPrefix"
    by (simp add: has_prefix_def grpcHealthPrefix_def)
  moreover have "incoming_md background = None" by (simp add: background_def)
  ultimately show ?thesis
    using health_over_grpc [OF credentials_read(2), where c = background] by fastforce
qed

end
