(* ===== verification/Message_Getters.thy ===== *)
theory Message_Getters
  imports Messages
begin

text \<open>
  The generated getters of the messages (\<^verbatim>\<open>gen/v1/token_engine.pb.go\<close>), on a message that may be a
  nil pointer, \<open>None\<close>: nil reads as the zero message.  The assertion to \<^verbatim>\<open>TenantAwareRequest\<close>, which
  the caller authorization makes, ends in one of them.
\<close>

definition IssueTokenRequest_GetSub :: "issue_token_request option \<Rightarrow> string" where
  "IssueTokenRequest_GetSub x = (case x of Some m \<Rightarrow> i_sub m | None \<Rightarrow> '''')"

definition IssueTokenRequest_GetTenantId :: "issue_token_request option \<Rightarrow> string" where
  "IssueTokenRequest_GetTenantId x = (case x of Some m \<Rightarrow> i_tenant_id m | None \<Rightarrow> '''')"

definition IssueTokenRequest_GetIdempotencyKey :: "issue_token_request option \<Rightarrow> string" where
  "IssueTokenRequest_GetIdempotencyKey x = (case x of Some m \<Rightarrow> i_idempotency_key m | None \<Rightarrow> '''')"

definition IssueTokenRequest_GetClaims :: "issue_token_request option \<Rightarrow> claims" where
  "IssueTokenRequest_GetClaims x = (case x of Some m \<Rightarrow> i_claims m | None \<Rightarrow> None)"

definition IssueTokenRequest_GetAudiences :: "issue_token_request option \<Rightarrow> string list" where
  "IssueTokenRequest_GetAudiences x = (case x of Some m \<Rightarrow> i_audiences m | None \<Rightarrow> [])"

definition RefreshTokenRequest_GetRefreshToken :: "refresh_token_request option \<Rightarrow> string" where
  "RefreshTokenRequest_GetRefreshToken x = (case x of Some m \<Rightarrow> f_refresh_token m | None \<Rightarrow> '''')"

definition RefreshTokenRequest_GetTenantId :: "refresh_token_request option \<Rightarrow> string" where
  "RefreshTokenRequest_GetTenantId x = (case x of Some m \<Rightarrow> f_tenant_id m | None \<Rightarrow> '''')"

definition RefreshTokenRequest_GetIdempotencyKey :: "refresh_token_request option \<Rightarrow> string" where
  "RefreshTokenRequest_GetIdempotencyKey x = (case x of Some m \<Rightarrow> f_idempotency_key m | None \<Rightarrow> '''')"

definition RefreshTokenRequest_GetClaims :: "refresh_token_request option \<Rightarrow> claims" where
  "RefreshTokenRequest_GetClaims x = (case x of Some m \<Rightarrow> f_claims m | None \<Rightarrow> None)"

definition RevokeTokenRequest_GetRefreshToken :: "revoke_token_request option \<Rightarrow> string" where
  "RevokeTokenRequest_GetRefreshToken x = (case x of Some m \<Rightarrow> t_refresh_token m | None \<Rightarrow> '''')"

definition RevokeTokenRequest_GetTenantId :: "revoke_token_request option \<Rightarrow> string" where
  "RevokeTokenRequest_GetTenantId x = (case x of Some m \<Rightarrow> t_tenant_id m | None \<Rightarrow> '''')"

definition RevokeAudienceRequest_GetAudience :: "revoke_audience_request option \<Rightarrow> string" where
  "RevokeAudienceRequest_GetAudience x = (case x of Some m \<Rightarrow> a_audience m | None \<Rightarrow> '''')"

definition RevokeAudienceRequest_GetTenantId :: "revoke_audience_request option \<Rightarrow> string" where
  "RevokeAudienceRequest_GetTenantId x = (case x of Some m \<Rightarrow> a_tenant_id m | None \<Rightarrow> '''')"

definition RevokeUserRequest_GetUserId :: "revoke_user_request option \<Rightarrow> string" where
  "RevokeUserRequest_GetUserId x = (case x of Some m \<Rightarrow> u_user_id m | None \<Rightarrow> '''')"

definition RevokeUserRequest_GetTenantId :: "revoke_user_request option \<Rightarrow> string" where
  "RevokeUserRequest_GetTenantId x = (case x of Some m \<Rightarrow> u_tenant_id m | None \<Rightarrow> '''')"

definition RevokeUserAndAudienceRequest_GetUserId :: "revoke_user_and_audience_request option \<Rightarrow> string" where
  "RevokeUserAndAudienceRequest_GetUserId x = (case x of Some m \<Rightarrow> ua_user_id m | None \<Rightarrow> '''')"

definition RevokeUserAndAudienceRequest_GetAudience :: "revoke_user_and_audience_request option \<Rightarrow> string" where
  "RevokeUserAndAudienceRequest_GetAudience x = (case x of Some m \<Rightarrow> ua_audience m | None \<Rightarrow> '''')"

definition RevokeUserAndAudienceRequest_GetTenantId :: "revoke_user_and_audience_request option \<Rightarrow> string" where
  "RevokeUserAndAudienceRequest_GetTenantId x = (case x of Some m \<Rightarrow> ua_tenant_id m | None \<Rightarrow> '''')"

definition TokenPair_GetAccessToken :: "token_pair option \<Rightarrow> string" where
  "TokenPair_GetAccessToken x = (case x of Some m \<Rightarrow> access_token m | None \<Rightarrow> '''')"

definition TokenPair_GetRefreshToken :: "token_pair option \<Rightarrow> string" where
  "TokenPair_GetRefreshToken x = (case x of Some m \<Rightarrow> refresh_token m | None \<Rightarrow> '''')"

definition TokenPair_GetAccessTokenExpiresIn :: "token_pair option \<Rightarrow> int" where
  "TokenPair_GetAccessTokenExpiresIn x = (case x of Some m \<Rightarrow> access_token_expires_in m | None \<Rightarrow> 0)"

definition TokenPair_GetRefreshTokenExpiresIn :: "token_pair option \<Rightarrow> int" where
  "TokenPair_GetRefreshTokenExpiresIn x = (case x of Some m \<Rightarrow> refresh_token_expires_in m | None \<Rightarrow> 0)"

lemmas getter_defs =
  IssueTokenRequest_GetSub_def
  IssueTokenRequest_GetTenantId_def
  IssueTokenRequest_GetIdempotencyKey_def
  IssueTokenRequest_GetClaims_def
  IssueTokenRequest_GetAudiences_def
  RefreshTokenRequest_GetRefreshToken_def
  RefreshTokenRequest_GetTenantId_def
  RefreshTokenRequest_GetIdempotencyKey_def
  RefreshTokenRequest_GetClaims_def
  RevokeTokenRequest_GetRefreshToken_def
  RevokeTokenRequest_GetTenantId_def
  RevokeAudienceRequest_GetAudience_def
  RevokeAudienceRequest_GetTenantId_def
  RevokeUserRequest_GetUserId_def
  RevokeUserRequest_GetTenantId_def
  RevokeUserAndAudienceRequest_GetUserId_def
  RevokeUserAndAudienceRequest_GetAudience_def
  RevokeUserAndAudienceRequest_GetTenantId_def
  TokenPair_GetAccessToken_def
  TokenPair_GetRefreshToken_def
  TokenPair_GetAccessTokenExpiresIn_def
  TokenPair_GetRefreshTokenExpiresIn_def

text \<open>A message that is there is read field by field, and is determined by what its getters read.\<close>

lemma IssueTokenRequest_getters:
  assumes "IssueTokenRequest_GetSub (Some m) = IssueTokenRequest_GetSub (Some m')"
    and "IssueTokenRequest_GetTenantId (Some m) = IssueTokenRequest_GetTenantId (Some m')"
    and "IssueTokenRequest_GetIdempotencyKey (Some m) = IssueTokenRequest_GetIdempotencyKey (Some m')"
    and "IssueTokenRequest_GetClaims (Some m) = IssueTokenRequest_GetClaims (Some m')"
    and "IssueTokenRequest_GetAudiences (Some m) = IssueTokenRequest_GetAudiences (Some m')"
  shows "m = (m' :: issue_token_request)"
  using assms by (cases m; cases m') (simp add: getter_defs)

lemma RefreshTokenRequest_getters:
  assumes "RefreshTokenRequest_GetRefreshToken (Some m) = RefreshTokenRequest_GetRefreshToken (Some m')"
    and "RefreshTokenRequest_GetTenantId (Some m) = RefreshTokenRequest_GetTenantId (Some m')"
    and "RefreshTokenRequest_GetIdempotencyKey (Some m) = RefreshTokenRequest_GetIdempotencyKey (Some m')"
    and "RefreshTokenRequest_GetClaims (Some m) = RefreshTokenRequest_GetClaims (Some m')"
  shows "m = (m' :: refresh_token_request)"
  using assms by (cases m; cases m') (simp add: getter_defs)

lemma RevokeTokenRequest_getters:
  assumes "RevokeTokenRequest_GetRefreshToken (Some m) = RevokeTokenRequest_GetRefreshToken (Some m')"
    and "RevokeTokenRequest_GetTenantId (Some m) = RevokeTokenRequest_GetTenantId (Some m')"
  shows "m = (m' :: revoke_token_request)"
  using assms by (cases m; cases m') (simp add: getter_defs)

lemma RevokeAudienceRequest_getters:
  assumes "RevokeAudienceRequest_GetAudience (Some m) = RevokeAudienceRequest_GetAudience (Some m')"
    and "RevokeAudienceRequest_GetTenantId (Some m) = RevokeAudienceRequest_GetTenantId (Some m')"
  shows "m = (m' :: revoke_audience_request)"
  using assms by (cases m; cases m') (simp add: getter_defs)

lemma RevokeUserRequest_getters:
  assumes "RevokeUserRequest_GetUserId (Some m) = RevokeUserRequest_GetUserId (Some m')"
    and "RevokeUserRequest_GetTenantId (Some m) = RevokeUserRequest_GetTenantId (Some m')"
  shows "m = (m' :: revoke_user_request)"
  using assms by (cases m; cases m') (simp add: getter_defs)

lemma RevokeUserAndAudienceRequest_getters:
  assumes "RevokeUserAndAudienceRequest_GetUserId (Some m) = RevokeUserAndAudienceRequest_GetUserId (Some m')"
    and "RevokeUserAndAudienceRequest_GetAudience (Some m) = RevokeUserAndAudienceRequest_GetAudience (Some m')"
    and "RevokeUserAndAudienceRequest_GetTenantId (Some m) = RevokeUserAndAudienceRequest_GetTenantId (Some m')"
  shows "m = (m' :: revoke_user_and_audience_request)"
  using assms by (cases m; cases m') (simp add: getter_defs)

lemma TokenPair_getters:
  assumes "TokenPair_GetAccessToken (Some m) = TokenPair_GetAccessToken (Some m')"
    and "TokenPair_GetRefreshToken (Some m) = TokenPair_GetRefreshToken (Some m')"
    and "TokenPair_GetAccessTokenExpiresIn (Some m) = TokenPair_GetAccessTokenExpiresIn (Some m')"
    and "TokenPair_GetRefreshTokenExpiresIn (Some m) = TokenPair_GetRefreshTokenExpiresIn (Some m')"
  shows "m = (m' :: token_pair)"
  using assms by (cases m; cases m') (simp add: getter_defs)

text \<open>The tenant that the interceptors read is the getter's.\<close>

lemma tenant_getters:
  "GetTenantId (IssueReq r1) = Some (IssueTokenRequest_GetTenantId (Some r1))"
  "GetTenantId (RefreshReq r2) = Some (RefreshTokenRequest_GetTenantId (Some r2))"
  "GetTenantId (RevokeReq r3) = Some (RevokeTokenRequest_GetTenantId (Some r3))"
  "GetTenantId (RevokeAudienceReq r4) = Some (RevokeAudienceRequest_GetTenantId (Some r4))"
  "GetTenantId (RevokeUserReq r5) = Some (RevokeUserRequest_GetTenantId (Some r5))"
  "GetTenantId (RevokeUserAudienceReq r6) = Some (RevokeUserAndAudienceRequest_GetTenantId (Some r6))"
  by (simp_all add: getter_defs)

end
