(* ===== verification/Spec2Isabelle.thy ===== *)
theory Spec2Isabelle
  imports Idem_Concurrency Telemetry Examples_Claims Examples_Clients Service_Lifecycle
    Registry_Concurrency Service_Endpoints Message_Getters
begin

text \<open>
  A model of the Token Engine, a gRPC service in Go that issues, refreshes and revokes JWTs for
  several tenants, and the theorems that make it correct.  Source paths are relative to the
  repository's root.

  \<^bold>\<open>The program.\<close>  A request passes five interceptors, in the order
  \<^verbatim>\<open>cmd/token-engine/main.go\<close> chains them: correlation (an ID in the context, one log line and
  the metrics of the call), authentication (a client certificate or an API key becomes the caller
  identity), caller authorization (may this caller act for this tenant), validation, and
  idempotency (a client's key makes a retry of IssueToken or RefreshToken return the first
  answer).  Behind them a handler looks up the tenant's manager in the tenant registry, calls the
  jwtauth library, maps its errors to gRPC statuses, and, for a revocation, asks the audit store
  before and tells it after.  Beside the requests run one key rotation loop per tenant and one
  reconciliation loop, which exclude each other across instances by locks in Redis, and an HTTP
  server with liveness, readiness and the public key set.  A Go client is part of the repository,
  with five example programs that use it.

  \<^bold>\<open>How state is modelled.\<close>  Every operation is a function that takes and returns a
  \<open>world\<close>: the clock and the trace of the logger, tracer and metrics calls (theory \<open>World\<close>).
  What is behind third-party interfaces is the polymorphic extension of that record.  A Go error is
  a value (\<open>go_error\<close>, theory \<open>Grpc_Errors\<close>), a fallible operation returns \<open>go_error + 'a\<close> or
  \<open>go_error option\<close>, a panic and a program exit are branches.  Strings are lists of bytes.  A map
  that the code ranges over is a list of pairs whose order stands for the unspecified iteration
  order.  Times and durations are nanoseconds in \<open>int\<close>, with the 64 bits written out where the
  code can wrap or saturate.

  \<^bold>\<open>The theories.\<close>

  Foundations.
  \<^item> \<open>Prelude\<close>: byte strings, string maps, the collections \<open>run_simps\<close>, \<open>event_simps\<close> and
    \<open>law_intros\<close>.
  \<^item> \<open>Grpc_Errors\<close>: errors, wrapping, \<^verbatim>\<open>errors.Is\<close>, status codes, and \<open>MapLibraryError\<close>
    (\<^verbatim>\<open>internal/observability/errors.go\<close>).
  \<^item> \<open>World\<close>: contexts and the world (\<^verbatim>\<open>internal/observability/correlation.go\<close>).
  \<^item> \<open>Messages\<close>: the request and response messages (\<^verbatim>\<open>gen/v1/token_engine.pb.go\<close>) and the
    chaining of interceptors.  \<open>Message_Getters\<close>: their getters, total on a nil message, and that
    they determine it.
  \<^item> \<open>Sha256\<close>, \<open>Base64\<close>, \<open>Json\<close>, \<open>Json_Roundtrip\<close>, \<open>Go_Float\<close>, \<open>Go_Parse\<close>: what the source
    uses of Go's standard library, executable: the digest on 32-bit words, base64, the JSON
    printer and a parser with its round trip, \<^verbatim>\<open>float64\<close> rounding, \<^verbatim>\<open>time.ParseDuration\<close>,
    \<^verbatim>\<open>strconv.Atoi\<close> and \<^verbatim>\<open>strconv.ParseBool\<close>.

  Observability.
  \<^item> \<open>Observability\<close>: redaction (\<^verbatim>\<open>redact.go\<close>), the loggers (\<^verbatim>\<open>logger.go\<close>), the Prometheus
    registry (\<^verbatim>\<open>metrics.go\<close>).  The index loop of the redaction is proved equal to its pairwise
    specification.
  \<^item> \<open>Telemetry\<close>: the Metrics interface as the locale \<open>metrics_sink\<close> with the Prometheus, library
    and NoOp implementations, the service's and the library's tracer and span (\<^verbatim>\<open>tracer.go\<close>) as
    calls on an OpenTelemetry tracer, and the NoOp logger, tracer and span (\<^verbatim>\<open>noop.go\<close>).

  Access.
  \<^item> \<open>Auth_Interceptors\<close>: the correlation, authentication and authorization interceptors, the
    authenticators, the caller registries and the loading of their file (\<^verbatim>\<open>internal/interceptor/auth.go\<close>, \<^verbatim>\<open>caller.go\<close>,
    \<^verbatim>\<open>internal/registry/caller.go\<close>, \<^verbatim>\<open>noop.go\<close>); locales \<open>authenticator\<close> and \<open>caller_registry\<close>.
  \<^item> \<open>Validation\<close>: \<^verbatim>\<open>internal/interceptor/validation.go\<close>.
  \<^item> \<open>Access_Properties\<close>: the chain; each gate is characterised exactly, and a refused call
    depends on nothing behind the gates.

  Idempotency.
  \<^item> \<open>Redis_Store\<close>: the Redis client as the locale \<open>redis_server\<close> (what go-redis and the server
    document), the store interface as the locale \<open>idempotency_store\<close>, which the Redis store of
    \<^verbatim>\<open>internal/store\<close> is proved to keep, and a server in memory on which the witnesses run.
  \<^item> \<open>Idem_Record\<close>: record envelope, fingerprints (first half of
    \<^verbatim>\<open>internal/interceptor/idempotency.go\<close>).
  \<^item> \<open>Idempotency\<close>: the interceptor itself (second half).
  \<^item> \<open>Idem_Properties\<close>: sequential guarantees (a retry returns the first answer, a reused key is
    refused, failures of the store never fail an issuance), round trip, fingerprints, store keys.
  \<^item> \<open>Idem_Concurrency\<close>: many requests on one key as the step relation \<open>conc\<close>, whose invariant
    is that of two requests that ran their handlers one has ended and its record has lapsed, and how
    long the claim of a request that dies is held.

  Tenants and handlers.
  \<^item> \<open>Tenant_Registry\<close>: \<^verbatim>\<open>internal/registry/multi_tenant.go\<close> and \<^verbatim>\<open>backfill.go\<close>, refined from the
    life cycle Absent, Active, Draining; reachable registries are the inductive
    \<open>reg_reachable\<close>; locale \<open>tenant_lookup\<close>.
  \<^item> \<open>Registry_Concurrency\<close>: the registry's methods in small steps under their \<^verbatim>\<open>RWMutex\<close>, run by any
    number of goroutines (the step relation \<open>g_step\<close>); they are linearizable with respect to
    \<open>Tenant_Registry\<close> and never deadlock.
  \<^item> \<open>Token_Ref\<close>, \<open>Audit_Store\<close>: \<^verbatim>\<open>internal/tokenref\<close>, \<^verbatim>\<open>internal/audit\<close>; locale \<open>audit_log\<close>.
  \<^item> \<open>Token_Handler\<close>, \<open>Handler_Properties\<close>: the six RPCs of \<^verbatim>\<open>internal/handler/token.go\<close>, and
    their audit, error, span and expiry guarantees.

  Background work and start-up.
  \<^item> \<open>Dist_Lock\<close>: \<^verbatim>\<open>internal/lock\<close>; the locales \<open>locker\<close> and \<open>exclusive_locker\<close>, the Redis lock as
    a sublocale, and mutual exclusion over any sequence of other holders' operations.
  \<^item> \<open>Reconciler\<close>: \<^verbatim>\<open>internal/reconciliation\<close>.
  \<^item> \<open>Health\<close>, \<open>Jwks_Handler\<close>: \<^verbatim>\<open>internal/health\<close>, \<^verbatim>\<open>internal/handler/jwks.go\<close>.
  \<^item> \<open>Config_Load\<close>: \<^verbatim>\<open>internal/config\<close>.
  \<^item> \<open>Service_Main\<close>: \<^verbatim>\<open>cmd/token-engine/main.go\<close>: the wait for Redis, the choices start-up makes
    from the configuration, the tickers, the rotation tick (what its guard covers, and that it does
    not cover a tick that looked before the lock), and \<open>start_service\<close>, which composes the
    components.
  \<^item> \<open>Service_Endpoints\<close>: what the started service answers beside the token calls: the HTTP mux
    (\<^verbatim>\<open>net/http\<close>'s path cleaning and routing, executable) with its four routes, the services
    registered with the gRPC server, and health calls over gRPC.
  \<^item> \<open>Service_Lifecycle\<close>: the background loops, and the signal and graceful shutdown as the step
    relation \<open>lc_step\<close> between the main goroutine, the gRPC server, the calls in flight and the
    timer; its invariant gives the order of the shutdown, and every fair run from the signal on
    ends in the exit, whatever calls hang.

  Calls, end to end.
  \<^item> \<open>Grpc_Service\<close>: \<^verbatim>\<open>gen/v1/token_engine_grpc.pb.go\<close>: the client stub, the server interface, the
    six method handlers, the service descriptor.
  \<^item> \<open>Rpc\<close>: a stub's call reaches the handler of its request through the interceptor chain
    (locale \<open>request_interceptor\<close>: an interceptor hands on the request it was given, which each of
    the five does); an executable wire format.
  \<^item> \<open>Service_Frame\<close>: a relation that holds of every elementary operation of the service (a
    \<open>steps\<close> relation) holds of every call of its chain and handlers.
  \<^item> \<open>Client_Sdk\<close>: \<^verbatim>\<open>client\<close>; a key a client is given is the key the server reads.
  \<^item> \<open>Rpc_Calls\<close>: the client's calls through every layer of a running service; locale
    \<open>deployment\<close>, interpreted on the modelled client, chain, handlers, store and Redis.
  \<^item> \<open>Examples\<close>, \<open>Examples_Tenants\<close>, \<open>Examples_Claims\<close>, \<open>Examples_Clients\<close>: the programs under
    \<^verbatim>\<open>examples\<close> as functions from the environment, the network and the world to the lines they
    print and the way they stop, run against that service: what the idempotency and the tenant
    isolation examples demonstrate holds, a key served by the JWKS handler is the key the claims
    example verifies with, and the plaintext fallback of the mTLS example is refused.

  \<^bold>\<open>Recursion and fuel.\<close>  The JSON parser spends one unit of fuel per call;
  \<open>parse_value_fuel\<close> shows that fuel beyond twice the length of the input never matters, and
  \<open>json_parse\<close> supplies that much.  The wait for Redis
  has no bound in the code but the time it takes: it is a \<open>partial_function\<close>, and that it returns
  is a theorem under a clock that does not run backwards and a sleep that lasts as asked.  The
  scanner of durations terminates by a measure on the input.  Everything else is structural.

  \<^bold>\<open>Parameters.\<close>  The Redis client (laws of \<open>redis_server\<close>), jwtauth's managers, key managers and
  stores (nothing assumed but what a theorem names), the UUID generator (\<open>token_source\<close>:
  drawing a token leaves the server alone), the protobuf marshaller of a token pair (\<open>codec_ok\<close>:
  it reads back what it writes; \<open>marshals_text\<close>: it writes a pair of valid UTF-8), the
  printer and parser of a rotation's time stamp, the readers of certificates, the opening and the
  YAML decoding of the caller registry's file, the trace exporter, the listener,
  \<^verbatim>\<open>time.Sleep\<close> and the dialer.  Of grpc-go and protobuf a call relies on: the method of a
  descriptor is found by its name (\<open>routes_by_name\<close>), a request is read as it was written
  (\<open>wire_ok\<close>, which idealises: protobuf refuses strings that are not UTF-8 and reads an empty
  map of claims as nil), metadata is delivered (\<open>delivers\<close>), and a connection that is up runs the method
  found (\<open>connected\<close>); \<open>name_route\<close>, \<open>plain_wire\<close>, \<open>plain_delivery\<close> and \<open>direct_conn\<close> are
  functions that keep these laws.  The examples' network, \<^verbatim>\<open>http.Get\<close> and JWT library are
  parameters too.

  \<^bold>\<open>Not modelled.\<close>  The protobuf runtime's part of \<^verbatim>\<open>gen/v1/token_engine.pb.go\<close> (descriptors,
  reflection, \<^verbatim>\<open>Reset\<close> and \<^verbatim>\<open>String\<close>); the test doubles (\<^verbatim>\<open>internal/testutil\<close>), which GoMock
  generated, and the tests; the set-up of the OpenTelemetry provider, the opening of the two
  listeners and the time-outs and keepalive settings of the servers, which are values handed to
  third-party code; the insides of the gRPC health and reflection services; the text of the
  warnings of \<^verbatim>\<open>Load\<close>; deadlines and cancellation of a caller's context.
\<close>

end
